(* ===== verification/Prelude.thy ===== *)
theory Prelude
  imports Main
begin

text \<open>
  Shared vocabulary of the development.  The client is TypeScript running on a single
  event loop; a handler that throws does not undo the assignments it made before the
  throw.  A handler is therefore modelled as a function returning an \<open>outcome\<close> (a normal
  result or the thrown error) \<^emph>\<open>beside\<close> the state it leaves behind, and a pure computation
  that may throw returns \<open>js_error + 'a\<close>, sequenced with \<open>sum_bind\<close>.  The browser's
  \<open>localStorage\<close> is a partial map from string keys to string values.
\<close>

named_theorems model_simps "characteristic equations of the model's operations"

datatype js_error =
    TypeError string
  | SyntaxError string
  | URIError string
  | Error string

datatype 'a outcome = Ok 'a | Thrown js_error

type_synonym storage = "string \<rightharpoonup> string"

definition sum_bind :: "'e + 'a \<Rightarrow> ('a \<Rightarrow> 'e + 'b) \<Rightarrow> 'e + 'b" where
  "sum_bind r f = (case r of Inl e \<Rightarrow> Inl e | Inr x \<Rightarrow> f x)"

lemma sum_bind_Inl [simp]: "sum_bind (Inl e) f = Inl e"
  by (simp add: sum_bind_def)

lemma sum_bind_Inr [simp]: "sum_bind (Inr x) f = f x"
  by (simp add: sum_bind_def)

lemma sum_bind_assoc [simp]:
  "sum_bind (sum_bind r f) g = sum_bind r (\<lambda>x. sum_bind (f x) g)"
  by (cases r) simp_all

lemma sum_bind_eq_Inr_iff:
  "sum_bind r f = Inr y \<longleftrightarrow> (\<exists>x. r = Inr x \<and> f x = Inr y)"
  by (cases r) simp_all

lemma sum_bind_eq_Inl_iff:
  "sum_bind r f = Inl e \<longleftrightarrow> r = Inl e \<or> (\<exists>x. r = Inr x \<and> f x = Inl e)"
  by (cases r) simp_all

text \<open>Lists of characters that contain none of a set of characters are left alone by
  the trimming functions the conversions use.\<close>

lemma dropWhile_all_not:
  "list_all (\<lambda>c. \<not> P c) xs \<Longrightarrow> dropWhile P xs = xs"
  by (cases xs) simp_all

lemma takeWhile_all:
  "list_all P xs \<Longrightarrow> takeWhile P xs = xs"
  by (induction xs) simp_all

lemma list_all_rev_iff [simp]: "list_all P (rev xs) = list_all P xs"
  by (simp add: list_all_iff)

text \<open>\<open>Array.prototype.map\<close> with a callback that may throw: the callback runs on the
  elements in order and the first exception ends the loop.\<close>

fun sum_map_list :: "('a \<Rightarrow> 'e + 'b) \<Rightarrow> 'a list \<Rightarrow> 'e + 'b list" where
  "sum_map_list f [] = Inr []"
| "sum_map_list f (x # xs) = sum_bind (f x) (\<lambda>y. sum_bind (sum_map_list f xs) (\<lambda>ys. Inr (y # ys)))"

lemma sum_map_list_Inr_iff:
  "sum_map_list f xs = Inr ys \<longleftrightarrow> list_all2 (\<lambda>x y. f x = Inr y) xs ys"
proof (induction xs arbitrary: ys)
  case Nil
  then show ?case by auto
next
  case (Cons x xs)
  then show ?case by (cases ys) (auto simp: sum_bind_eq_Inr_iff)
qed

lemma sum_map_list_map:
  "(\<And>x. x \<in> set xs \<Longrightarrow> f x = Inr (g x)) \<Longrightarrow> sum_map_list f xs = Inr (map g xs)"
  by (induction xs) simp_all

lemma sum_map_list_total:
  "(\<And>x. x \<in> set xs \<Longrightarrow> \<exists>y. f x = Inr y) \<Longrightarrow> \<exists>ys. sum_map_list f xs = Inr ys"
  by (induction xs) fastforce+

text \<open>A handler body as the list of its statements, run in order on an explicit state.
  A statement either throws before it has any effect or completes with a new state; a
  throw ends the body and leaves the state the previous statements produced.\<close>

fun run_stmts :: "('s \<Rightarrow> js_error + 's) list \<Rightarrow> 's \<Rightarrow> unit outcome \<times> 's" where
  "run_stmts [] s = (Ok (), s)"
| "run_stmts (f # fs) s = (case f s of Inl e \<Rightarrow> (Thrown e, s) | Inr s' \<Rightarrow> run_stmts fs s')"

lemma run_stmts_append:
  "run_stmts (fs @ gs) s =
     (case run_stmts fs s of (Ok _, s') \<Rightarrow> run_stmts gs s' | (Thrown e, s') \<Rightarrow> (Thrown e, s'))"
  by (induction fs arbitrary: s) (simp_all split: sum.splits)

text \<open>A prefix of the body that completes hands its state to the rest.\<close>

lemma run_stmts_split:
  "run_stmts (take n fs) s = (Ok u, s') \<Longrightarrow> run_stmts fs s = run_stmts (drop n fs) s'"
  using run_stmts_append [of "take n fs" "drop n fs" s] by simp

text \<open>A property of the state that every statement preserves holds after the body,
  whether it completes or throws.\<close>

lemma run_stmts_invariant:
  assumes "\<And>f s s'. f \<in> set fs \<Longrightarrow> f s = Inr s' \<Longrightarrow> P s \<Longrightarrow> P s'" and "P s"
  shows "P (snd (run_stmts fs s))"
  using assms by (induction fs arbitrary: s) (fastforce split: sum.splits)+

text \<open>The Angular router, as far as the client drives it: the list of navigations
  requested with \<open>Router.navigate(commands)\<close>, oldest first.\<close>

record router =
  navigations :: "string list list"

text \<open>\<open>Router.navigate(commands)\<close>: the request is queued; the router is Angular's.\<close>

definition navigate :: "string list \<Rightarrow> router \<Rightarrow> router" where
  "navigate commands r = r\<lparr>navigations := navigations r @ [commands]\<rparr>"

lemma navigate_neq [simp]: "navigate c r \<noteq> r"
proof
  assume "navigate c r = r"
  then have "length (navigations (navigate c r)) = length (navigations r)" by simp
  then show False by (simp add: navigate_def)
qed

end
