(* ===== verification/JsValue.thy ===== *)
theory JsValue
  imports Prelude
begin

text \<open>
  JavaScript values as the client sees them at run time: the parsed JSON of a token
  payload or of an HTTP response, and the results of property reads on them.  TypeScript
  types are erased, so a field typed \<open>number\<close> may hold any of these.  Numbers are the
  integers and \<open>NaN\<close> (\<open>jsnum\<close>): every number the client computes with is an id, a
  count, a date component or a time value.  The conversions are the ECMAScript
  operations the source calls: \<open>ToString\<close> (template literals, \<open>toString()\<close>),
  \<open>ToNumber\<close> (unary \<open>+\<close>, \<open>Number(..)\<close>, arithmetic), \<open>parseInt\<close>, truthiness
  (\<open>if (x)\<close>, \<open>!x\<close>), property reads \<open>v[k]\<close> and the \<open>in\<close> operator.
  Object properties are an association list in insertion order; a later binding of the
  same key wins, as \<open>JSON.parse\<close> does with duplicate keys.  Characters are bytes.
\<close>

datatype jsnum = IntV int | NaN

datatype jsval =
    Undefined
  | Null
  | Bool bool
  | Number jsnum
  | Str string
  | Arr "jsval list"
  | Obj "(string \<times> jsval) list"

subsection \<open>Digits and whitespace\<close>

definition digit_char :: "nat \<Rightarrow> char" where
  "digit_char d = char_of (48 + d)"

definition digit_value :: "char \<Rightarrow> nat option" where
  "digit_value c =
     (let n = (of_char c :: nat) in
      if 48 \<le> n \<and> n \<le> 57 then Some (n - 48)
      else if 97 \<le> n \<and> n \<le> 122 then Some (n - 87)
      else if 65 \<le> n \<and> n \<le> 90 then Some (n - 55)
      else None)"

definition is_radix_digit :: "nat \<Rightarrow> char \<Rightarrow> bool" where
  "is_radix_digit r c = (case digit_value c of Some d \<Rightarrow> d < r | None \<Rightarrow> False)"

definition digit_of :: "char \<Rightarrow> nat" where
  "digit_of c = (case digit_value c of Some d \<Rightarrow> d | None \<Rightarrow> 0)"

definition read_radix :: "nat \<Rightarrow> string \<Rightarrow> nat" where
  "read_radix r cs = foldl (\<lambda>acc c. r * acc + digit_of c) 0 cs"

definition js_space :: "char \<Rightarrow> bool" where
  "js_space c \<longleftrightarrow> c \<in> set [CHR '' '', CHR 0x09, CHR 0x0A, CHR 0x0B, CHR 0x0C, CHR 0x0D]"

subsection \<open>Number to string\<close>

fun show_nat :: "nat \<Rightarrow> string" where
  "show_nat n =
     (if n < 10 then [digit_char n] else show_nat (n div 10) @ [digit_char (n mod 10)])"

declare show_nat.simps [simp del]

definition show_int :: "int \<Rightarrow> string" where
  "show_int i = (if i < 0 then CHR ''-'' # show_nat (nat (- i)) else show_nat (nat i))"

text \<open>\<open>Number.prototype.toString()\<close> with no radix.\<close>

fun num_to_string :: "jsnum \<Rightarrow> string" where
  "num_to_string (IntV i) = show_int i"
| "num_to_string NaN = ''NaN''"

subsection \<open>String to number\<close>

definition trim_js :: "string \<Rightarrow> string" where
  "trim_js s = rev (dropWhile js_space (rev (dropWhile js_space s)))"

definition sign_split :: "string \<Rightarrow> int \<times> string" where
  "sign_split s =
     (case s of
        c # cs \<Rightarrow> if c = CHR ''-'' then (-1, cs) else if c = CHR ''+'' then (1, cs) else (1, s)
      | [] \<Rightarrow> (1, s))"

definition read_unsigned :: "nat \<Rightarrow> string \<Rightarrow> nat option" where
  "read_unsigned r cs =
     (if cs \<noteq> [] \<and> list_all (is_radix_digit r) cs then Some (read_radix r cs) else None)"

text \<open>The prefixes \<open>0x\<close>, \<open>0o\<close>, \<open>0b\<close> of a \<open>StringNumericLiteral\<close>.\<close>

definition radix_prefix :: "string \<Rightarrow> (nat \<times> string) option" where
  "radix_prefix s =
     (case s of
        c0 # c1 # rest \<Rightarrow>
          if c0 \<noteq> CHR ''0'' then None
          else if c1 = CHR ''x'' \<or> c1 = CHR ''X'' then Some (16, rest)
          else if c1 = CHR ''o'' \<or> c1 = CHR ''O'' then Some (8, rest)
          else if c1 = CHR ''b'' \<or> c1 = CHR ''B'' then Some (2, rest)
          else None
      | _ \<Rightarrow> None)"

text \<open>
  \<open>StringToNumber\<close>: surrounding whitespace is ignored, the empty string is 0, a signed
  decimal integer or an unsigned prefixed integer is its value.  The remaining literal
  forms of the grammar (fractions, exponents, \<open>Infinity\<close>) denote non-integers or
  infinities, which lie outside \<open>jsnum\<close>; they are read as \<open>NaN\<close> here.
\<close>

definition string_to_number :: "string \<Rightarrow> jsnum" where
  "string_to_number s =
     (let t = trim_js s in
      if t = [] then IntV 0
      else case radix_prefix t of
        Some (r, ds) \<Rightarrow> (case read_unsigned r ds of Some n \<Rightarrow> IntV (int n) | None \<Rightarrow> NaN)
      | None \<Rightarrow>
          (case sign_split t of (sg, ds) \<Rightarrow>
            (case read_unsigned 10 ds of Some n \<Rightarrow> IntV (sg * int n) | None \<Rightarrow> NaN)))"

text \<open>\<open>parseInt(s)\<close> with no radix: leading whitespace, a sign, an optional \<open>0x\<close>, then
  the longest run of digits; no digit at all is \<open>NaN\<close>.\<close>

definition parse_int :: "string \<Rightarrow> jsnum" where
  "parse_int s =
     (case sign_split (dropWhile js_space s) of (sg, u) \<Rightarrow>
       (let (r, v) = (case u of
                        c0 # c1 # rest \<Rightarrow>
                          if c0 = CHR ''0'' \<and> (c1 = CHR ''x'' \<or> c1 = CHR ''X'') then (16, rest)
                          else (10, u)
                      | _ \<Rightarrow> (10, u));
            z = takeWhile (is_radix_digit r) v
        in if z = [] then NaN else IntV (sg * int (read_radix r z))))"

subsection \<open>ToString, ToNumber, truthiness\<close>

fun join_with :: "string \<Rightarrow> string list \<Rightarrow> string" where
  "join_with sep [] = []"
| "join_with sep [x] = x"
| "join_with sep (x # y # ys) = x @ sep @ join_with sep (y # ys)"

text \<open>\<open>ToString\<close>; an array is \<open>join(',')\<close> of its elements, with \<open>undefined\<close> and
  \<open>null\<close> elements as the empty string.\<close>

fun js_to_string :: "jsval \<Rightarrow> string" where
  "js_to_string Undefined = ''undefined''"
| "js_to_string Null = ''null''"
| "js_to_string (Bool b) = (if b then ''true'' else ''false'')"
| "js_to_string (Number n) = num_to_string n"
| "js_to_string (Str s) = s"
| "js_to_string (Arr xs) =
     join_with '','' (map (\<lambda>x. if x = Undefined \<or> x = Null then [] else js_to_string x) xs)"
| "js_to_string (Obj kvs) = ''[object Object]''"

text \<open>\<open>ToNumber\<close>; an array or object goes through \<open>ToPrimitive\<close>, i.e. its string.\<close>

fun to_number :: "jsval \<Rightarrow> jsnum" where
  "to_number Undefined = NaN"
| "to_number Null = IntV 0"
| "to_number (Bool b) = IntV (if b then 1 else 0)"
| "to_number (Number n) = n"
| "to_number (Str s) = string_to_number s"
| "to_number (Arr xs) = string_to_number (js_to_string (Arr xs))"
| "to_number (Obj kvs) = string_to_number (js_to_string (Obj kvs))"

fun truthy :: "jsval \<Rightarrow> bool" where
  "truthy Undefined = False"
| "truthy Null = False"
| "truthy (Bool b) = b"
| "truthy (Number (IntV i)) = (i \<noteq> 0)"
| "truthy (Number NaN) = False"
| "truthy (Str s) = (s \<noteq> [])"
| "truthy (Arr xs) = True"
| "truthy (Obj kvs) = True"

text \<open>Relational \<open>>\<close> on numbers: every comparison with \<open>NaN\<close> is false.\<close>

fun num_gt :: "jsnum \<Rightarrow> jsnum \<Rightarrow> bool" where
  "num_gt (IntV a) (IntV b) = (a > b)"
| "num_gt _ _ = False"

text \<open>A method call \<open>v.toString()\<close>: reading the method off \<open>undefined\<close> or
  \<open>null\<close> throws; on every other value it is \<open>ToString\<close>.\<close>

fun call_to_string :: "jsval \<Rightarrow> js_error + string" where
  "call_to_string Undefined = Inl (TypeError ''Cannot read properties of undefined'')"
| "call_to_string Null = Inl (TypeError ''Cannot read properties of null'')"
| "call_to_string v = Inr (js_to_string v)"

subsection \<open>Property access\<close>

definition array_index :: "string \<Rightarrow> nat option" where
  "array_index k =
     (if k \<noteq> [] \<and> list_all (is_radix_digit 10) k \<and> (k = ''0'' \<or> hd k \<noteq> CHR ''0'')
      then Some (read_radix 10 k) else None)"

fun get_prop :: "jsval \<Rightarrow> string \<Rightarrow> js_error + jsval" where
  "get_prop Undefined k = Inl (TypeError ''Cannot read properties of undefined'')"
| "get_prop Null k = Inl (TypeError ''Cannot read properties of null'')"
| "get_prop (Obj kvs) k = Inr (case map_of (rev kvs) k of Some v \<Rightarrow> v | None \<Rightarrow> Undefined)"
| "get_prop (Arr xs) k =
     Inr (if k = ''length'' then Number (IntV (int (length xs)))
          else case array_index k of
                 Some i \<Rightarrow> if i < length xs then xs ! i else Undefined
               | None \<Rightarrow> Undefined)"
| "get_prop (Str s) k =
     Inr (if k = ''length'' then Number (IntV (int (length s)))
          else case array_index k of
                 Some i \<Rightarrow> if i < length s then Str [s ! i] else Undefined
               | None \<Rightarrow> Undefined)"
| "get_prop (Number n) k = Inr Undefined"
| "get_prop (Bool b) k = Inr Undefined"

text \<open>\<open>k in v\<close>: only objects (arrays included) may be searched.\<close>

fun js_in :: "string \<Rightarrow> jsval \<Rightarrow> js_error + bool" where
  "js_in k (Obj kvs) = Inr (k \<in> set (map fst kvs))"
| "js_in k (Arr xs) =
     Inr (k = ''length'' \<or> (case array_index k of Some i \<Rightarrow> i < length xs | None \<Rightarrow> False))"
| "js_in k v = Inl (TypeError ''Cannot use in operator to search for a key in a primitive'')"

text \<open>\<open>v.hasOwnProperty(k)\<close>.\<close>

fun has_own_property :: "jsval \<Rightarrow> string \<Rightarrow> js_error + bool" where
  "has_own_property Undefined k = Inl (TypeError ''Cannot convert undefined or null to object'')"
| "has_own_property Null k = Inl (TypeError ''Cannot convert undefined or null to object'')"
| "has_own_property (Obj kvs) k = Inr (k \<in> set (map fst kvs))"
| "has_own_property (Arr xs) k =
     Inr (k = ''length'' \<or> (case array_index k of Some i \<Rightarrow> i < length xs | None \<Rightarrow> False))"
| "has_own_property (Str s) k =
     Inr (k = ''length'' \<or> (case array_index k of Some i \<Rightarrow> i < length s | None \<Rightarrow> False))"
| "has_own_property (Number n) k = Inr False"
| "has_own_property (Bool b) k = Inr False"

subsection \<open>Decimal round trips\<close>

text \<open>
  The client writes numbers into strings with \<open>toString()\<close> and reads them back with
  unary \<open>+\<close>, \<open>Number(..)\<close> or \<open>parseInt\<close>.  The lemmas below show the decimal
  printer produces only digits and that both readers invert it.
\<close>

lemma digit_value_digit_char [simp]: "d < 10 \<Longrightarrow> digit_value (digit_char d) = Some d"
  by (simp add: digit_value_def digit_char_def)

lemma digit_of_digit_char [simp]: "d < 10 \<Longrightarrow> digit_of (digit_char d) = d"
  by (simp add: digit_of_def)

lemma is_radix_digit_digit_char [simp]: "d < 10 \<Longrightarrow> is_radix_digit 10 (digit_char d)"
  by (simp add: is_radix_digit_def)

lemma show_nat_unfold:
  "show_nat n = (if n < 10 then [digit_char n] else show_nat (n div 10) @ [digit_char (n mod 10)])"
  by (rule show_nat.simps)

lemma show_nat_digits: "list_all (is_radix_digit 10) (show_nat n)"
proof (induction n rule: show_nat.induct)
  case (1 n)
  then show ?case by (subst show_nat_unfold) simp
qed

lemma show_nat_not_Nil [simp]: "show_nat n \<noteq> []"
  by (subst show_nat_unfold) simp

lemma read_radix_snoc [simp]:
  "read_radix r (xs @ [c]) = r * read_radix r xs + digit_of c"
  by (simp add: read_radix_def)

lemma read_radix_show_nat: "read_radix 10 (show_nat n) = n"
proof (induction n rule: show_nat.induct)
  case (1 n)
  show ?case
  proof (cases "n < 10")
    case True
    then show ?thesis by (subst show_nat_unfold) (simp add: read_radix_def)
  next
    case False
    with "1.IH" show ?thesis by (subst show_nat_unfold) simp
  qed
qed

lemma radix_digit_not_space: "is_radix_digit 10 c \<Longrightarrow> \<not> js_space c"
  by (auto simp: is_radix_digit_def digit_value_def js_space_def Let_def split: if_splits)

lemma radix_digit_not_sign:
  "is_radix_digit 10 c \<Longrightarrow> c \<noteq> CHR ''-'' \<and> c \<noteq> CHR ''+''"
  by (auto simp: is_radix_digit_def digit_value_def)

lemma radix_digit_not_prefix_letter:
  "is_radix_digit 10 c \<Longrightarrow> c \<notin> {CHR ''x'', CHR ''X'', CHR ''o'', CHR ''O'', CHR ''b'', CHR ''B''}"
  by (auto simp: is_radix_digit_def digit_value_def)

lemma trim_js_no_space:
  assumes "list_all (\<lambda>c. \<not> js_space c) s"
  shows "trim_js s = s"
  using assms by (simp add: trim_js_def dropWhile_all_not)

lemma radix_prefix_digits:
  "list_all (is_radix_digit 10) s \<Longrightarrow> radix_prefix s = None"
  by (auto simp: radix_prefix_def dest: radix_digit_not_prefix_letter split: list.splits)

lemma sign_split_digits:
  "list_all (is_radix_digit 10) s \<Longrightarrow> sign_split s = (1, s)"
  by (auto simp: sign_split_def dest: radix_digit_not_sign split: list.splits)

lemma read_unsigned_show_nat: "read_unsigned 10 (show_nat n) = Some n"
  by (simp add: read_unsigned_def show_nat_digits read_radix_show_nat)

lemma show_nat_no_space: "list_all (\<lambda>c. \<not> js_space c) (show_nat n)"
  using show_nat_digits by (auto simp: list_all_iff dest: radix_digit_not_space)

lemma string_to_number_show_int: "string_to_number (show_int i) = IntV i"
proof (cases "i < 0")
  case True
  let ?s = "CHR ''-'' # show_nat (nat (- i))"
  have sp: "list_all (\<lambda>c. \<not> js_space c) ?s"
    using show_nat_no_space by (simp add: js_space_def)
  have "radix_prefix ?s = None" by (simp add: radix_prefix_def split: list.splits)
  with True sp show ?thesis
    by (simp add: string_to_number_def show_int_def trim_js_no_space sign_split_def
        read_unsigned_show_nat)
next
  case False
  then show ?thesis
    by (simp add: string_to_number_def show_int_def trim_js_no_space show_nat_no_space
        radix_prefix_digits show_nat_digits sign_split_digits read_unsigned_show_nat)
qed

lemma string_to_number_num_to_string: "string_to_number (num_to_string n) = n"
  by (cases n) (simp_all add: string_to_number_show_int, code_simp)

lemma hex_prefix_digits:
  "list_all (is_radix_digit 10) u \<Longrightarrow>
   (case u of c0 # c1 # rest \<Rightarrow>
      if c0 = CHR ''0'' \<and> (c1 = CHR ''x'' \<or> c1 = CHR ''X'') then (16, rest) else (10, u)
    | _ \<Rightarrow> (10, u)) = (10::nat, u)"
  by (auto dest: radix_digit_not_prefix_letter split: list.splits)

lemma parse_int_show_int: "parse_int (show_int i) = IntV i"
proof (cases "i < 0")
  case True
  have "dropWhile js_space (CHR ''-'' # show_nat (nat (- i))) = CHR ''-'' # show_nat (nat (- i))"
    by (simp add: js_space_def)
  with True show ?thesis
    by (simp add: parse_int_def show_int_def sign_split_def hex_prefix_digits show_nat_digits
        takeWhile_all read_radix_show_nat)
next
  case False
  then show ?thesis
    by (simp add: parse_int_def show_int_def dropWhile_all_not show_nat_no_space
        sign_split_digits show_nat_digits hex_prefix_digits takeWhile_all read_radix_show_nat)
qed
subsection \<open>Property reads on objects\<close>

text \<open>On an object, \<open>in\<close>, \<open>hasOwnProperty\<close> and a read agree on the last
  binding of the key.\<close>

lemma map_of_rev_eq_None_iff: "map_of (rev kvs) k = None \<longleftrightarrow> k \<notin> set (map fst kvs)"
  by (simp add: map_of_eq_None_iff)

lemma js_in_Obj_map_of: "js_in k (Obj kvs) = Inr (map_of (rev kvs) k \<noteq> None)"
  by (simp add: map_of_rev_eq_None_iff)

lemma has_own_property_Obj_map_of:
  "has_own_property (Obj kvs) k = Inr (map_of (rev kvs) k \<noteq> None)"
  by (simp add: map_of_rev_eq_None_iff)

lemma get_prop_Obj_map_of:
  "map_of (rev kvs) k = Some v \<Longrightarrow> get_prop (Obj kvs) k = Inr v"
  by simp

end
