(* ===== verification/JsDate.thy ===== *)
theory JsDate
  imports JsValue
begin

text \<open>
  The \<open>Date\<close> semantics the order-detail view relies on (ECMA-262, section "Date
  Objects"): the constructor \<open>new Date(year, month, date)\<close> with \<open>MakeDay\<close>,
  \<open>MakeDate\<close> and \<open>TimeClip\<close>, the two-digit-year rule of the constructor (a year in
  0..99 means 1900 + year), and the field getters \<open>YearFromTime\<close>, \<open>MonthFromTime\<close>,
  \<open>DateFromTime\<close> as \<open>date_fields\<close>.  Time values are integer milliseconds since
  the epoch; the local time-zone offset is taken as 0, so local and UTC fields agree.
  The round trip: a calendar date (y, m, d) built by the constructor reads back as
  (y, m, d).
\<close>

text \<open>\<open>TimeClip\<close>: the range of a time value is 8.64e15 ms on each side of the epoch.\<close>

definition max_time :: int where
  "max_time = 8640000000000000"

fun time_clip :: "jsnum \<Rightarrow> jsnum" where
  "time_clip (IntV t) = (if \<bar>t\<bar> \<le> max_time then IntV t else NaN)"
| "time_clip NaN = NaN"

text \<open>\<open>DaysInYear\<close>, \<open>InLeapYear\<close>, \<open>DayFromYear\<close> (the day number of 1 January
  of a year, proleptic Gregorian) and the cumulative month table of \<open>MakeDay\<close>.\<close>

definition ms_per_day :: int where
  "ms_per_day = 86400000"

definition days_in_year :: "int \<Rightarrow> int" where
  "days_in_year y =
     (if y mod 4 \<noteq> 0 then 365 else if y mod 100 \<noteq> 0 then 366
      else if y mod 400 \<noteq> 0 then 365 else 366)"

definition in_leap_year :: "int \<Rightarrow> bool" where
  "in_leap_year y \<longleftrightarrow> days_in_year y = 366"

definition day_from_year :: "int \<Rightarrow> int" where
  "day_from_year y =
     365 * (y - 1970) + (y - 1969) div 4 - (y - 1901) div 100 + (y - 1601) div 400"

definition month_lengths :: "bool \<Rightarrow> int list" where
  "month_lengths leap = [31, if leap then 29 else 28, 31, 30, 31, 30, 31, 31, 30, 31, 30, 31]"

definition days_in_month :: "bool \<Rightarrow> nat \<Rightarrow> int" where
  "days_in_month leap m = month_lengths leap ! m"

definition month_start :: "bool \<Rightarrow> nat \<Rightarrow> int" where
  "month_start leap m = sum_list (take m (month_lengths leap))"

text \<open>\<open>MakeDay(year, month, date)\<close>: the month is normalised into the year (month 12
  is January of the next year, month -1 December of the previous one) and the date is
  added as a day offset, so out-of-range dates roll over.\<close>

fun make_day :: "jsnum \<Rightarrow> jsnum \<Rightarrow> jsnum \<Rightarrow> jsnum" where
  "make_day (IntV y) (IntV m) (IntV dt) =
     (let ym = y + m div 12; mn = nat (m mod 12) in
      IntV (day_from_year ym + month_start (in_leap_year ym) mn + dt - 1))"
| "make_day _ _ _ = NaN"

text \<open>\<open>new Date(year, month, date)\<close> (ECMA-262, \<open>Date\<close> constructor with several
  arguments): \<open>ToNumber\<close> of each argument, a year in 0..99 read as 1900 + year,
  \<open>MakeDay\<close>, \<open>MakeDate\<close> with time 0, local offset 0, \<open>TimeClip\<close>.\<close>

fun year_fixup :: "jsnum \<Rightarrow> jsnum" where
  "year_fixup (IntV y) = IntV (if 0 \<le> y \<and> y \<le> 99 then 1900 + y else y)"
| "year_fixup NaN = NaN"

fun day_to_time :: "jsnum \<Rightarrow> jsnum" where
  "day_to_time (IntV d) = IntV (d * ms_per_day)"
| "day_to_time NaN = NaN"

definition new_date :: "jsval \<Rightarrow> jsval \<Rightarrow> jsval \<Rightarrow> jsnum" where
  "new_date year month date =
     time_clip (day_to_time (make_day (year_fixup (to_number year)) (to_number month) (to_number date)))"

text \<open>The getters \<open>getFullYear\<close>, \<open>getMonth\<close>, \<open>getDate\<close> of a time value t:
  \<open>YearFromTime\<close> is the year whose first day is the last one not after \<open>Day(t)\<close>,
  computed from an estimate corrected by one; \<open>MonthFromTime\<close> counts the months that
  start on or before the day within the year.\<close>

definition year_from_day :: "int \<Rightarrow> int" where
  "year_from_day d =
     (let y0 = 1970 + (400 * d) div 146097 in
      if day_from_year (y0 + 1) \<le> d then y0 + 1
      else if d < day_from_year y0 then y0 - 1 else y0)"

definition month_in_year :: "bool \<Rightarrow> int \<Rightarrow> nat" where
  "month_in_year leap dwy = length (filter (\<lambda>m. month_start leap m \<le> dwy) [1..<12])"

definition date_fields :: "int \<Rightarrow> int \<times> nat \<times> int" where
  "date_fields t =
     (let d = t div ms_per_day; y = year_from_day d; dwy = d - day_from_year y;
          leap = in_leap_year y; m = month_in_year leap dwy
      in (y, m, dwy - month_start leap m + 1))"

text \<open>A time value inside \<open>TimeClip\<close>'s range, or \<open>NaN\<close>.\<close>

fun in_time_range :: "jsnum \<Rightarrow> bool" where
  "in_time_range (IntV t) \<longleftrightarrow> \<bar>t\<bar> \<le> max_time"
| "in_time_range NaN \<longleftrightarrow> True"

text \<open>A time value a double represents exactly: an integer below 2^53 in magnitude, or
  \<open>NaN\<close>.\<close>

fun safe_time :: "jsnum \<Rightarrow> bool" where
  "safe_time (IntV t) \<longleftrightarrow> \<bar>t\<bar> < 2 ^ 53"
| "safe_time NaN \<longleftrightarrow> True"

subsection \<open>Calendar arithmetic\<close>

lemma div_succ_int:
  fixes a n :: int assumes "1 < n"
  shows "(a + 1) div n = a div n + (if (a + 1) mod n = 0 then 1 else 0)"
proof -
  have r: "0 \<le> a mod n" "a mod n < n" using assms by simp_all
  have d: "(a + 1) div n = a div n + (a mod n + 1) div n"
    using div_add1_eq [of a 1 n] assms by simp
  have m: "(a + 1) mod n = (a mod n + 1) mod n" by (simp add: mod_add_left_eq)
  show ?thesis
  proof (cases "a mod n + 1 = n")
    case True
    with d m assms show ?thesis by simp
  next
    case False
    with r have "a mod n + 1 < n" by simp
    with r d m show ?thesis by simp
  qed
qed

lemma mod_shift_multiple:
  fixes y k n :: int
  shows "(y - k * n) mod n = y mod n"
  by (metis mod_mult_self1 diff_conv_add_uminus mult_minus_left)

lemma day_from_year_succ: "day_from_year (y + 1) = day_from_year y + days_in_year y"
proof -
  have s4: "(y - 1968) div 4 = (y - 1969) div 4 + (if y mod 4 = 0 then 1 else 0)"
    using div_succ_int [of 4 "y - 1969"] mod_shift_multiple [of y 492 4] by simp
  have s100: "(y - 1900) div 100 = (y - 1901) div 100 + (if y mod 100 = 0 then 1 else 0)"
    using div_succ_int [of 100 "y - 1901"] mod_shift_multiple [of y 19 100] by simp
  have s400: "(y - 1600) div 400 = (y - 1601) div 400 + (if y mod 400 = 0 then 1 else 0)"
    using div_succ_int [of 400 "y - 1601"] mod_shift_multiple [of y 4 400] by simp
  have "day_from_year (y + 1) =
      365 * (y - 1969) + (y - 1968) div 4 - (y - 1900) div 100 + (y - 1600) div 400"
    by (simp add: day_from_year_def algebra_simps)
  also have "\<dots> = day_from_year y + days_in_year y"
    unfolding s4 s100 s400 day_from_year_def days_in_year_def
    by (cases "y mod 4 = 0"; cases "y mod 100 = 0"; cases "y mod 400 = 0") auto
  finally show ?thesis .
qed

lemma days_in_year_bounds: "365 \<le> days_in_year y \<and> days_in_year y \<le> 366"
  by (simp add: days_in_year_def)

lemma days_in_year_leap: "days_in_year y = (if in_leap_year y then 366 else 365)"
  by (simp add: in_leap_year_def days_in_year_def)


lemma div_bounds_int:
  fixes x n :: int assumes "0 < n"
  shows "n * (x div n) \<le> x \<and> x < n * (x div n) + n"
proof -
  have "x = n * (x div n) + x mod n" by simp
  moreover have "0 \<le> x mod n" "x mod n < n" using assms by simp_all
  ultimately show ?thesis by linarith
qed

text \<open>The year of day \<open>d\<close> is within one of the estimate \<open>1970 + 400 d / 146097\<close>.\<close>

lemma year_estimate:
  assumes "day_from_year y \<le> d" and "d < day_from_year (y + 1)"
  shows "y - 1 \<le> 1970 + (400 * d) div 146097 \<and> 1970 + (400 * d) div 146097 \<le> y + 1"
proof -
  have b4: "4 * ((y - 1969) div 4) \<le> y - 1969 \<and> y - 1969 < 4 * ((y - 1969) div 4) + 4"
    by (rule div_bounds_int) simp
  have b100: "100 * ((y - 1901) div 100) \<le> y - 1901 \<and> y - 1901 < 100 * ((y - 1901) div 100) + 100"
    by (rule div_bounds_int) simp
  have b400: "400 * ((y - 1601) div 400) \<le> y - 1601 \<and> y - 1601 < 400 * ((y - 1601) div 400) + 400"
    by (rule div_bounds_int) simp
  have c4: "4 * ((y + 1 - 1969) div 4) \<le> y + 1 - 1969 \<and> y + 1 - 1969 < 4 * ((y + 1 - 1969) div 4) + 4"
    by (rule div_bounds_int) simp
  have c100: "100 * ((y + 1 - 1901) div 100) \<le> y + 1 - 1901 \<and>
      y + 1 - 1901 < 100 * ((y + 1 - 1901) div 100) + 100"
    by (rule div_bounds_int) simp
  have c400: "400 * ((y + 1 - 1601) div 400) \<le> y + 1 - 1601 \<and>
      y + 1 - 1601 < 400 * ((y + 1 - 1601) div 400) + 400"
    by (rule div_bounds_int) simp
  have e: "146097 * ((400 * d) div 146097) \<le> 400 * d \<and> 400 * d < 146097 * ((400 * d) div 146097) + 146097"
    by (rule div_bounds_int) simp
  from assms(1) have lo: "146097 * (y - 1971) \<le> 400 * d"
    using b4 b100 b400 unfolding day_from_year_def right_diff_distrib distrib_left by linarith
  from assms(2) have hi: "400 * d < 146097 * (y - 1968)"
    using c4 c100 c400 unfolding day_from_year_def right_diff_distrib distrib_left by linarith
  define q where "q = (400 * d) div 146097"
  from e hi have "146097 * q < 146097 * (y - 1968)" unfolding q_def by linarith
  then have "q < y - 1968" by simp
  moreover from e lo have "146097 * (y - 1971) < 146097 * (q + 1)"
    unfolding q_def distrib_left by linarith
  then have "y - 1971 < q + 1" by simp
  ultimately show ?thesis unfolding q_def [symmetric] by linarith
qed

lemma year_from_day_correct:
  assumes "0 \<le> k" and "k < days_in_year y"
  shows "year_from_day (day_from_year y + k) = y"
proof -
  define d where "d = day_from_year y + k"
  define y0 where "y0 = 1970 + (400 * d) div 146097"
  have in_year: "day_from_year y \<le> d" "d < day_from_year (y + 1)"
    using assms by (simp_all add: d_def day_from_year_succ)
  from year_estimate [OF in_year] have near: "y - 1 \<le> y0" "y0 \<le> y + 1"
    by (simp_all add: y0_def)
  have yfd: "year_from_day d =
      (if day_from_year (y0 + 1) \<le> d then y0 + 1 else if d < day_from_year y0 then y0 - 1 else y0)"
    by (simp only: year_from_day_def Let_def y0_def)
  have next_year: "d < day_from_year (y + 1 + 1)"
    using in_year day_from_year_succ [of "y + 1"] days_in_year_bounds [of "y + 1"] by simp
  consider "y0 = y - 1" | "y0 = y" | "y0 = y + 1" using near by linarith
  then have "year_from_day d = y"
  proof cases
    case 1
    then show ?thesis using yfd in_year by simp
  next
    case 2
    then show ?thesis using yfd in_year by simp
  next
    case 3
    then show ?thesis using yfd in_year next_year by simp
  qed
  then show ?thesis by (simp add: d_def)
qed


lemma length_month_lengths [simp]: "length (month_lengths leap) = 12"
  by (simp add: month_lengths_def)

lemma month_lengths_pos: "x \<in> set (month_lengths leap) \<Longrightarrow> 0 < x"
  by (auto simp: month_lengths_def)

lemma month_start_Suc:
  "m < 12 \<Longrightarrow> month_start leap (Suc m) = month_start leap m + days_in_month leap m"
  by (simp add: month_start_def days_in_month_def take_Suc_conv_app_nth)

lemma month_start_mono:
  assumes "i \<le> j" shows "month_start leap i \<le> month_start leap j"
proof -
  have "take j (month_lengths leap) = take i (month_lengths leap) @ take (j - i) (drop i (month_lengths leap))"
    using assms by (metis le_add_diff_inverse take_add)
  moreover have "0 \<le> sum_list (take (j - i) (drop i (month_lengths leap)))"
    by (rule sum_list_nonneg) (meson in_set_dropD in_set_takeD less_imp_le month_lengths_pos)
  ultimately show ?thesis by (simp add: month_start_def)
qed

lemma month_start_12: "month_start leap 12 = (if leap then 366 else 365)"
  by (simp add: month_start_def month_lengths_def)

lemma month_end_le_year:
  "m < 12 \<Longrightarrow> month_start leap m + days_in_month leap m \<le> (if leap then 366 else 365)"
  using month_start_Suc [of m leap] month_start_mono [of "Suc m" 12 leap] month_start_12 [of leap]
  by simp

lemma month_in_year_correct:
  assumes "mn < 12" and "0 \<le> off" and "off < days_in_month leap mn"
  shows "month_in_year leap (month_start leap mn + off) = mn"
proof -
  have "filter (\<lambda>m. month_start leap m \<le> month_start leap mn + off) [1..<12] =
      filter (\<lambda>m. m \<le> mn) [1..<12]"
  proof (rule filter_cong [OF refl])
    fix m assume "m \<in> set [1..<12]"
    then have m12: "m \<le> 12" by simp
    show "(month_start leap m \<le> month_start leap mn + off) = (m \<le> mn)"
    proof
      assume "month_start leap m \<le> month_start leap mn + off"
      show "m \<le> mn"
      proof (rule ccontr)
        assume "\<not> m \<le> mn"
        then have "month_start leap (Suc mn) \<le> month_start leap m"
          by (intro month_start_mono) simp
        with month_start_Suc [OF assms(1)] assms(3)
          \<open>month_start leap m \<le> month_start leap mn + off\<close> show False by simp
      qed
    next
      assume "m \<le> mn"
      then show "month_start leap m \<le> month_start leap mn + off"
        using month_start_mono [of m mn leap] assms(2) by simp
    qed
  qed
  moreover have "length (filter (\<lambda>m. m \<le> mn) [1..<12]) = mn"
  proof -
    have "{m. m \<le> mn} \<inter> set [1..<12] = {1..mn}" using assms(1) by auto
    then show ?thesis by (simp add: distinct_length_filter)
  qed
  ultimately show ?thesis by (simp add: month_in_year_def)
qed


subsection \<open>The constructor and the getters\<close>

lemma date_fields_day:
  assumes "mn < 12" and "1 \<le> dt" and "dt \<le> days_in_month (in_leap_year y) mn"
  shows "date_fields ((day_from_year y + month_start (in_leap_year y) mn + dt - 1) * ms_per_day) =
    (y, mn, dt)"
proof -
  let ?leap = "in_leap_year y"
  let ?k = "month_start ?leap mn + dt - 1"
  have k0: "0 \<le> ?k" using month_start_mono [of 0 mn ?leap] assms(2)
    by (simp add: month_start_def)
  have "?k < days_in_year y"
    using month_end_le_year [OF assms(1), of ?leap] assms(3) days_in_year_leap [of y] by simp
  with k0 have y: "year_from_day (day_from_year y + ?k) = y" by (rule year_from_day_correct)
  have m: "month_in_year ?leap ?k = mn"
    using month_in_year_correct [OF assms(1), of "dt - 1" ?leap] assms(2,3) by (simp add: add_diff_eq)
  have "(day_from_year y + month_start ?leap mn + dt - 1) * ms_per_day div ms_per_day =
      day_from_year y + ?k"
    by (simp add: ms_per_day_def)
  then show ?thesis using y m by (simp add: date_fields_def Let_def)
qed

lemma new_date_ints:
  assumes "0 \<le> m" and "m < 12" and "year_fixup (IntV y) = IntV Y"
  shows "new_date (Number (IntV y)) (Number (IntV m)) (Number (IntV dt)) =
    time_clip (IntV ((day_from_year Y + month_start (in_leap_year Y) (nat m) + dt - 1) * ms_per_day))"
  using assms by (simp add: new_date_def)

text \<open>A missing date argument (\<open>NaN\<close>) makes the whole date \<open>NaN\<close>.\<close>

lemma make_day_NaN_date [simp]: "make_day y m NaN = NaN"
  by (cases y; cases m) simp_all

lemma day_from_year_range:
  assumes "\<bar>y\<bar> \<le> 100000"
  shows "\<bar>day_from_year y\<bar> \<le> 40000000"
proof -
  have b4: "4 * ((y - 1969) div 4) \<le> y - 1969 \<and> y - 1969 < 4 * ((y - 1969) div 4) + 4"
    by (rule div_bounds_int) simp
  have b100: "100 * ((y - 1901) div 100) \<le> y - 1901 \<and> y - 1901 < 100 * ((y - 1901) div 100) + 100"
    by (rule div_bounds_int) simp
  have b400: "400 * ((y - 1601) div 400) \<le> y - 1601 \<and> y - 1601 < 400 * ((y - 1601) div 400) + 400"
    by (rule div_bounds_int) simp
  show ?thesis using assms b4 b100 b400
    unfolding day_from_year_def right_diff_distrib distrib_left abs_le_iff by linarith
qed

text \<open>A calendar date whose year after the two-digit fix-up is Y (within 100000 years of
  year 0) is a valid time value whose fields are (Y, m, d).\<close>

lemma new_date_valid:
  assumes "1 \<le> m" and "m \<le> 12" and "1 \<le> d"
    and "d \<le> days_in_month (in_leap_year Y) (nat (m - 1))"
    and "year_fixup (IntV y) = IntV Y" and "\<bar>Y\<bar> \<le> 100000"
  shows "\<exists>t. new_date (Number (IntV y)) (Number (IntV (m - 1))) (Number (IntV d)) = IntV t \<and>
    date_fields t = (Y, nat (m - 1), d)"
proof -
  let ?leap = "in_leap_year Y"
  let ?mn = "nat (m - 1)"
  let ?k = "month_start ?leap ?mn + d - 1"
  have mn: "?mn < 12" using assms(1,2) by simp
  have k0: "0 \<le> ?k" using month_start_mono [of 0 ?mn ?leap] assms(3)
    by (simp add: month_start_def)
  have "?k < days_in_year Y"
    using month_end_le_year [OF mn, of ?leap] assms(4) days_in_year_leap [of Y] by simp
  then have k1: "?k \<le> 365" using days_in_year_bounds [of Y] by simp
  have "\<bar>day_from_year Y\<bar> \<le> 40000000" using assms(6) by (rule day_from_year_range)
  with k0 k1 have "\<bar>day_from_year Y + ?k\<bar> \<le> 40000366" by linarith
  then have "\<bar>(day_from_year Y + ?k) * ms_per_day\<bar> \<le> max_time"
    by (simp add: abs_mult ms_per_day_def max_time_def)
  then have clip: "\<bar>(day_from_year Y + month_start ?leap ?mn + d - 1) * ms_per_day\<bar> \<le> max_time"
    by (simp only: add_diff_eq add.assoc)
  have "new_date (Number (IntV y)) (Number (IntV (m - 1))) (Number (IntV d)) =
      IntV ((day_from_year Y + month_start ?leap ?mn + d - 1) * ms_per_day)"
    using new_date_ints [of "m - 1" y Y d] assms(1,2,5) clip by simp
  moreover have "date_fields ((day_from_year Y + month_start ?leap ?mn + d - 1) * ms_per_day) =
      (Y, ?mn, d)"
    using date_fields_day [OF mn assms(3,4)] .
  ultimately show ?thesis by blast
qed

text \<open>Every time value a \<open>Date\<close> holds is an integer of at most 8.64e15 in magnitude,
  hence exactly representable as a double (below 2^53): the integer model of time values
  loses nothing.\<close>

lemma time_clip_in_range: "in_time_range (time_clip x)"
  by (cases x) simp_all

lemma new_date_in_range: "in_time_range (new_date year month date)"
  by (simp add: new_date_def time_clip_in_range)

lemma in_time_range_safe: "in_time_range t \<Longrightarrow> safe_time t"
  by (cases t) (simp_all add: max_time_def)

text \<open>Every day lies in a year: the years \<open>q + 1969\<close> and \<open>q + 1972\<close> around the
  estimate \<open>q = 400 d div 146097\<close> enclose day \<open>d\<close>.\<close>

lemma year_of_day_exists: "\<exists>y. day_from_year y \<le> d \<and> d < day_from_year (y + 1)"
proof -
  define q where "q = (400 * d) div 146097"
  have bq: "146097 * q \<le> 400 * d \<and> 400 * d < 146097 * q + 146097"
    unfolding q_def by (rule div_bounds_int) simp
  have lo: "day_from_year (q + 1969) \<le> d"
  proof -
    have a: "4 * (q div 4) \<le> q \<and> q < 4 * (q div 4) + 4" by (rule div_bounds_int) simp
    have b: "100 * ((q + 68) div 100) \<le> q + 68 \<and> q + 68 < 100 * ((q + 68) div 100) + 100"
      by (rule div_bounds_int) simp
    have c: "400 * ((q + 368) div 400) \<le> q + 368 \<and> q + 368 < 400 * ((q + 368) div 400) + 400"
      by (rule div_bounds_int) simp
    show ?thesis using a b c bq by (simp add: day_from_year_def algebra_simps; linarith)
  qed
  have hi: "d < day_from_year (q + 1972)"
  proof -
    have a: "4 * ((q + 3) div 4) \<le> q + 3 \<and> q + 3 < 4 * ((q + 3) div 4) + 4" by (rule div_bounds_int) simp
    have b: "100 * ((q + 71) div 100) \<le> q + 71 \<and> q + 71 < 100 * ((q + 71) div 100) + 100"
      by (rule div_bounds_int) simp
    have c: "400 * ((q + 371) div 400) \<le> q + 371 \<and> q + 371 < 400 * ((q + 371) div 400) + 400"
      by (rule div_bounds_int) simp
    show ?thesis using a b c bq by (simp add: day_from_year_def algebra_simps; linarith)
  qed
  consider "d < day_from_year (q + 1970)" | "day_from_year (q + 1970) \<le> d \<and> d < day_from_year (q + 1971)"
    | "day_from_year (q + 1971) \<le> d" by linarith
  then show ?thesis
  proof cases
    case 1
    with lo show ?thesis by (intro exI [of _ "q + 1969"]) (simp add: add.assoc)
  next
    case 2
    then show ?thesis by (intro exI [of _ "q + 1970"]) (simp add: add.assoc)
  next
    case 3
    with hi show ?thesis by (intro exI [of _ "q + 1971"]) (simp add: add.assoc)
  qed
qed

subsection \<open>Properties of the Date constructor\<close>

text \<open>C30: for an integer year y outside 0..99 and within 100000 years of year 0, a
  1-based month m in 1..12 and a day d that exists in that month, new Date(y, m - 1, d) is
  a valid date whose getFullYear, getMonth and getDate are y, m - 1 and d.\<close>

theorem new_date_roundtrip:
  assumes "1 \<le> m" and "m \<le> 12" and "1 \<le> d"
    and "d \<le> days_in_month (in_leap_year y) (nat (m - 1))"
    and "\<not> (0 \<le> y \<and> y \<le> 99)" and "\<bar>y\<bar> \<le> 100000"
  shows "\<exists>t. new_date (Number (IntV y)) (Number (IntV (m - 1))) (Number (IntV d)) = IntV t \<and>
    date_fields t = (y, nat (m - 1), d)"
  using assms(5) by (intro new_date_valid [OF assms(1-4) _ assms(6)]) simp

theorem new_date_roundtrip_witness:
  "\<exists>t. new_date (Number (IntV 2023)) (Number (IntV (11 - 1))) (Number (IntV 5)) = IntV t \<and>
    date_fields t = (2023, 10, 5)"
proof -
  have "in_leap_year 2023 = False" by (simp add: in_leap_year_def days_in_year_def)
  then have "(5::int) \<le> days_in_month (in_leap_year 2023) (nat (11 - 1))"
    by (simp add: days_in_month_def month_lengths_def)
  from new_date_roundtrip [of 11 5 2023, OF _ _ _ this] show ?thesis by simp
qed

text \<open>C31: a year in 0..99 is not kept: new Date(y, m - 1, d) is the date in year
  1900 + y, so its getFullYear is 1900 + y and not y.\<close>

theorem new_date_two_digit_year:
  assumes "1 \<le> m" and "m \<le> 12" and "1 \<le> d"
    and "d \<le> days_in_month (in_leap_year (1900 + y)) (nat (m - 1))"
    and "0 \<le> y" and "y \<le> 99"
  shows "\<exists>t. new_date (Number (IntV y)) (Number (IntV (m - 1))) (Number (IntV d)) = IntV t \<and>
    date_fields t = (1900 + y, nat (m - 1), d)"
  using assms(5,6) by (intro new_date_valid [OF assms(1-4)]) simp_all

theorem new_date_two_digit_year_witness:
  "\<exists>t. new_date (Number (IntV 23)) (Number (IntV (11 - 1))) (Number (IntV 5)) = IntV t \<and>
    date_fields t = (1923, 10, 5)"
proof -
  have "in_leap_year 1923 = False" by (simp add: in_leap_year_def days_in_year_def)
  then have "(5::int) \<le> days_in_month (in_leap_year (1900 + 23)) (nat (11 - 1))"
    by (simp add: days_in_month_def month_lengths_def)
  from new_date_two_digit_year [of 11 5 23, OF _ _ _ this] show ?thesis by simp
qed

text \<open>C32: a day past the end of its month is not rejected: new Date(y, m, d) with
  d greater than the length L of month m (m in 0..10) is the same date as
  new Date(y, m + 1, d - L), a day of the following month.\<close>

theorem new_date_day_overflow:
  assumes "0 \<le> m" and "m < 11" and "\<not> (0 \<le> y \<and> y \<le> 99)"
  shows "new_date (Number (IntV y)) (Number (IntV m)) (Number (IntV d)) =
    new_date (Number (IntV y)) (Number (IntV (m + 1)))
      (Number (IntV (d - days_in_month (in_leap_year y) (nat m))))"
proof -
  let ?leap = "in_leap_year y"
  let ?len = "days_in_month ?leap (nat m)"
  have fx: "year_fixup (IntV y) = IntV y" using assms(3) by simp
  have a: "new_date (Number (IntV y)) (Number (IntV m)) (Number (IntV d)) =
      time_clip (IntV ((day_from_year y + month_start ?leap (nat m) + d - 1) * ms_per_day))"
    by (rule new_date_ints [OF _ _ fx]) (use assms(1,2) in simp_all)
  have b: "new_date (Number (IntV y)) (Number (IntV (m + 1))) (Number (IntV (d - ?len))) =
      time_clip (IntV ((day_from_year y + month_start ?leap (nat (m + 1)) + (d - ?len) - 1) * ms_per_day))"
    by (rule new_date_ints [OF _ _ fx]) (use assms(1,2) in simp_all)
  have "nat (m + 1) = Suc (nat m)" using assms(1) by simp
  then have "month_start ?leap (nat (m + 1)) = month_start ?leap (nat m) + ?len"
    using assms(2) by (simp add: month_start_Suc)
  then have eq: "day_from_year y + month_start ?leap (nat (m + 1)) + (d - ?len) - 1 =
      day_from_year y + month_start ?leap (nat m) + d - 1"
    by simp
  show ?thesis unfolding a b eq by (rule refl)
qed

theorem new_date_day_overflow_witness:
  "new_date (Number (IntV 2023)) (Number (IntV 1)) (Number (IntV 30)) =
   new_date (Number (IntV 2023)) (Number (IntV 2)) (Number (IntV 2))"
proof -
  have "in_leap_year 2023 = False" by (simp add: in_leap_year_def days_in_year_def)
  then have "days_in_month (in_leap_year 2023) (nat 1) = 28"
    by (simp add: days_in_month_def month_lengths_def)
  with new_date_day_overflow [of 1 2023 30] show ?thesis by simp
qed

text \<open>GetFullYear agrees with the specification's YearFromTime: the year of day d
  is y exactly when year y starts on or before d and year y + 1 after it.\<close>

theorem year_from_day_spec:
  "year_from_day d = y \<longleftrightarrow> day_from_year y \<le> d \<and> d < day_from_year (y + 1)"
proof -
  have year: "year_from_day d = y'" if "day_from_year y' \<le> d" and "d < day_from_year (y' + 1)" for y'
  proof -
    have "d - day_from_year y' < days_in_year y'" using that(2) day_from_year_succ [of y'] by simp
    with that(1) have "year_from_day (day_from_year y' + (d - day_from_year y')) = y'"
      by (intro year_from_day_correct) simp_all
    then show ?thesis by simp
  qed
  obtain y' where y': "day_from_year y' \<le> d" "d < day_from_year (y' + 1)"
    using year_of_day_exists by blast
  show ?thesis
  proof
    assume "year_from_day d = y"
    with year [OF y'] y' show "day_from_year y \<le> d \<and> d < day_from_year (y + 1)" by simp
  next
    assume "day_from_year y \<le> d \<and> d < day_from_year (y + 1)"
    then show "year_from_day d = y" using year by blast
  qed
qed

end
