(* ===== verification/Jwt.thy ===== *)
theory Jwt
  imports JsDate
begin

text \<open>
  The \<open>JwtHelperService\<close> of \<open>@auth0/angular-jwt\<close>, which \<open>TokenService\<close> instantiates
  and calls.  It is a library, not part of the sources: its three operations are modelled
  from its source.  \<open>decodeToken\<close> splits the token at dots, requires
  three parts, base64url-decodes the middle one, refuses an empty result and
  \<open>JSON.parse\<close>s it; nothing is verified against a key.  \<open>getTokenExpirationDate\<close>
  reads the \<open>exp\<close> claim as seconds since the epoch, and \<open>isTokenExpired\<close> compares
  it with the clock.  The two decoders of the payload are the fields of a \<open>jwt_codec\<close>
  record, a parameter of every operation here and in \<open>TokenService\<close>: the lemmas hold
  for every decoder.  The library's own decoder is \<open>angular_jwt\<close> (theory \<open>JwtDecode\<close>).
\<close>

record jwt_codec =
  url_base64_decode :: "string \<Rightarrow> js_error + string"
  json_parse :: "string \<Rightarrow> js_error + jsval"

text \<open>\<open>String.prototype.split(sep)\<close> with a one-character separator.\<close>

fun split_on :: "char \<Rightarrow> string \<Rightarrow> string list" where
  "split_on c [] = [[]]"
| "split_on c (x # xs) =
     (let ws = split_on c xs in if x = c then [] # ws else (x # hd ws) # tl ws)"

definition decode_token :: "jwt_codec \<Rightarrow> string \<Rightarrow> js_error + jsval" where
  "decode_token codec token =
     (if token = [] then Inr Null
      else
        (let parts = split_on (CHR ''.'') token in
         if length parts \<noteq> 3
         then Inl (Error ''The inspected token does not appear to be a JWT.'')
         else
           sum_bind (url_base64_decode codec (parts ! 1)) (\<lambda>decoded.
             if decoded = [] then Inl (Error ''Cannot decode the token.'')
             else json_parse codec decoded)))"

text \<open>
  \<open>new Date(0).setUTCSeconds(exp)\<close>: the time value is \<open>exp * 1000\<close> milliseconds,
  \<open>TimeClip\<close>ped (\<open>JsDate\<close>) to the range of a JavaScript date, \<open>NaN\<close> outside it.
\<close>

fun seconds_to_time :: "jsnum \<Rightarrow> jsnum" where
  "seconds_to_time (IntV s) = time_clip (IntV (s * 1000))"
| "seconds_to_time NaN = NaN"

text \<open>The expiration date: \<open>None\<close> is the library's \<open>null\<close> (no \<open>exp\<close> claim, or a
  falsy payload), \<open>Some t\<close> a date of time value \<open>t\<close>.\<close>

definition get_token_expiration_date :: "jwt_codec \<Rightarrow> string \<Rightarrow> js_error + jsnum option" where
  "get_token_expiration_date codec token =
     sum_bind (decode_token codec token) (\<lambda>decoded.
       if \<not> truthy decoded then Inr None
       else sum_bind (has_own_property decoded ''exp'') (\<lambda>has_exp.
         if \<not> has_exp then Inr None
         else sum_bind (get_prop decoded ''exp'') (\<lambda>exp.
           Inr (Some (seconds_to_time (to_number exp))))))"

text \<open>\<open>isTokenExpired(token)\<close> at clock \<open>now\<close> (milliseconds), with the default offset 0.\<close>

definition jwt_is_token_expired :: "jwt_codec \<Rightarrow> int \<Rightarrow> string \<Rightarrow> js_error + bool" where
  "jwt_is_token_expired codec now token =
     (if token = [] then Inr True
      else sum_bind (get_token_expiration_date codec token) (\<lambda>date.
        case date of
          None \<Rightarrow> Inr False
        | Some t \<Rightarrow> Inr (\<not> num_gt t (IntV (now + 0 * 1000)))))"

subsection \<open>Splitting a token\<close>

text \<open>\<open>split\<close> and \<open>join\<close> with the same separator are inverse; a token is
  three dot-free parts joined by dots exactly when it has two dots.\<close>

lemma split_on_not_Nil [simp]: "split_on c s \<noteq> []"
  by (induction s) (simp_all add: Let_def)

lemma length_split_on: "length (split_on c s) = Suc (count_list s c)"
  by (induction s) (simp_all add: Let_def)

lemma join_with_Cons_Cons:
  "ws \<noteq> [] \<Longrightarrow> join_with sep (w # ws) = w @ sep @ join_with sep ws"
  by (cases ws) simp_all

lemma join_with_Cons_hd:
  "ws \<noteq> [] \<Longrightarrow> join_with sep ((x # hd ws) # tl ws) = x # join_with sep ws"
  by (cases ws; cases "tl ws") simp_all

lemma join_split_on: "join_with [c] (split_on c s) = s"
proof (induction s)
  case Nil
  then show ?case by simp
next
  case (Cons x xs)
  show ?case
  proof (cases "x = c")
    case True
    with Cons show ?thesis by (simp add: Let_def join_with_Cons_Cons)
  next
    case False
    with Cons show ?thesis by (simp add: Let_def join_with_Cons_hd)
  qed
qed

lemma split_on_no_sep: "c \<notin> set w \<Longrightarrow> split_on c w = [w]"
  by (induction w) (auto simp: Let_def)

lemma split_on_append_sep:
  "c \<notin> set w \<Longrightarrow> split_on c (w @ c # s) = w # split_on c s"
  by (induction w) (auto simp: Let_def)

lemma split_on_join:
  assumes "ws \<noteq> []" and "\<forall>w \<in> set ws. c \<notin> set w"
  shows "split_on c (join_with [c] ws) = ws"
  using assms
proof (induction "[c]" ws rule: join_with.induct)
  case (2 x)
  then show ?case by (simp add: split_on_no_sep)
next
  case (3 x y ys)
  then show ?case by (simp add: split_on_append_sep)
qed simp

lemma split_on_three:
  assumes "c \<notin> set h" "c \<notin> set p" "c \<notin> set sg"
  shows "split_on c (h @ c # p @ c # sg) = [h, p, sg]"
  using assms by (simp add: split_on_append_sep split_on_no_sep)

subsection \<open>Decoding and expiry\<close>

lemma decode_token_three_parts:
  assumes "CHR ''.'' \<notin> set h" "CHR ''.'' \<notin> set p" "CHR ''.'' \<notin> set sg"
  shows "decode_token codec (h @ CHR ''.'' # p @ CHR ''.'' # sg) =
    sum_bind (url_base64_decode codec p) (\<lambda>d.
      if d = [] then Inl (Error ''Cannot decode the token.'') else json_parse codec d)"
  using assms by (simp add: decode_token_def split_on_three)

lemma decode_token_not_three_parts:
  "token \<noteq> [] \<Longrightarrow> count_list token (CHR ''.'') \<noteq> 2 \<Longrightarrow>
   decode_token codec token = Inl (Error ''The inspected token does not appear to be a JWT.'')"
  by (simp add: decode_token_def length_split_on)

text \<open>A payload object with an integer \<open>exp\<close> inside the date range is expired exactly
  when \<open>exp\<close> seconds is not after the clock; one without \<open>exp\<close> never expires.\<close>

lemma jwt_is_token_expired_exp:
  assumes "token \<noteq> []" and "decode_token codec token = Inr (Obj kvs)"
    and "map_of (rev kvs) ''exp'' = Some (Number (IntV e))" and "\<bar>e * 1000\<bar> \<le> max_time"
  shows "jwt_is_token_expired codec now token = Inr (e * 1000 \<le> now)"
proof -
  from assms(3) have "''exp'' \<in> set (map fst kvs)"
    by (metis map_of_eq_None_iff option.distinct(1) set_map set_rev)
  with assms show ?thesis
    by (auto simp: jwt_is_token_expired_def get_token_expiration_date_def)
qed

lemma jwt_is_token_expired_no_exp:
  assumes "token \<noteq> []" and "decode_token codec token = Inr (Obj kvs)"
    and "''exp'' \<notin> set (map fst kvs)"
  shows "jwt_is_token_expired codec now token = Inr False"
  using assms by (simp add: jwt_is_token_expired_def get_token_expiration_date_def)

end
