(* ===== verification/TokenService.thy ===== *)
theory TokenService
  imports Jwt
begin

text \<open>
  \<open>TokenService\<close> (\<open>frontend/src/app/services/token.service.ts\<close>): the token store
  (\<open>getToken\<close>, \<open>setToken\<close>, \<open>removeToken\<close> over the \<open>access-token\<close> key of
  \<open>localStorage\<close>) and the session validator (\<open>getUserId\<close>, \<open>isTokenExpired\<close>).
  The service holds a handle to \<open>localStorage\<close> that is undefined when the document has
  no window (\<open>document.defaultView?.localStorage\<close>); every access goes through
  \<open>?.\<close>, so without a window reads give \<open>null\<close> and writes do nothing.  The storage
  itself is shared with the other services and is passed explicitly.
\<close>

definition TOKEN_KEY :: string where
  "TOKEN_KEY = ''access-token''"

record token_service =
  has_local_storage :: bool
  jwt_helper :: jwt_codec

definition get_token :: "token_service \<Rightarrow> storage \<Rightarrow> string option" where
  "get_token ts st = (if has_local_storage ts then st TOKEN_KEY else None)"

definition set_token :: "token_service \<Rightarrow> string \<Rightarrow> storage \<Rightarrow> storage" where
  "set_token ts token st = (if has_local_storage ts then st(TOKEN_KEY \<mapsto> token) else st)"

definition remove_token :: "token_service \<Rightarrow> storage \<Rightarrow> storage" where
  "remove_token ts st = (if has_local_storage ts then st(TOKEN_KEY := None) else st)"

text \<open>
  \<open>getUserId()\<close>: no token (absent or empty) is user 0; otherwise the decoded payload is
  searched with \<open>'userId' in userObject\<close>, which throws on a payload that is not an
  object, and the claim goes through \<open>parseInt\<close>, i.e. through its string.
\<close>

definition get_user_id :: "token_service \<Rightarrow> storage \<Rightarrow> js_error + jsnum" where
  "get_user_id ts st =
     (case get_token ts st of
        None \<Rightarrow> Inr (IntV 0)
      | Some token \<Rightarrow>
          if token = [] then Inr (IntV 0)
          else sum_bind (decode_token (jwt_helper ts) token) (\<lambda>user_object.
                 sum_bind (js_in ''userId'' user_object) (\<lambda>has_user_id.
                   if has_user_id
                   then sum_bind (get_prop user_object ''userId'') (\<lambda>v.
                          Inr (parse_int (js_to_string v)))
                   else Inr (IntV 0))))"

text \<open>\<open>isTokenExpired()\<close> at clock \<open>now\<close>: no token is reported as not expired.\<close>

definition is_token_expired :: "token_service \<Rightarrow> storage \<Rightarrow> int \<Rightarrow> js_error + bool" where
  "is_token_expired ts st now =
     (case get_token ts st of
        None \<Rightarrow> Inr False
      | Some token \<Rightarrow>
          if token = [] then Inr False else jwt_is_token_expired (jwt_helper ts) now token)"

subsection \<open>Token store\<close>

lemma get_token_set_token:
  "has_local_storage ts \<Longrightarrow> get_token ts (set_token ts t st) = Some t"
  by (simp add: get_token_def set_token_def)

lemma get_token_remove_token [simp]: "get_token ts (remove_token ts st) = None"
  by (simp add: get_token_def remove_token_def)

lemma remove_token_idem: "remove_token ts (remove_token ts st) = remove_token ts st"
  by (simp add: remove_token_def)

lemma remove_token_other_key:
  "k \<noteq> TOKEN_KEY \<Longrightarrow> remove_token ts st k = st k"
  by (simp add: remove_token_def)

lemma set_token_other_key:
  "k \<noteq> TOKEN_KEY \<Longrightarrow> set_token ts t st k = st k"
  by (simp add: set_token_def)

lemma get_token_no_storage: "\<not> has_local_storage ts \<Longrightarrow> get_token ts st = None"
  by (simp add: get_token_def)

subsection \<open>Session validator\<close>

text \<open>Without a usable token the validator reports user 0 and "not expired".\<close>

lemma no_token_session:
  assumes "get_token ts st = None \<or> get_token ts st = Some []"
  shows "get_user_id ts st = Inr (IntV 0) \<and> is_token_expired ts st now = Inr False"
  using assms by (auto simp: get_user_id_def is_token_expired_def)

text \<open>Once the stored token is decoded, the two validators continue on the payload.\<close>

lemma get_user_id_decoded:
  assumes "get_token ts st = Some token" and "token \<noteq> []"
    and "decode_token (jwt_helper ts) token = Inr obj"
  shows "get_user_id ts st =
    sum_bind (js_in ''userId'' obj) (\<lambda>has.
      if has then sum_bind (get_prop obj ''userId'') (\<lambda>v. Inr (parse_int (js_to_string v)))
      else Inr (IntV 0))"
  using assms by (simp add: get_user_id_def)

lemma is_token_expired_decoded:
  assumes "get_token ts st = Some token" and "token \<noteq> []"
    and "decode_token (jwt_helper ts) token = Inr obj"
  shows "is_token_expired ts st now =
    (if \<not> truthy obj then Inr False
     else sum_bind (has_own_property obj ''exp'') (\<lambda>has_exp.
       if \<not> has_exp then Inr False
       else sum_bind (get_prop obj ''exp'') (\<lambda>exp.
         Inr (\<not> num_gt (seconds_to_time (to_number exp)) (IntV now)))))"
proof -
  have "is_token_expired ts st now = jwt_is_token_expired (jwt_helper ts) now token"
    using assms(1,2) by (simp add: is_token_expired_def)
  also have "\<dots> = (if \<not> truthy obj then Inr False
     else sum_bind (has_own_property obj ''exp'') (\<lambda>has_exp.
       if \<not> has_exp then Inr False
       else sum_bind (get_prop obj ''exp'') (\<lambda>exp.
         Inr (\<not> num_gt (seconds_to_time (to_number exp)) (IntV now)))))"
    unfolding jwt_is_token_expired_def get_token_expiration_date_def assms(3)
    using assms(2) by (cases "truthy obj"; cases "has_own_property obj ''exp''") auto
  finally show ?thesis .
qed

lemma decode_error_session:
  assumes "get_token ts st = Some token" and "token \<noteq> []"
    and "decode_token (jwt_helper ts) token = Inl e"
  shows "get_user_id ts st = Inl e \<and> is_token_expired ts st now = Inl e"
  using assms
  by (simp add: get_user_id_def is_token_expired_def jwt_is_token_expired_def
      get_token_expiration_date_def)

subsection \<open>Properties of the token service\<close>

text \<open>C34: getUserId of a stored non-empty token whose payload is an object is the
  parseInt of the string of its last userId binding, and 0 when the payload has none.\<close>

theorem get_user_id_claim:
  assumes "get_token ts st = Some token" and "token \<noteq> []"
    and "decode_token (jwt_helper ts) token = Inr (Obj kvs)"
  shows "get_user_id ts st =
    Inr (case map_of (rev kvs) ''userId'' of
           Some v \<Rightarrow> parse_int (js_to_string v)
         | None \<Rightarrow> IntV 0)"
  unfolding get_user_id_decoded [OF assms] js_in_Obj_map_of
  by (cases "map_of (rev kvs) ''userId''") simp_all

theorem get_user_id_claim_witness:
  "get_user_id \<lparr>has_local_storage = True,
      jwt_helper = \<lparr>url_base64_decode = Inr,
                    json_parse = (\<lambda>_. Inr (Obj [(''userId'', Str ''42'')]))\<rparr>\<rparr>
     [TOKEN_KEY \<mapsto> ''h.p.s''] = Inr (IntV 42)"
proof -
  have p: "parse_int ''42'' = IntV 42" by code_simp
  have "get_user_id \<lparr>has_local_storage = True,
      jwt_helper = \<lparr>url_base64_decode = Inr,
                    json_parse = (\<lambda>_. Inr (Obj [(''userId'', Str ''42'')]))\<rparr>\<rparr>
     [TOKEN_KEY \<mapsto> ''h.p.s''] =
    Inr (case map_of (rev [(''userId'', Str ''42'')]) ''userId'' of
           Some v \<Rightarrow> parse_int (js_to_string v) | None \<Rightarrow> IntV 0)"
    by (rule get_user_id_claim [where token = "''h.p.s''"]) (simp_all add: get_token_def decode_token_def)
  with p show ?thesis by simp
qed

text \<open>IsTokenExpired of a stored non-empty token whose payload is an object is
  false without an exp claim, and otherwise true exactly when exp seconds, as a clipped
  time value, is not after the clock (an unreadable exp counts as expired).\<close>

theorem is_token_expired_claim:
  assumes "get_token ts st = Some token" and "token \<noteq> []"
    and "decode_token (jwt_helper ts) token = Inr (Obj kvs)"
  shows "is_token_expired ts st now =
    Inr (case map_of (rev kvs) ''exp'' of
           None \<Rightarrow> False
         | Some exp \<Rightarrow> \<not> num_gt (seconds_to_time (to_number exp)) (IntV now))"
  unfolding is_token_expired_decoded [OF assms] has_own_property_Obj_map_of
  by (cases "map_of (rev kvs) ''exp''") simp_all

theorem is_token_expired_claim_witness:
  "is_token_expired \<lparr>has_local_storage = True,
      jwt_helper = \<lparr>url_base64_decode = Inr,
                    json_parse = (\<lambda>_. Inr (Obj [(''exp'', Number (IntV 100))]))\<rparr>\<rparr>
     [TOKEN_KEY \<mapsto> ''h.p.s''] 99999 = Inr False"
proof -
  have "is_token_expired \<lparr>has_local_storage = True,
      jwt_helper = \<lparr>url_base64_decode = Inr,
                    json_parse = (\<lambda>_. Inr (Obj [(''exp'', Number (IntV 100))]))\<rparr>\<rparr>
     [TOKEN_KEY \<mapsto> ''h.p.s''] 99999 =
    Inr (case map_of (rev [(''exp'', Number (IntV 100))]) ''exp'' of
           None \<Rightarrow> False
         | Some exp \<Rightarrow> \<not> num_gt (seconds_to_time (to_number exp)) (IntV 99999))"
    by (rule is_token_expired_claim [where token = "''h.p.s''"]) (simp_all add: get_token_def decode_token_def)
  then show ?thesis by (simp add: max_time_def)
qed

text \<open>C35: when the payload of a stored non-empty token parses to a primitive (null, a
  boolean, a number or a string), getUserId throws a TypeError from the in operator
  instead of reporting user 0.\<close>

theorem get_user_id_primitive_payload:
  assumes "get_token ts st = Some token" and "token \<noteq> []"
    and "decode_token (jwt_helper ts) token = Inr v"
    and "v = Null \<or> v = Bool b \<or> v = Number n \<or> v = Str s"
  shows "get_user_id ts st =
    Inl (TypeError ''Cannot use in operator to search for a key in a primitive'')"
  using assms(4) unfolding get_user_id_decoded [OF assms(1-3)] by auto

theorem get_user_id_primitive_payload_witness:
  "get_user_id \<lparr>has_local_storage = True,
      jwt_helper = \<lparr>url_base64_decode = Inr, json_parse = (\<lambda>_. Inr (Number (IntV 7)))\<rparr>\<rparr>
     [TOKEN_KEY \<mapsto> ''h.p.s''] =
    Inl (TypeError ''Cannot use in operator to search for a key in a primitive'')"
  by (rule get_user_id_primitive_payload [where v = "Number (IntV 7)" and n = "IntV 7" and token = "''h.p.s''"])
    (simp_all add: get_token_def decode_token_def)

text \<open>C36: with a window, getToken after setToken t returns t, and setToken touches no
  other key of localStorage.\<close>

theorem token_store_roundtrip:
  assumes "has_local_storage ts"
  shows "get_token ts (set_token ts t st) = Some t \<and>
    (\<forall>k. k \<noteq> TOKEN_KEY \<longrightarrow> set_token ts t st k = st k)"
  using assms by (simp add: get_token_def set_token_def)

theorem token_store_roundtrip_witness:
  "get_token \<lparr>has_local_storage = True, jwt_helper = \<lparr>url_base64_decode = Inr, json_parse = (\<lambda>_. Inr Null)\<rparr>\<rparr>
     (set_token \<lparr>has_local_storage = True, jwt_helper = \<lparr>url_base64_decode = Inr, json_parse = (\<lambda>_. Inr Null)\<rparr>\<rparr> ''a.b.c'' Map.empty) = Some ''a.b.c''"
  using token_store_roundtrip [of "\<lparr>has_local_storage = True, jwt_helper = \<lparr>url_base64_decode = Inr, json_parse = (\<lambda>_. Inr Null)\<rparr>\<rparr>"] by simp

text \<open>removeToken is idempotent: removing twice leaves the same storage as removing
  once, and getToken then returns null.\<close>

theorem remove_token_twice:
  "remove_token ts (remove_token ts st) = remove_token ts st \<and>
   get_token ts (remove_token ts (remove_token ts st)) = None"
  by (simp add: remove_token_def get_token_def)

text \<open>C37: without a window, setToken is silently dropped and the validator sees no
  session: user 0, not expired.\<close>

theorem token_service_without_window:
  assumes "\<not> has_local_storage ts"
  shows "set_token ts t st = st \<and> get_user_id ts st = Inr (IntV 0) \<and>
    is_token_expired ts st now = Inr False"
  using assms by (simp add: set_token_def get_user_id_def is_token_expired_def get_token_def)

theorem token_service_without_window_witness:
  "set_token \<lparr>has_local_storage = False, jwt_helper = \<lparr>url_base64_decode = Inr, json_parse = (\<lambda>_. Inr Null)\<rparr>\<rparr> ''a.b.c'' Map.empty = Map.empty \<and>
   get_user_id \<lparr>has_local_storage = False, jwt_helper = \<lparr>url_base64_decode = Inr, json_parse = (\<lambda>_. Inr Null)\<rparr>\<rparr> Map.empty = Inr (IntV 0) \<and>
   is_token_expired \<lparr>has_local_storage = False, jwt_helper = \<lparr>url_base64_decode = Inr, json_parse = (\<lambda>_. Inr Null)\<rparr>\<rparr> Map.empty 0 = Inr False"
  using token_service_without_window [of "\<lparr>has_local_storage = False, jwt_helper = \<lparr>url_base64_decode = Inr, json_parse = (\<lambda>_. Inr Null)\<rparr>\<rparr>"] by simp

end
