(* ===== verification/AuthGuard.thy ===== *)
theory AuthGuard
  imports TokenService
begin

text \<open>
  \<open>AuthGuard.canActivate\<close> and the functional guard \<open>AuthGuardFn\<close> that delegates to it
  (\<open>frontend/src/app/guards/auth.guard.ts\<close>).  The guard asks the token service
  whether the token is expired and for the user id, both before deciding; it allows the
  navigation when the token is not expired and the id is positive, and otherwise asks
  the router to navigate to \<open>/login\<close> and refuses.  An exception raised by either
  query leaves \<open>canActivate\<close> uncaught.
\<close>

definition can_activate :: "token_service \<Rightarrow> storage \<Rightarrow> int \<Rightarrow> router \<Rightarrow> bool outcome \<times> router" where
  "can_activate ts st now r =
     (case is_token_expired ts st now of
        Inl e \<Rightarrow> (Thrown e, r)
      | Inr token_expired \<Rightarrow>
          (case get_user_id ts st of
             Inl e \<Rightarrow> (Thrown e, r)
           | Inr uid \<Rightarrow>
               if \<not> token_expired \<and> num_gt uid (IntV 0) then (Ok True, r)
               else (Ok False, navigate [''/login''] r)))"

text \<open>The verdict once both queries have returned.\<close>

lemma can_activate_returned:
  assumes "is_token_expired ts st now = Inr token_expired" and "get_user_id ts st = Inr uid"
  shows "can_activate ts st now r =
    (if \<not> token_expired \<and> num_gt uid (IntV 0) then (Ok True, r)
     else (Ok False, navigate [''/login''] r))"
  using assms by (simp add: can_activate_def)

lemma num_gt_zero_iff: "num_gt uid (IntV 0) \<longleftrightarrow> (\<exists>n. uid = IntV n \<and> 0 < n)"
  by (cases uid) auto

subsection \<open>Properties of the guard\<close>

text \<open>C1: canActivate returns true, leaving the router untouched, exactly when
  isTokenExpired returns false and getUserId returns a positive integer.\<close>

theorem can_activate_allows_iff:
  "can_activate ts st now r = (Ok True, r') \<longleftrightarrow>
   r' = r \<and> is_token_expired ts st now = Inr False \<and>
   (\<exists>n. get_user_id ts st = Inr (IntV n) \<and> 0 < n)"
  by (auto simp: can_activate_def num_gt_zero_iff split: sum.splits)

text \<open>C3: canActivate refuses and requests a navigation to /login whenever both queries
  return and the token is expired or the user id is not a positive number; in
  particular for (expired = false, uid = 0) and (expired = true, uid = 5).\<close>

theorem can_activate_denies:
  assumes "is_token_expired ts st now = Inr token_expired" and "get_user_id ts st = Inr uid"
    and "token_expired \<or> \<not> num_gt uid (IntV 0)"
  shows "can_activate ts st now r = (Ok False, navigate [''/login''] r)"
  using assms by (auto simp: can_activate_returned)

theorem can_activate_denies_witness:
  "can_activate \<lparr>has_local_storage = True,
      jwt_helper = \<lparr>url_base64_decode = Inr,
                    json_parse = (\<lambda>_. Inr (Obj [(''userId'', Number (IntV 5)), (''exp'', Number (IntV 1))]))\<rparr>\<rparr>
     [TOKEN_KEY \<mapsto> ''h.p.s''] 5000 \<lparr>navigations = []\<rparr> =
   (Ok False, \<lparr>navigations = [[''/login'']]\<rparr>)"
proof -
  let ?ts = "\<lparr>has_local_storage = True,
      jwt_helper = \<lparr>url_base64_decode = Inr,
                    json_parse = (\<lambda>_::string. Inr (Obj [(''userId'', Number (IntV 5)), (''exp'', Number (IntV 1))]))\<rparr>\<rparr>"
  let ?st = "[TOKEN_KEY \<mapsto> ''h.p.s'']"
  have tok: "get_token ?ts ?st = Some ''h.p.s''" by (simp add: get_token_def)
  have ne: "''h.p.s'' \<noteq> []" by simp
  have dec: "decode_token (jwt_helper ?ts) ''h.p.s'' = Inr (Obj [(''userId'', Number (IntV 5)), (''exp'', Number (IntV 1))])"
    by (simp add: decode_token_def)
  have e: "is_token_expired ?ts ?st 5000 = Inr True"
    unfolding is_token_expired_decoded [OF tok ne dec] by (simp add: max_time_def)
  have u: "get_user_id ?ts ?st = Inr (IntV 5)"
    unfolding get_user_id_decoded [OF tok ne dec] by (simp add: parse_int_show_int)
  from can_activate_denies [OF e u, of "\<lparr>navigations = []\<rparr>"]
  show ?thesis by (simp add: navigate_def)
qed

text \<open>C2: canActivate returns true only if localStorage holds a non-empty token that
  decodes to a payload with a userId claim whose parseInt is positive and that the JWT
  helper does not report expired at the current clock.\<close>

theorem can_activate_allowed_session:
  assumes "fst (can_activate ts st now r) = Ok True"
  shows "\<exists>token obj v n. get_token ts st = Some token \<and> token \<noteq> [] \<and>
    decode_token (jwt_helper ts) token = Inr obj \<and> js_in ''userId'' obj = Inr True \<and>
    get_prop obj ''userId'' = Inr v \<and> parse_int (js_to_string v) = IntV n \<and> 0 < n \<and>
    jwt_is_token_expired (jwt_helper ts) now token = Inr False"
proof -
  from assms obtain n where exp: "is_token_expired ts st now = Inr False"
    and uid: "get_user_id ts st = Inr (IntV n)" and pos: "0 < n"
    by (auto simp: can_activate_def num_gt_zero_iff split: sum.splits if_splits)
  obtain token where tok: "get_token ts st = Some token" and ne: "token \<noteq> []"
    using uid pos by (cases "get_token ts st") (auto simp: get_user_id_def split: if_splits)
  obtain obj where dec: "decode_token (jwt_helper ts) token = Inr obj"
    using uid tok ne by (cases "decode_token (jwt_helper ts) token") (auto simp: get_user_id_def)
  have claim: "sum_bind (js_in ''userId'' obj) (\<lambda>has.
      if has then sum_bind (get_prop obj ''userId'') (\<lambda>v. Inr (parse_int (js_to_string v)))
      else Inr (IntV 0)) = Inr (IntV n)"
    using uid unfolding get_user_id_decoded [OF tok ne dec] .
  with pos obtain v where "js_in ''userId'' obj = Inr True" and "get_prop obj ''userId'' = Inr v"
    and "parse_int (js_to_string v) = IntV n"
    by (auto simp: sum_bind_eq_Inr_iff split: if_splits)
  moreover have "jwt_is_token_expired (jwt_helper ts) now token = Inr False"
    using exp tok ne by (simp add: is_token_expired_def)
  ultimately show ?thesis using tok ne dec pos by blast
qed

theorem can_activate_allowed_session_witness:
  "\<exists>token obj v n. get_token \<lparr>has_local_storage = True,
      jwt_helper = \<lparr>url_base64_decode = Inr, json_parse = (\<lambda>_. Inr (Obj [(''userId'', Number (IntV 5))]))\<rparr>\<rparr>
     [TOKEN_KEY \<mapsto> ''h.p.s''] = Some token \<and> token \<noteq> [] \<and>
    decode_token \<lparr>url_base64_decode = Inr, json_parse = (\<lambda>_. Inr (Obj [(''userId'', Number (IntV 5))]))\<rparr> token = Inr obj \<and>
    js_in ''userId'' obj = Inr True \<and>
    get_prop obj ''userId'' = Inr v \<and> parse_int (js_to_string v) = IntV n \<and> 0 < n \<and>
    jwt_is_token_expired \<lparr>url_base64_decode = Inr, json_parse = (\<lambda>_. Inr (Obj [(''userId'', Number (IntV 5))]))\<rparr> 0 token = Inr False"
proof -
  let ?c = "\<lparr>url_base64_decode = Inr, json_parse = (\<lambda>_::string. Inr (Obj [(''userId'', Number (IntV 5))]))\<rparr>"
  let ?ts = "\<lparr>has_local_storage = True, jwt_helper = ?c\<rparr>"
  let ?st = "[TOKEN_KEY \<mapsto> ''h.p.s'']"
  have tok: "get_token ?ts ?st = Some ''h.p.s''" by (simp add: get_token_def)
  have ne: "''h.p.s'' \<noteq> []" by simp
  have dec: "decode_token (jwt_helper ?ts) ''h.p.s'' = Inr (Obj [(''userId'', Number (IntV 5))])"
    by (simp add: decode_token_def)
  have e: "is_token_expired ?ts ?st 0 = Inr False"
    unfolding is_token_expired_decoded [OF tok ne dec] by simp
  have u: "get_user_id ?ts ?st = Inr (IntV 5)"
    unfolding get_user_id_decoded [OF tok ne dec] by (simp add: parse_int_show_int)
  have "fst (can_activate ?ts ?st 0 \<lparr>navigations = []\<rparr>) = Ok True"
    using e u by (simp add: can_activate_def)
  from can_activate_allowed_session [OF this] show ?thesis by simp
qed

text \<open>C4: with no token, or an empty one, canActivate refuses and requests a navigation
  to /login.\<close>

theorem can_activate_no_token:
  assumes "get_token ts st = None \<or> get_token ts st = Some []"
  shows "can_activate ts st now r = (Ok False, navigate [''/login''] r)"
proof -
  from assms have "get_user_id ts st = Inr (IntV 0) \<and> is_token_expired ts st now = Inr False"
    by (rule no_token_session)
  then show ?thesis by (simp add: can_activate_def)
qed

theorem can_activate_no_token_witness:
  "can_activate \<lparr>has_local_storage = True, jwt_helper = \<lparr>url_base64_decode = Inr, json_parse = (\<lambda>_. Inr Null)\<rparr>\<rparr>
     Map.empty 0 \<lparr>navigations = []\<rparr> = (Ok False, \<lparr>navigations = [[''/login'']]\<rparr>)"
  using can_activate_no_token [of "\<lparr>has_local_storage = True, jwt_helper = \<lparr>url_base64_decode = Inr, json_parse = (\<lambda>_. Inr Null)\<rparr>\<rparr>" Map.empty 0 "\<lparr>navigations = []\<rparr>"]
  by (simp add: get_token_def navigate_def)

text \<open>C5: when the stored non-empty token cannot be decoded (not three dot-separated
  parts, bad base64url, empty payload or bad JSON), canActivate throws the decoder's error
  and requests no navigation: the user is not redirected to /login.\<close>

theorem can_activate_decode_error:
  assumes "get_token ts st = Some token" and "token \<noteq> []"
    and "decode_token (jwt_helper ts) token = Inl e"
  shows "can_activate ts st now r = (Thrown e, r)"
  using decode_error_session [OF assms, of now] by (simp add: can_activate_def)

theorem can_activate_decode_error_witness:
  "can_activate \<lparr>has_local_storage = True, jwt_helper = \<lparr>url_base64_decode = Inr, json_parse = (\<lambda>_. Inr Null)\<rparr>\<rparr>
     [TOKEN_KEY \<mapsto> ''garbage''] 0 \<lparr>navigations = []\<rparr> =
   (Thrown (Error ''The inspected token does not appear to be a JWT.''), \<lparr>navigations = []\<rparr>)"
  by (rule can_activate_decode_error [where token = "''garbage''"])
    (simp_all add: get_token_def decode_token_def)

end
