(* ===== verification/OrderService.thy ===== *)
theory OrderService
  imports JsValue
begin

text \<open>
  \<open>OrderService\<close> (\<open>src/app/services/order.service.ts\<close>): the latest-order reference
  and the order endpoints.  The service keeps \<open>latestOrderId\<close> in memory; the
  constructor restores it from the \<open>latestOrderId\<close> key of \<open>localStorage\<close> with
  \<open>saved ? +saved : null\<close>, and the response handler of \<open>placeOrder\<close> (its \<open>tap\<close>)
  stores the new order's id in memory and, as \<open>res.id.toString()\<close>, in storage.  The
  field is typed \<open>number | null\<close> but holds whatever the code assigns, so it is a
  \<open>jsval\<close>.  The other methods only build HTTP requests; a request is described by its
  method, URL, query parameters, body and whether the response is read as text.
\<close>

definition LATEST_ORDER_KEY :: string where
  "LATEST_ORDER_KEY = ''latestOrderId''"

record order_service =
  api_base_url :: string
  latest_order_id :: jsval

definition order_service_init :: "string \<Rightarrow> storage \<Rightarrow> order_service" where
  "order_service_init base st =
     \<lparr>api_base_url = base,
      latest_order_id =
        (case st LATEST_ORDER_KEY of
           Some saved \<Rightarrow> if truthy (Str saved) then Number (string_to_number saved) else Null
         | None \<Rightarrow> Null)\<rparr>"

definition api_url :: "order_service \<Rightarrow> string" where
  "api_url svc = api_base_url svc @ ''/orders''"

definition api_get_all_orders :: "order_service \<Rightarrow> string" where
  "api_get_all_orders svc = api_base_url svc @ ''/orders/get-orders-by-keyword''"

text \<open>The \<open>tap\<close> of \<open>placeOrder\<close>, run when the POST response \<open>res\<close> arrives.  The
  in-memory assignment happens before \<open>toString()\<close> is called, so a response whose id
  is \<open>undefined\<close> or \<open>null\<close> leaves memory updated and storage not.\<close>

definition place_order_next ::
  "jsval \<Rightarrow> order_service \<times> storage \<Rightarrow> unit outcome \<times> order_service \<times> storage" where
  "place_order_next res s =
     (case s of (svc, st) \<Rightarrow>
       (case get_prop res ''id'' of
          Inl e \<Rightarrow> (Thrown e, svc, st)
        | Inr rid \<Rightarrow>
            (let svc' = svc\<lparr>latest_order_id := rid\<rparr> in
             case call_to_string rid of
               Inl e \<Rightarrow> (Thrown e, svc', st)
             | Inr saved \<Rightarrow> (Ok (), svc', st(LATEST_ORDER_KEY \<mapsto> saved)))))"

subsection \<open>Requests\<close>

datatype http_method = GET | POST | PUT | DELETE

record http_request =
  req_method :: http_method
  req_url :: string
  req_params :: "(string \<times> string) list"
  req_body :: "jsval option"
  req_text_response :: bool

definition place_order_request :: "order_service \<Rightarrow> jsval \<Rightarrow> http_request" where
  "place_order_request svc order_data =
     \<lparr>req_method = POST, req_url = api_url svc, req_params = [],
      req_body = Some order_data, req_text_response = False\<rparr>"

definition order_url :: "order_service \<Rightarrow> jsnum \<Rightarrow> string" where
  "order_url svc order_id = api_base_url svc @ ''/orders/'' @ num_to_string order_id"

definition get_order_by_id_request :: "order_service \<Rightarrow> jsnum \<Rightarrow> http_request" where
  "get_order_by_id_request svc order_id =
     \<lparr>req_method = GET, req_url = order_url svc order_id, req_params = [],
      req_body = None, req_text_response = False\<rparr>"

definition get_all_orders_request ::
  "order_service \<Rightarrow> string \<Rightarrow> jsnum \<Rightarrow> jsnum \<Rightarrow> http_request" where
  "get_all_orders_request svc keyword page limit =
     \<lparr>req_method = GET, req_url = api_get_all_orders svc,
      req_params = [(''keyword'', keyword), (''page'', num_to_string page),
                    (''limit'', num_to_string limit)],
      req_body = None, req_text_response = False\<rparr>"

definition update_order_request :: "order_service \<Rightarrow> jsnum \<Rightarrow> jsval \<Rightarrow> http_request" where
  "update_order_request svc order_id order_data =
     \<lparr>req_method = PUT, req_url = order_url svc order_id, req_params = [],
      req_body = Some order_data, req_text_response = False\<rparr>"

definition delete_order_request :: "order_service \<Rightarrow> jsnum \<Rightarrow> http_request" where
  "delete_order_request svc order_id =
     \<lparr>req_method = DELETE, req_url = order_url svc order_id, req_params = [],
      req_body = None, req_text_response = True\<rparr>"

definition get_latest_order_request :: "order_service \<Rightarrow> http_request" where
  "get_latest_order_request svc =
     \<lparr>req_method = GET, req_url = api_url svc @ ''/latest'', req_params = [],
      req_body = None, req_text_response = False\<rparr>"

subsection \<open>Restoring and recording the latest order\<close>

lemma order_service_init_saved:
  "st LATEST_ORDER_KEY = Some saved \<Longrightarrow> saved \<noteq> [] \<Longrightarrow>
   latest_order_id (order_service_init base st) = Number (string_to_number saved)"
  by (simp add: order_service_init_def)

lemma place_order_next_id:
  assumes "get_prop res ''id'' = Inr rid" and "call_to_string rid = Inr saved"
  shows "place_order_next res (svc, st) =
    (Ok (), svc\<lparr>latest_order_id := rid\<rparr>, st(LATEST_ORDER_KEY \<mapsto> saved))"
  using assms by (simp add: place_order_next_def)

text \<open>The handler writes the latestOrderId key or nothing.\<close>

lemma place_order_next_storage:
  "snd (snd (place_order_next res (svc, st))) = st \<or>
   (\<exists>v. snd (snd (place_order_next res (svc, st))) = st(LATEST_ORDER_KEY \<mapsto> v))"
  by (auto simp: place_order_next_def Let_def split: sum.splits)

lemma num_to_string_not_Nil [simp]: "num_to_string n \<noteq> []"
  by (cases n) (simp_all add: show_int_def)

subsection \<open>Properties of the order service\<close>

text \<open>C10: when the placement response carries a numeric id n, the tap handler
  completes, sets latestOrderId to n and persists toString(n) under latestOrderId; a
  service constructed afterwards on that storage restores n.\<close>

theorem place_order_restart_roundtrip:
  assumes "get_prop res ''id'' = Inr (Number n)"
  shows "place_order_next res (svc, st) =
      (Ok (), svc\<lparr>latest_order_id := Number n\<rparr>, st(LATEST_ORDER_KEY \<mapsto> num_to_string n)) \<and>
    latest_order_id (order_service_init base (st(LATEST_ORDER_KEY \<mapsto> num_to_string n))) =
      Number n"
proof
  show "place_order_next res (svc, st) =
      (Ok (), svc\<lparr>latest_order_id := Number n\<rparr>, st(LATEST_ORDER_KEY \<mapsto> num_to_string n))"
    by (rule place_order_next_id [OF assms]) simp
  have "string_to_number (num_to_string n) = n"
    by (rule string_to_number_num_to_string)
  then show "latest_order_id (order_service_init base (st(LATEST_ORDER_KEY \<mapsto> num_to_string n))) =
      Number n"
    by (simp add: order_service_init_saved)
qed

theorem place_order_restart_roundtrip_witness:
  "place_order_next (Obj [(''id'', Number (IntV 42))]) (order_service_init ''http://api'' Map.empty, Map.empty) =
      (Ok (), \<lparr>api_base_url = ''http://api'', latest_order_id = Number (IntV 42)\<rparr>,
       [LATEST_ORDER_KEY \<mapsto> ''42'']) \<and>
   latest_order_id (order_service_init ''http://api'' [LATEST_ORDER_KEY \<mapsto> ''42'']) = Number (IntV 42)"
proof -
  have s: "show_int 42 = ''42''" by code_simp
  have i: "order_service_init ''http://api'' Map.empty = \<lparr>api_base_url = ''http://api'', latest_order_id = Null\<rparr>"
    by (simp add: order_service_init_def)
  from place_order_restart_roundtrip [of "Obj [(''id'', Number (IntV 42))]" "IntV 42"
      "order_service_init ''http://api'' Map.empty" Map.empty "''http://api''"]
  show ?thesis by (simp add: s i)
qed

text \<open>C33: when the placement response has no id (or a null one), the tap handler throws
  a TypeError after it has already overwritten the in-memory latestOrderId with that
  value, and storage keeps the previous id: memory and storage disagree.\<close>

theorem place_order_missing_id:
  assumes "get_prop res ''id'' = Inr v" and "v = Undefined \<or> v = Null"
  shows "\<exists>msg. place_order_next res (svc, st) =
    (Thrown (TypeError msg), svc\<lparr>latest_order_id := v\<rparr>, st)"
  using assms by (auto simp: place_order_next_def)

theorem place_order_missing_id_witness:
  "\<exists>msg. place_order_next (Obj [(''total_money'', Number (IntV 10))])
      (\<lparr>api_base_url = ''http://api'', latest_order_id = Number (IntV 7)\<rparr>,
       [LATEST_ORDER_KEY \<mapsto> ''7'']) =
    (Thrown (TypeError msg), \<lparr>api_base_url = ''http://api'', latest_order_id = Undefined\<rparr>,
     [LATEST_ORDER_KEY \<mapsto> ''7''])"
  using place_order_missing_id [of "Obj [(''total_money'', Number (IntV 10))]" Undefined
      "\<lparr>api_base_url = ''http://api'', latest_order_id = Number (IntV 7)\<rparr>"
      "[LATEST_ORDER_KEY \<mapsto> ''7'']"]
  by simp

text \<open>The placement handler writes no storage key other than latestOrderId, whatever
  the response; in particular it never touches the access token.\<close>

theorem place_order_next_frame:
  "k \<noteq> LATEST_ORDER_KEY \<Longrightarrow> snd (snd (place_order_next res (svc, st))) k = st k"
  by (auto simp: place_order_next_def Let_def split: sum.splits)

theorem place_order_next_frame_witness:
  "snd (snd (place_order_next (Obj [(''id'', Number (IntV 5))])
      (\<lparr>api_base_url = [], latest_order_id = Null\<rparr>, [''access-token'' \<mapsto> ''t'']))) ''access-token'' =
   Some ''t''"
proof -
  have "''access-token'' \<noteq> LATEST_ORDER_KEY" by (simp add: LATEST_ORDER_KEY_def)
  from place_order_next_frame [OF this] show ?thesis by simp
qed

end
