(* ===== verification/Header.thy ===== *)
theory Header
  imports TokenService OrderService
begin

text \<open>
  \<open>HeaderComponent\<close> (\<open>src/app/components/header/header.component.ts\<close>): the user
  menu.  Its state is the user read from storage, whether the menu popover is open and
  the active navigation item.  \<open>handleItemClick(index)\<close> opens the profile (0), goes to
  the latest order recorded by the shared \<open>OrderService\<close> (1) or logs out (2), and
  closes the popover in every case.  "My latest order" navigates only when the recorded
  id is truthy and otherwise writes an error to the console.  Logout removes the stored
  user (through \<open>UserService\<close>, which is not among the sources: its storage key
  \<open>user\<close> is taken from the application) and the token, and re-reads the user.  The
  login flow's save of the user is \<open>save_user_response_to_local_storage\<close>.
  The browser part of the state the header acts on is the storage, the router and the
  console.
\<close>

definition USER_KEY :: string where
  "USER_KEY = ''user''"

definition get_user_response_from_local_storage :: "storage \<Rightarrow> string option" where
  "get_user_response_from_local_storage st = st USER_KEY"

definition remove_user_from_local_storage :: "storage \<Rightarrow> storage" where
  "remove_user_from_local_storage st = st(USER_KEY := None)"

text \<open>\<open>saveUserResponseToLocalStorage\<close>, which the login flow calls with the user it
  fetched after storing the token: the JSON text of the user under \<open>user\<close>.\<close>

definition save_user_response_to_local_storage :: "string \<Rightarrow> storage \<Rightarrow> storage" where
  "save_user_response_to_local_storage user_json st = st(USER_KEY \<mapsto> user_json)"

record header =
  user_response :: "string option"
  is_popover_open :: bool
  active_nav_item :: int

record browser =
  local_storage :: storage
  router_state :: router
  console_errors :: "string list"

definition header_init :: header where
  "header_init = \<lparr>user_response = None, is_popover_open = False, active_nav_item = 0\<rparr>"

definition ng_on_init :: "storage \<Rightarrow> header \<Rightarrow> header" where
  "ng_on_init st h = h\<lparr>user_response := get_user_response_from_local_storage st\<rparr>"

definition toggle_popover :: "header \<Rightarrow> header" where
  "toggle_popover h = h\<lparr>is_popover_open := \<not> is_popover_open h\<rparr>"

definition set_active_nav_item :: "int \<Rightarrow> header \<Rightarrow> header" where
  "set_active_nav_item index h = h\<lparr>active_nav_item := index\<rparr>"

text \<open>The console message of the source, transliterated to ASCII.\<close>

definition NO_ORDER_MESSAGE :: string where
  "NO_ORDER_MESSAGE = ''Khong co don hang nao duoc luu.''"

definition handle_item_click ::
  "token_service \<Rightarrow> order_service \<Rightarrow> int \<Rightarrow> header \<times> browser \<Rightarrow> header \<times> browser" where
  "handle_item_click ts svc index s =
     (case s of (h, b) \<Rightarrow>
       (case
          (if index = 0 then (h, b\<lparr>router_state := navigate [''/user-profile''] (router_state b)\<rparr>)
           else if index = 1 then
             (let order_id = latest_order_id svc in
              if truthy order_id
              then (h, b\<lparr>router_state :=
                          navigate [''/orders'', js_to_string order_id] (router_state b)\<rparr>)
              else (h, b\<lparr>console_errors := console_errors b @ [NO_ORDER_MESSAGE]\<rparr>))
           else if index = 2 then
             (let st = remove_token ts (remove_user_from_local_storage (local_storage b)) in
              (h\<lparr>user_response := get_user_response_from_local_storage st\<rparr>,
               b\<lparr>local_storage := st\<rparr>))
           else (h, b))
        of (h', b') \<Rightarrow> (h'\<lparr>is_popover_open := False\<rparr>, b')))"

lemma handle_item_click_popover_closed:
  "is_popover_open (fst (handle_item_click ts svc index s)) = False"
  by (simp add: handle_item_click_def Let_def split: prod.splits)

lemma handle_item_click_storage:
  "index \<noteq> 2 \<Longrightarrow> local_storage (snd (handle_item_click ts svc index (h, b))) = local_storage b"
  by (simp add: handle_item_click_def Let_def)

lemma handle_item_click_logout_storage:
  "local_storage (snd (handle_item_click ts svc 2 (h, b))) =
   remove_token ts (remove_user_from_local_storage (local_storage b))"
  by (simp add: handle_item_click_def Let_def)

subsection \<open>Properties of the header\<close>

text \<open>C12: "my latest order" (item 1) with a falsy recorded id (null, undefined, 0, NaN,
  the empty string, false) requests no navigation and appends the error message to the
  console; storage is untouched.\<close>

theorem my_order_without_order:
  assumes "\<not> truthy (latest_order_id svc)"
  shows "router_state (snd (handle_item_click ts svc 1 (h, b))) = router_state b \<and>
    console_errors (snd (handle_item_click ts svc 1 (h, b))) = console_errors b @ [NO_ORDER_MESSAGE] \<and>
    local_storage (snd (handle_item_click ts svc 1 (h, b))) = local_storage b"
  using assms by (simp add: handle_item_click_def)

theorem my_order_without_order_witness:
  "router_state (snd (handle_item_click \<lparr>has_local_storage = True, jwt_helper = \<lparr>url_base64_decode = Inr, json_parse = (\<lambda>_. Inr Null)\<rparr>\<rparr>
      \<lparr>api_base_url = [], latest_order_id = Number (IntV 0)\<rparr> 1
      (header_init, \<lparr>local_storage = Map.empty, router_state = \<lparr>navigations = []\<rparr>, console_errors = []\<rparr>)))
     = \<lparr>navigations = []\<rparr> \<and>
   console_errors (snd (handle_item_click \<lparr>has_local_storage = True, jwt_helper = \<lparr>url_base64_decode = Inr, json_parse = (\<lambda>_. Inr Null)\<rparr>\<rparr>
      \<lparr>api_base_url = [], latest_order_id = Number (IntV 0)\<rparr> 1
      (header_init, \<lparr>local_storage = Map.empty, router_state = \<lparr>navigations = []\<rparr>, console_errors = []\<rparr>)))
     = [NO_ORDER_MESSAGE] \<and>
   local_storage (snd (handle_item_click \<lparr>has_local_storage = True, jwt_helper = \<lparr>url_base64_decode = Inr, json_parse = (\<lambda>_. Inr Null)\<rparr>\<rparr>
      \<lparr>api_base_url = [], latest_order_id = Number (IntV 0)\<rparr> 1
      (header_init, \<lparr>local_storage = Map.empty, router_state = \<lparr>navigations = []\<rparr>, console_errors = []\<rparr>)))
     = Map.empty"
  using my_order_without_order [of "\<lparr>api_base_url = [], latest_order_id = Number (IntV 0)\<rparr>"
      "\<lparr>has_local_storage = True, jwt_helper = \<lparr>url_base64_decode = Inr, json_parse = (\<lambda>_. Inr Null)\<rparr>\<rparr>"
      header_init "\<lparr>local_storage = Map.empty, router_state = \<lparr>navigations = []\<rparr>, console_errors = []\<rparr>"]
  by simp

text \<open>C11: "my latest order" with a recorded non-zero integer id n requests exactly one
  navigation, to the commands ['/orders', n written in decimal].\<close>

theorem my_order_navigates:
  assumes "latest_order_id svc = Number (IntV n)" and "n \<noteq> 0"
  shows "navigations (router_state (snd (handle_item_click ts svc 1 (h, b)))) =
    navigations (router_state b) @ [[''/orders'', show_int n]]"
  using assms by (simp add: handle_item_click_def navigate_def)

theorem my_order_navigates_witness:
  "navigations (router_state (snd (handle_item_click
      \<lparr>has_local_storage = True, jwt_helper = \<lparr>url_base64_decode = Inr, json_parse = (\<lambda>_. Inr Null)\<rparr>\<rparr>
      \<lparr>api_base_url = [], latest_order_id = Number (IntV 42)\<rparr> 1
      (header_init, \<lparr>local_storage = Map.empty, router_state = \<lparr>navigations = []\<rparr>, console_errors = []\<rparr>))))
   = [[''/orders'', ''42'']]"
proof -
  have s: "show_int 42 = ''42''" by code_simp
  show ?thesis
    using my_order_navigates [of "\<lparr>api_base_url = [], latest_order_id = Number (IntV 42)\<rparr>" 42
        "\<lparr>has_local_storage = True, jwt_helper = \<lparr>url_base64_decode = Inr, json_parse = (\<lambda>_. Inr Null)\<rparr>\<rparr>"
        header_init "\<lparr>local_storage = Map.empty, router_state = \<lparr>navigations = []\<rparr>, console_errors = []\<rparr>"]
    by (simp add: s)
qed

text \<open>C13: logout (item 2) removes the token and the stored user, so the header shows
  no user and getToken returns null, but the latestOrderId key is left as it was.\<close>

theorem logout_keeps_latest_order:
  "get_token ts (local_storage (snd (handle_item_click ts svc 2 (h, b)))) = None \<and>
   user_response (fst (handle_item_click ts svc 2 (h, b))) = None \<and>
   local_storage (snd (handle_item_click ts svc 2 (h, b))) LATEST_ORDER_KEY =
     local_storage b LATEST_ORDER_KEY"
proof -
  have keys: "USER_KEY \<noteq> TOKEN_KEY" "LATEST_ORDER_KEY \<noteq> TOKEN_KEY" "LATEST_ORDER_KEY \<noteq> USER_KEY"
    by (simp_all add: USER_KEY_def TOKEN_KEY_def LATEST_ORDER_KEY_def)
  then show ?thesis
    by (simp add: handle_item_click_def get_user_response_from_local_storage_def
        remove_user_from_local_storage_def remove_token_other_key)
qed

end
