(* ===== verification/OrderDetail.thy ===== *)
theory OrderDetail
  imports OrderService JsDate
begin

text \<open>
  \<open>OrderDetailComponent\<close>
  (\<open>frontend/src/app/components/detail-order/order.detail.component.ts\<close>): the view of one
  order.  \<open>ngOnInit\<close> calls \<open>getOrderDetails\<close>, which reads the route parameter \<open>id\<close>
  with \<open>Number(...)\<close> and subscribes to \<open>OrderService.getOrderById\<close>.  The \<open>next\<close>
  callback first records the response's id as the shared service's \<open>latestOrderId\<close>,
  then copies the contact fields into \<open>orderResponse\<close>, rebuilds \<open>order_date\<close> and
  \<open>shipping_date\<close> from \<open>[year, month, day]\<close> arrays with \<open>new Date(y, m - 1, d)\<close>,
  and prefixes every line item's product thumbnail with the image base URL.  The callback
  is a sequence of assignments, modelled as the statement list of \<open>run_stmts\<close>: an
  exception (a missing date array, a line item without product) ends it and leaves the
  assignments made so far.  RxJS does not pass an exception of a \<open>next\<close> callback to the
  \<open>error\<close> callback, so it is not logged by the component.  The \<open>error\<close> callback logs
  the failure of the request.

  The view's state is \<open>orderResponse\<close>, a record of the source's fields, whose dates are
  time values (\<open>Date\<close> objects are modelled by their time value, \<open>JsDate\<close>).  The
  \<open>id\<close> field is \<open>response_id\<close> (\<open>id\<close> is the identity function of HOL) and \<open>note\<close> is \<open>note_\<close>
  (\<open>note\<close> is a keyword).  The
  callback mutates the response's line items in place; they are not shared with any
  other part of the state, so the model builds the updated items as new values.
\<close>

record order_response =
  response_id :: jsval
  user_id :: jsval
  fullname :: jsval
  phone_number :: jsval
  email :: jsval
  address :: jsval
  note_ :: jsval
  order_date :: jsnum
  status :: jsval
  total_money :: jsval
  shipping_method :: jsval
  shipping_address :: jsval
  shipping_date :: jsnum
  payment_method :: jsval
  order_details :: jsval

text \<open>The field initialiser; \<open>new Date()\<close> is the clock \<open>now\<close>, clipped.\<close>

definition order_response_init :: "int \<Rightarrow> order_response" where
  "order_response_init now =
     \<lparr>response_id = Number (IntV 0), user_id = Number (IntV 0), fullname = Str [],
      phone_number = Str [], email = Str [], address = Str [], note_ = Str [],
      order_date = time_clip (IntV now), status = Str [], total_money = Number (IntV 0),
      shipping_method = Str [], shipping_address = Str [], shipping_date = time_clip (IntV now),
      payment_method = Str [], order_details = Arr []\<rparr>"

text \<open>\<open>Number(this.route.snapshot.paramMap.get('id'))\<close>: a missing parameter is
  \<open>null\<close>, whose number is 0.\<close>

definition route_order_id :: "(string \<rightharpoonup> string) \<Rightarrow> jsnum" where
  "route_order_id params =
     to_number (case params ''id'' of None \<Rightarrow> Null | Some s \<Rightarrow> Str s)"

definition get_order_details :: "order_service \<Rightarrow> (string \<rightharpoonup> string) \<Rightarrow> http_request" where
  "get_order_details svc params = get_order_by_id_request svc (route_order_id params)"

text \<open>Opening the view: the router constructs the component with the shared
  \<open>OrderService\<close> (the field initialiser runs at clock \<open>now\<close>), and \<open>ngOnInit\<close> calls
  \<open>getOrderDetails\<close>, which issues the request.\<close>

definition order_detail_open ::
  "order_service \<Rightarrow> (string \<rightharpoonup> string) \<Rightarrow> int \<Rightarrow> order_response \<times> http_request" where
  "order_detail_open svc params now = (order_response_init now, get_order_details svc params)"

text \<open>\<open>obj.k = v\<close> in strict mode (the component is an ES module): an object gets the
  property (replaced where it exists, added last otherwise); an array keeps its elements
  (a named property of an array is not represented); a primitive or \<open>undefined\<close> and
  \<open>null\<close> throw.\<close>

fun set_prop :: "jsval \<Rightarrow> string \<Rightarrow> jsval \<Rightarrow> js_error + jsval" where
  "set_prop (Obj kvs) k v =
     Inr (Obj (if k \<in> set (map fst kvs)
               then map (\<lambda>(k', v'). if k' = k then (k', v) else (k', v')) kvs
               else kvs @ [(k, v)]))"
| "set_prop (Arr xs) k v = Inr (Arr xs)"
| "set_prop Undefined k v = Inl (TypeError ''Cannot set properties of undefined'')"
| "set_prop Null k v = Inl (TypeError ''Cannot set properties of null'')"
| "set_prop _ k v = Inl (TypeError ''Cannot create property on a primitive'')"

text \<open>The \<open>map\<close> callback: \<open>order_detail.product.thumbnail =
  `${environment.apiBaseUrl}/products/images/${order_detail.product.thumbnail}`\<close>, the
  template literal applying \<open>ToString\<close>; the product object, updated in place, stays the
  line item's \<open>product\<close>.\<close>

definition rewrite_thumbnail :: "string \<Rightarrow> jsval \<Rightarrow> js_error + jsval" where
  "rewrite_thumbnail base order_detail =
     sum_bind (get_prop order_detail ''product'') (\<lambda>product.
     sum_bind (get_prop product ''thumbnail'') (\<lambda>thumbnail.
     sum_bind (set_prop product ''thumbnail''
                 (Str (base @ ''/products/images/'' @ js_to_string thumbnail))) (\<lambda>product'.
     set_prop order_detail ''product'' product')))"

text \<open>\<open>v.map(f)\<close> on a JSON value: an array maps; reading \<open>map\<close> of \<open>undefined\<close> or
  \<open>null\<close> throws, and on any other value \<open>map\<close> is not a function.\<close>

fun array_map :: "(jsval \<Rightarrow> js_error + jsval) \<Rightarrow> jsval \<Rightarrow> js_error + jsval" where
  "array_map f (Arr xs) = sum_bind (sum_map_list f xs) (\<lambda>ys. Inr (Arr ys))"
| "array_map f v =
     sum_bind (get_prop v ''map'') (\<lambda>_. Inl (TypeError ''order_details.map is not a function''))"

text \<open>\<open>x - 1\<close> on a JSON value: \<open>ToNumber\<close>, then subtraction.\<close>

definition js_minus_one :: "jsval \<Rightarrow> jsval" where
  "js_minus_one v = Number (case to_number v of IntV n \<Rightarrow> IntV (n - 1) | NaN \<Rightarrow> NaN)"

text \<open>\<open>new Date(a[0], a[1] - 1, a[2])\<close>: a missing element reads as \<open>undefined\<close>,
  which \<open>ToNumber\<close> makes \<open>NaN\<close>; only a missing array (\<open>undefined\<close>, \<open>null\<close>) throws.\<close>

definition date_from_array :: "jsval \<Rightarrow> js_error + jsnum" where
  "date_from_array a =
     sum_bind (get_prop a ''0'') (\<lambda>y.
     sum_bind (get_prop a ''1'') (\<lambda>m.
     sum_bind (get_prop a ''2'') (\<lambda>d.
     Inr (new_date y (js_minus_one m) d))))"

text \<open>The statements of the \<open>next\<close> callback act on the view's \<open>orderResponse\<close> and
  the shared \<open>OrderService\<close>.  \<open>this.orderResponse.k = response.k\<close> reads the
  response's property and assigns it.\<close>

type_synonym detail_state = "order_response \<times> order_service"

definition copy_field ::
  "jsval \<Rightarrow> string \<Rightarrow> (jsval \<Rightarrow> order_response \<Rightarrow> order_response) \<Rightarrow> detail_state \<Rightarrow>
   js_error + detail_state" where
  "copy_field response k upd s =
     (case s of (r, svc) \<Rightarrow> sum_bind (get_prop response k) (\<lambda>v. Inr (upd v r, svc)))"

definition detail_stmts ::
  "string \<Rightarrow> jsval \<Rightarrow> (detail_state \<Rightarrow> js_error + detail_state) list" where
  "detail_stmts base response =
     [\<lambda>(r, svc). sum_bind (get_prop response ''id'') (\<lambda>v. Inr (r, svc\<lparr>latest_order_id := v\<rparr>)),
      copy_field response ''id'' (\<lambda>v r. r\<lparr>response_id := v\<rparr>),
      copy_field response ''user_id'' (\<lambda>v r. r\<lparr>user_id := v\<rparr>),
      copy_field response ''fullname'' (\<lambda>v r. r\<lparr>fullname := v\<rparr>),
      copy_field response ''email'' (\<lambda>v r. r\<lparr>email := v\<rparr>),
      copy_field response ''phone_number'' (\<lambda>v r. r\<lparr>phone_number := v\<rparr>),
      copy_field response ''address'' (\<lambda>v r. r\<lparr>address := v\<rparr>),
      copy_field response ''note'' (\<lambda>v r. r\<lparr>note_ := v\<rparr>),
      \<lambda>(r, svc). sum_bind (sum_bind (get_prop response ''order_date'') date_from_array)
        (\<lambda>t. Inr (r\<lparr>order_date := t\<rparr>, svc)),
      \<lambda>(r, svc). sum_bind
        (sum_bind (get_prop response ''order_details'') (array_map (rewrite_thumbnail base)))
        (\<lambda>ds. Inr (r\<lparr>order_details := ds\<rparr>, svc)),
      copy_field response ''payment_method'' (\<lambda>v r. r\<lparr>payment_method := v\<rparr>),
      \<lambda>(r, svc). sum_bind (sum_bind (get_prop response ''shipping_date'') date_from_array)
        (\<lambda>t. Inr (r\<lparr>shipping_date := t\<rparr>, svc)),
      copy_field response ''shipping_method'' (\<lambda>v r. r\<lparr>shipping_method := v\<rparr>),
      copy_field response ''status'' (\<lambda>v r. r\<lparr>status := v\<rparr>),
      copy_field response ''total_money'' (\<lambda>v r. r\<lparr>total_money := v\<rparr>)]"

definition get_order_details_next ::
  "string \<Rightarrow> jsval \<Rightarrow> detail_state \<Rightarrow> unit outcome \<times> detail_state" where
  "get_order_details_next base response = run_stmts (detail_stmts base response)"

text \<open>The \<open>error\<close> callback: \<open>console.error('Error fetching detail:', error)\<close>; the
  console records the message.\<close>

definition ERROR_FETCHING_DETAIL :: string where
  "ERROR_FETCHING_DETAIL = ''Error fetching detail:''"

datatype http_result = Response jsval | Failure jsval

fun on_order_result ::
  "string \<Rightarrow> http_result \<Rightarrow> detail_state \<times> string list \<Rightarrow> unit outcome \<times> detail_state \<times> string list" where
  "on_order_result base (Response response) (s, console) =
     (case get_order_details_next base response s of (out, s') \<Rightarrow> (out, s', console))"
| "on_order_result base (Failure err) (s, console) = (Ok (), s, console @ [ERROR_FETCHING_DETAIL])"


text \<open>The line items the thumbnail rewrite expects: an object whose \<open>product\<close> is an
  object.\<close>

fun line_item_ok :: "jsval \<Rightarrow> bool" where
  "line_item_ok (Obj kvs) = (case map_of (rev kvs) ''product'' of Some (Obj _) \<Rightarrow> True | _ \<Rightarrow> False)"
| "line_item_ok _ = False"

text \<open>What the assembler promises of a rewritten line item: its product's thumbnail is
  \<open>{base}/products/images/{thumbnail}\<close>, and every other property of the item and of
  its product is kept.\<close>

definition thumbnail_rewritten :: "string \<Rightarrow> jsval \<Rightarrow> jsval \<Rightarrow> bool" where
  "thumbnail_rewritten base it it' \<longleftrightarrow>
     (\<forall>k. k \<noteq> ''product'' \<longrightarrow> get_prop it' k = get_prop it k) \<and>
     (\<forall>p. get_prop it ''product'' = Inr p \<longrightarrow>
        (\<exists>p'. get_prop it' ''product'' = Inr p' \<and>
           (\<forall>k. k \<noteq> ''thumbnail'' \<longrightarrow> get_prop p' k = get_prop p k) \<and>
           (\<forall>thumb. get_prop p ''thumbnail'' = Inr thumb \<longrightarrow>
              get_prop p' ''thumbnail'' = Inr (Str (base @ ''/products/images/'' @ js_to_string thumb)))))"

subsection \<open>Objects and line items\<close>

lemma map_of_update_keys:
  "map_of (map (\<lambda>(k', v'). if k' = k then (k', v) else (k', v')) xs) k'' =
   (if k'' = k then (if k \<in> set (map fst xs) then Some v else None) else map_of xs k'')"
  by (induction xs) (auto simp: image_iff, force)

lemma get_prop_set_prop_Obj:
  assumes "set_prop (Obj kvs) k v = Inr o'"
  shows "get_prop o' k' = (if k' = k then Inr v else get_prop (Obj kvs) k')"
  using assms by (auto simp: rev_map map_of_update_keys)

lemma rewrite_thumbnail_ok:
  assumes "line_item_ok it"
  shows "\<exists>it'. rewrite_thumbnail base it = Inr it'"
  using assms by (cases it rule: line_item_ok.cases) (auto simp: rewrite_thumbnail_def split: option.splits jsval.splits)

lemma rewrite_thumbnail_spec:
  assumes "line_item_ok it" and "rewrite_thumbnail base it = Inr it'"
  shows "thumbnail_rewritten base it it'"
proof -
  obtain kvs pkvs where it: "it = Obj kvs" and p: "get_prop (Obj kvs) ''product'' = Inr (Obj pkvs)"
    using assms(1) by (cases it rule: line_item_ok.cases) (auto split: option.splits jsval.splits)
  obtain thumb where t: "get_prop (Obj pkvs) ''thumbnail'' = Inr thumb" by simp
  obtain p' where p': "set_prop (Obj pkvs) ''thumbnail''
      (Str (base @ ''/products/images/'' @ js_to_string thumb)) = Inr p'" by simp
  have it': "set_prop (Obj kvs) ''product'' p' = Inr it'"
    using assms(2) unfolding it rewrite_thumbnail_def p t p' sum_bind_Inr .
  show ?thesis
    using get_prop_set_prop_Obj [OF it'] get_prop_set_prop_Obj [OF p'] it p t
    by (simp add: thumbnail_rewritten_def)
qed

lemma array_map_rewrite_total:
  assumes "list_all line_item_ok items"
  shows "\<exists>ys. array_map (rewrite_thumbnail base) (Arr items) = Inr (Arr ys) \<and>
    list_all2 (\<lambda>x y. rewrite_thumbnail base x = Inr y) items ys"
proof -
  obtain ys where ys: "sum_map_list (rewrite_thumbnail base) items = Inr ys"
    using sum_map_list_total [of items "rewrite_thumbnail base"] assms rewrite_thumbnail_ok
    by (auto simp: list_all_iff)
  then have "list_all2 (\<lambda>x y. rewrite_thumbnail base x = Inr y) items ys"
    by (simp only: sum_map_list_Inr_iff)
  with ys show ?thesis by simp
qed

lemma date_from_array_Arr: "date_from_array (Arr xs) = Inr (new_date
    (if 0 < length xs then xs ! 0 else Undefined)
    (js_minus_one (if 1 < length xs then xs ! 1 else Undefined))
    (if 2 < length xs then xs ! 2 else Undefined))"
  by (simp add: date_from_array_def array_index_def is_radix_digit_def digit_value_def read_radix_def digit_of_def)

lemma js_minus_one_Number [simp]: "js_minus_one (Number (IntV m)) = Number (IntV (m - 1))"
  by (simp add: js_minus_one_def)

lemma copy_field_Obj [simp]:
  "copy_field (Obj kvs) k upd (r, svc) =
   Inr (upd (case map_of (rev kvs) k of Some v \<Rightarrow> v | None \<Rightarrow> Undefined) r, svc)"
  by (simp add: copy_field_def)

text \<open>Only the first statement of the handler touches the shared service; it hands the
  rest of the body a service whose latestOrderId is the response's id.\<close>

lemma detail_stmts_service:
  "f \<in> set (drop 1 (detail_stmts base response)) \<Longrightarrow> f s = Inr s' \<Longrightarrow> snd s' = snd s"
  by (auto simp: detail_stmts_def copy_field_def sum_bind_eq_Inr_iff split: prod.split_asm)

lemma detail_next_after_id:
  "get_prop response ''id'' = Inr v \<Longrightarrow>
   get_order_details_next base response (r, svc) =
   run_stmts (drop 1 (detail_stmts base response)) (r, svc\<lparr>latest_order_id := v\<rparr>)"
  unfolding get_order_details_next_def by (rule run_stmts_split) (simp add: detail_stmts_def)

lemma detail_next_service:
  assumes "get_prop response ''id'' = Inr v"
  shows "snd (snd (get_order_details_next base response (r, svc))) = svc\<lparr>latest_order_id := v\<rparr>"
  unfolding detail_next_after_id [OF assms]
  by (rule run_stmts_invariant [where P = "\<lambda>s. snd s = svc\<lparr>latest_order_id := v\<rparr>"])
    (metis detail_stmts_service, simp)

text \<open>The dates the callback assigns come from the \<open>Date\<close> constructor, so they stay in
  \<open>TimeClip\<close>'s range.\<close>

lemma date_from_array_in_range: "date_from_array a = Inr t \<Longrightarrow> in_time_range t"
  by (auto simp: date_from_array_def sum_bind_eq_Inr_iff new_date_in_range)

lemma detail_next_dates_in_range:
  assumes "in_time_range (order_date r)" and "in_time_range (shipping_date r)"
  shows "in_time_range (order_date (fst (snd (get_order_details_next base response (r, svc))))) \<and>
    in_time_range (shipping_date (fst (snd (get_order_details_next base response (r, svc)))))"
  using assms unfolding get_order_details_next_def
  by (intro run_stmts_invariant [where P = "\<lambda>s. in_time_range (order_date (fst s)) \<and>
      in_time_range (shipping_date (fst s))"])
    (auto simp: detail_stmts_def copy_field_def sum_bind_eq_Inr_iff date_from_array_in_range
      split: prod.split_asm)

subsection \<open>Properties of the order-detail view\<close>

text \<open>C15: whenever the response has an id v (any response that is not undefined or
  null), the handler records v as the shared service's latestOrderId, whether the rest
  of the handler completes or throws.\<close>

theorem detail_records_latest_id:
  assumes "get_prop response ''id'' = Inr v"
  shows "latest_order_id (snd (snd (get_order_details_next base response (r, svc)))) = v"
  using detail_next_service [OF assms] by simp

theorem detail_records_latest_id_witness:
  "latest_order_id (snd (snd (get_order_details_next ''http://api'' (Obj [(''id'', Number (IntV 7))])
     (order_response_init 0, \<lparr>api_base_url = ''http://api'', latest_order_id = Null\<rparr>)))) =
   Number (IntV 7)"
  using detail_records_latest_id [of "Obj [(''id'', Number (IntV 7))]" "Number (IntV 7)" "''http://api''"
      "order_response_init 0" "\<lparr>api_base_url = ''http://api'', latest_order_id = Null\<rparr>"]
  by simp

text \<open>C19: the handler never assigns shipping_address: whatever the response holds,
  the view keeps the value it had (the empty string of the initialiser).\<close>

theorem shipping_address_never_copied:
  "shipping_address (fst (snd (get_order_details_next base response s))) = shipping_address (fst s)"
  unfolding get_order_details_next_def
  by (rule run_stmts_invariant [where P = "\<lambda>s'. shipping_address (fst s') = shipping_address (fst s)"])
    (auto simp: detail_stmts_def copy_field_def sum_bind_eq_Inr_iff split: prod.split_asm)

text \<open>C16: when the response's order_date is the array [y, m, d] of a valid date
  (1-based month m, y outside 0..99), the view's order_date reads back as year y,
  month m - 1 (0-based) and day d, whether or not a later statement throws.\<close>

theorem order_date_from_array:
  assumes od: "map_of (rev kvs) ''order_date'' = Some (Arr [Number (IntV y), Number (IntV m), Number (IntV d)])"
    and "1 \<le> m" and "m \<le> 12" and "1 \<le> d" and "d \<le> days_in_month (in_leap_year y) (nat (m - 1))"
    and "\<not> (0 \<le> y \<and> y \<le> 99)" and "\<bar>y\<bar> \<le> 100000"
  shows "\<exists>t. order_date (fst (snd (get_order_details_next base (Obj kvs) (r, svc)))) = IntV t \<and>
    date_fields t = (y, nat (m - 1), d)"
proof -
  let ?t = "new_date (Number (IntV y)) (Number (IntV (m - 1))) (Number (IntV d))"
  have "\<exists>s9. run_stmts (take 9 (detail_stmts base (Obj kvs))) (r, svc) = (Ok (), s9) \<and>
      order_date (fst s9) = ?t"
    using od by (simp add: detail_stmts_def date_from_array_Arr)
  then obtain s9 where pre: "run_stmts (take 9 (detail_stmts base (Obj kvs))) (r, svc) = (Ok (), s9)"
    and s9: "order_date (fst s9) = ?t" by blast
  have "get_order_details_next base (Obj kvs) (r, svc) = run_stmts (drop 9 (detail_stmts base (Obj kvs))) s9"
    unfolding get_order_details_next_def by (rule run_stmts_split [OF pre])
  moreover have "order_date (fst (snd (run_stmts (drop 9 (detail_stmts base (Obj kvs))) s9))) = ?t"
    by (rule run_stmts_invariant [where P = "\<lambda>s. order_date (fst s) = ?t", OF _ s9])
      (auto simp: detail_stmts_def copy_field_def sum_bind_eq_Inr_iff split: prod.split_asm)
  moreover have "\<exists>t. ?t = IntV t \<and> date_fields t = (y, nat (m - 1), d)"
    by (rule new_date_valid) (use assms in simp_all)
  ultimately show ?thesis by auto
qed

theorem order_date_from_array_witness:
  "\<exists>t. order_date (fst (snd (get_order_details_next ''http://api''
      (Obj [(''id'', Number (IntV 7)),
            (''order_date'', Arr [Number (IntV 2023), Number (IntV 11), Number (IntV 5)])])
      (order_response_init 0, \<lparr>api_base_url = ''http://api'', latest_order_id = Null\<rparr>)))) = IntV t \<and>
    date_fields t = (2023, 10, 5)"
proof -
  have "in_leap_year 2023 = False" by (simp add: in_leap_year_def days_in_year_def)
  then have "(5::int) \<le> days_in_month (in_leap_year 2023) (nat (11 - 1))"
    by (simp add: days_in_month_def month_lengths_def)
  from order_date_from_array [of "[(''id'', Number (IntV 7)),
      (''order_date'', Arr [Number (IntV 2023), Number (IntV 11), Number (IntV 5)])]" 2023 11 5,
      OF _ _ _ _ this]
  show ?thesis by simp
qed

text \<open>C18: when the response has no order_date, the handler throws a TypeError
  (reading index 0 of undefined) after it has recorded the response's id as
  latestOrderId and assigned id, user_id, fullname, email, phone_number, address and
  note from the response; every other field of the view (order_date, order_details,
  payment_method, shipping_date, shipping_method, status, total_money and
  shipping_address) keeps its previous value.\<close>

theorem detail_missing_order_date:
  assumes "map_of (rev kvs) ''order_date'' = None"
  shows "\<exists>msg. get_order_details_next base (Obj kvs) (r, svc) =
    (let p = (\<lambda>k. case map_of (rev kvs) k of Some v \<Rightarrow> v | None \<Rightarrow> Undefined) in
     (Thrown (TypeError msg),
      r\<lparr>response_id := p ''id'', user_id := p ''user_id'', fullname := p ''fullname'',
        email := p ''email'', phone_number := p ''phone_number'', address := p ''address'',
        note_ := p ''note''\<rparr>,
      svc\<lparr>latest_order_id := p ''id''\<rparr>))"
  using assms by (simp add: get_order_details_next_def detail_stmts_def date_from_array_def copy_field_def)

theorem detail_missing_order_date_witness:
  "\<exists>msg. get_order_details_next ''http://api'' (Obj [(''id'', Number (IntV 7)), (''email'', Str ''a@b'')])
      (order_response_init 0, \<lparr>api_base_url = ''http://api'', latest_order_id = Null\<rparr>) =
    (Thrown (TypeError msg),
     (order_response_init 0)\<lparr>response_id := Number (IntV 7), user_id := Undefined, fullname := Undefined,
        email := Str ''a@b'', phone_number := Undefined, address := Undefined, note_ := Undefined\<rparr>,
     \<lparr>api_base_url = ''http://api'', latest_order_id = Number (IntV 7)\<rparr>)"
  using detail_missing_order_date [where kvs = "[(''id'', Number (IntV 7)), (''email'', Str ''a@b'')]"
      and base = "''http://api''" and r = "order_response_init 0"
      and svc = "\<lparr>api_base_url = ''http://api'', latest_order_id = Null\<rparr>"]
  by simp

text \<open>C29: a date array with fewer than three elements does not make the handler fail:
  the missing day reads as undefined and the date is an Invalid Date (NaN).\<close>

theorem date_from_short_array:
  assumes "length xs < 3"
  shows "date_from_array (Arr xs) = Inr NaN"
  using assms by (simp add: date_from_array_Arr new_date_def)

theorem date_from_short_array_witness:
  "date_from_array (Arr [Number (IntV 2023), Number (IntV 11)]) = Inr NaN"
  by (rule date_from_short_array) simp

text \<open>C17: on line items whose product is an object, the map completes and every item's
  product thumbnail becomes {base}/products/images/{thumbnail}, all other properties of
  the item and of its product being kept.\<close>

theorem thumbnails_rewritten:
  assumes "list_all line_item_ok items"
  shows "\<exists>items'. array_map (rewrite_thumbnail base) (Arr items) = Inr (Arr items') \<and>
    list_all2 (thumbnail_rewritten base) items items'"
proof -
  obtain ys where ys: "array_map (rewrite_thumbnail base) (Arr items) = Inr (Arr ys)"
    and r: "list_all2 (\<lambda>x y. rewrite_thumbnail base x = Inr y) items ys"
    using array_map_rewrite_total [OF assms] by blast
  have "list_all2 (thumbnail_rewritten base) items ys"
    using r assms by (auto simp: list_all2_conv_all_nth list_all_length intro: rewrite_thumbnail_spec)
  with ys show ?thesis by blast
qed

theorem thumbnails_rewritten_witness:
  "\<exists>items'. array_map (rewrite_thumbnail ''https://api.example.com'')
      (Arr [Obj [(''product'', Obj [(''thumbnail'', Str ''shoe1.png'')])]]) = Inr (Arr items') \<and>
    list_all2 (thumbnail_rewritten ''https://api.example.com'')
      [Obj [(''product'', Obj [(''thumbnail'', Str ''shoe1.png'')])]] items'"
proof -
  have "list_all line_item_ok [Obj [(''product'', Obj [(''thumbnail'', Str ''shoe1.png'')])]]" by simp
  then show ?thesis by (rule thumbnails_rewritten)
qed

text \<open>A response object whose date fields are arrays and whose line items have object
  products is handled without exception.\<close>

theorem detail_completes:
  assumes "map_of (rev kvs) ''order_date'' = Some (Arr ds1)"
    and "map_of (rev kvs) ''shipping_date'' = Some (Arr ds2)"
    and "map_of (rev kvs) ''order_details'' = Some (Arr items)" and "list_all line_item_ok items"
  shows "fst (get_order_details_next base (Obj kvs) s) = Ok ()"
proof -
  obtain ys where "sum_map_list (rewrite_thumbnail base) items = Inr ys"
    using array_map_rewrite_total [OF assms(4)] by (auto simp: sum_bind_eq_Inr_iff)
  then show ?thesis using assms(1-3)
    by (cases s) (simp add: get_order_details_next_def detail_stmts_def date_from_array_Arr)
qed

theorem detail_completes_witness:
  "fst (get_order_details_next ''http://api''
     (Obj [(''id'', Number (IntV 7)),
           (''order_date'', Arr [Number (IntV 2023), Number (IntV 11), Number (IntV 5)]),
           (''shipping_date'', Arr [Number (IntV 2023), Number (IntV 11), Number (IntV 8)]),
           (''order_details'', Arr [Obj [(''product'', Obj [(''thumbnail'', Str ''shoe1.png'')])]])])
     (order_response_init 0, \<lparr>api_base_url = ''http://api'', latest_order_id = Null\<rparr>)) = Ok ()"
  by (rule detail_completes) (simp_all, simp)

text \<open>With no id route parameter, \<open>Number(null)\<close> is 0 and the view requests order 0.\<close>

lemma missing_route_id_fetches_zero:
  "req_url (get_order_details svc Map.empty) = api_base_url svc @ ''/orders/0''"
proof -
  have "show_int 0 = ''0''" by code_simp
  then show ?thesis
    by (simp add: get_order_details_def route_order_id_def get_order_by_id_request_def order_url_def)
qed

end
