(* ===== verification/App.thy ===== *)
theory App
  imports AuthGuard Header OrderDetail
begin

text \<open>
  The client as one state machine.  Angular provides \<open>TokenService\<close> and
  \<open>OrderService\<close> as application-wide singletons, so the header and the order-detail view
  act on the same \<open>OrderService\<close> instance, and every component reads and writes the
  same \<open>localStorage\<close> and router.  The state gathers these shared parts and the two
  views' own state; an event is one handler run to its end (or to its exception, which
  leaves the state as the handler left it).  A page load constructs the services and
  views anew from the storage, which is the only part that survives it.  The requests
  the client has issued are kept in order; their responses arrive as later events.
\<close>

record app_state =
  app_storage :: storage
  app_router :: router
  app_console :: "string list"
  app_orders :: order_service
  app_header :: header
  app_detail :: order_response
  app_requests :: "http_request list"

text \<open>The events: a page load at clock \<open>now\<close>; the login flow, which is outside the sources,
  as its two storage writes: storing the token (\<open>TokenService.setToken\<close>) and, once the
  user has been fetched, saving it (\<open>UserService.saveUserResponseToLocalStorage\<close>); the response to
  \<open>placeOrder\<close>; the router opening the order-detail view with its route parameters
  at clock \<open>now\<close>; the outcome of the order-detail request; the header's user menu, popover
  and navigation items; the guard run for a protected route at clock \<open>now\<close>.\<close>

datatype app_event =
    Reload int
  | Login string
  | UserLoaded string
  | PlaceOrderResponse jsval
  | OpenOrderDetail "string \<rightharpoonup> string" int
  | OrderDetailResult http_result
  | HeaderClick int
  | HeaderToggle
  | HeaderNavItem int
  | GuardCheck int

definition app_boot :: "string \<Rightarrow> storage \<Rightarrow> int \<Rightarrow> app_state" where
  "app_boot base st now =
     \<lparr>app_storage = st, app_router = \<lparr>navigations = []\<rparr>, app_console = [],
      app_orders = order_service_init base st, app_header = ng_on_init st header_init,
      app_detail = order_response_init now, app_requests = []\<rparr>"

definition app_browser :: "app_state \<Rightarrow> browser" where
  "app_browser s =
     \<lparr>local_storage = app_storage s, router_state = app_router s, console_errors = app_console s\<rparr>"

fun app_step :: "token_service \<Rightarrow> string \<Rightarrow> app_event \<Rightarrow> app_state \<Rightarrow> app_state" where
  "app_step ts base (Reload now) s = app_boot base (app_storage s) now"
| "app_step ts base (Login token) s = s\<lparr>app_storage := set_token ts token (app_storage s)\<rparr>"
| "app_step ts base (UserLoaded user_json) s =
     s\<lparr>app_storage := save_user_response_to_local_storage user_json (app_storage s)\<rparr>"
| "app_step ts base (PlaceOrderResponse res) s =
     (case place_order_next res (app_orders s, app_storage s) of
        (_, svc, st) \<Rightarrow> s\<lparr>app_orders := svc, app_storage := st\<rparr>)"
| "app_step ts base (OpenOrderDetail params now) s =
     (case order_detail_open (app_orders s) params now of
        (d, req) \<Rightarrow> s\<lparr>app_detail := d, app_requests := app_requests s @ [req]\<rparr>)"
| "app_step ts base (OrderDetailResult result) s =
     (case on_order_result base result ((app_detail s, app_orders s), app_console s) of
        (_, (d, svc), c) \<Rightarrow> s\<lparr>app_detail := d, app_orders := svc, app_console := c\<rparr>)"
| "app_step ts base (HeaderClick index) s =
     (case handle_item_click ts (app_orders s) index (app_header s, app_browser s) of
        (h, b) \<Rightarrow> s\<lparr>app_header := h, app_storage := local_storage b, app_router := router_state b,
                   app_console := console_errors b\<rparr>)"
| "app_step ts base HeaderToggle s = s\<lparr>app_header := toggle_popover (app_header s)\<rparr>"
| "app_step ts base (HeaderNavItem index) s =
     s\<lparr>app_header := set_active_nav_item index (app_header s)\<rparr>"
| "app_step ts base (GuardCheck now) s =
     s\<lparr>app_router := snd (can_activate ts (app_storage s) now (app_router s))\<rparr>"

definition app_run :: "token_service \<Rightarrow> string \<Rightarrow> app_event list \<Rightarrow> app_state \<Rightarrow> app_state" where
  "app_run ts base es s = fold (app_step ts base) es s"

text \<open>The states reachable from a first page load on storage \<open>st0\<close>.\<close>

inductive app_reach :: "token_service \<Rightarrow> string \<Rightarrow> storage \<Rightarrow> app_state \<Rightarrow> bool"
  for ts base st0 where
  boot: "app_reach ts base st0 (app_boot base st0 now)"
| step: "app_reach ts base st0 s \<Longrightarrow> app_reach ts base st0 (app_step ts base e s)"

text \<open>The routes the client asks for: \<open>/login\<close>, \<open>/user-profile\<close> and \<open>/orders/:id\<close>.\<close>

fun route_ok :: "string list \<Rightarrow> bool" where
  "route_ok [c] \<longleftrightarrow> c = ''/login'' \<or> c = ''/user-profile''"
| "route_ok [c, _] \<longleftrightarrow> c = ''/orders''"
| "route_ok _ \<longleftrightarrow> False"

text \<open>The storage keys other than the three the client writes (the token, the latest
  order and the user) keep the value of the first page load.\<close>

definition storage_frame :: "storage \<Rightarrow> storage \<Rightarrow> bool" where
  "storage_frame st0 st \<longleftrightarrow>
     (\<forall>k. k \<noteq> TOKEN_KEY \<and> k \<noteq> LATEST_ORDER_KEY \<and> k \<noteq> USER_KEY \<longrightarrow> st k = st0 k)"

fun session_event :: "app_event \<Rightarrow> bool" where
  "session_event (Login _) = True"
| "session_event (HeaderClick index) = (index = 2)"
| "session_event _ = False"

subsection \<open>Lemmas\<close>

lemma app_run_Cons [simp]: "app_run ts base (e # es) s = app_run ts base es (app_step ts base e s)"
  by (simp add: app_run_def)

lemma app_run_Nil [simp]: "app_run ts base [] s = s"
  by (simp add: app_run_def)

lemma app_reach_run: "app_reach ts base st0 s \<Longrightarrow> app_reach ts base st0 (app_run ts base es s)"
  by (induction es arbitrary: s) (simp_all add: app_reach.step)

lemma can_activate_router:
  "snd (can_activate ts st now r) = r \<or> snd (can_activate ts st now r) = navigate [''/login''] r"
  by (auto simp: can_activate_def split: sum.splits)

lemma handle_item_click_router:
  "router_state (snd (handle_item_click ts svc index (h, b))) = router_state b \<or>
   router_state (snd (handle_item_click ts svc index (h, b))) = navigate [''/user-profile''] (router_state b) \<or>
   (\<exists>x. router_state (snd (handle_item_click ts svc index (h, b))) = navigate [''/orders'', x] (router_state b))"
  by (auto simp: handle_item_click_def Let_def)

lemma navigate_route_ok [simp]:
  "list_all route_ok (navigations (navigate c r)) \<longleftrightarrow> list_all route_ok (navigations r) \<and> route_ok c"
  by (simp add: navigate_def)

lemma session_token_key:
  assumes "st TOKEN_KEY = st' TOKEN_KEY"
  shows "can_activate ts st now r = can_activate ts st' now r"
proof -
  have g: "get_token ts st = get_token ts st'" using assms by (simp add: get_token_def)
  have u: "get_user_id ts st = get_user_id ts st'" unfolding get_user_id_def g ..
  have e: "is_token_expired ts st now = is_token_expired ts st' now"
    unfolding is_token_expired_def g ..
  show ?thesis unfolding can_activate_def u e ..
qed

lemma user_key_distinct [simp]: "USER_KEY \<noteq> TOKEN_KEY" "USER_KEY \<noteq> LATEST_ORDER_KEY"
  "TOKEN_KEY \<noteq> USER_KEY" "LATEST_ORDER_KEY \<noteq> USER_KEY"
  by (simp_all add: USER_KEY_def TOKEN_KEY_def LATEST_ORDER_KEY_def)

text \<open>An event other than login and logout leaves the token key alone, provided the
  order service's key is a different one.\<close>

lemma app_step_token_key:
  assumes "\<not> session_event e" and keys: "TOKEN_KEY \<noteq> LATEST_ORDER_KEY"
  shows "app_storage (app_step ts base e s) TOKEN_KEY = app_storage s TOKEN_KEY"
proof (cases e)
  case (PlaceOrderResponse res)
  from keys show ?thesis
    using PlaceOrderResponse place_order_next_storage [of res "app_orders s" "app_storage s"]
    by (auto split: prod.splits)
next
  case (OrderDetailResult result)
  then show ?thesis by (cases result) (simp_all split: prod.splits)
next
  case (HeaderClick index)
  then show ?thesis using assms handle_item_click_storage [of index ts "app_orders s" "app_header s" "app_browser s"]
    by (simp add: app_browser_def case_prod_unfold)
qed (use assms in \<open>simp_all add: app_boot_def case_prod_unfold save_user_response_to_local_storage_def\<close>)

lemma storage_frame_upd:
  assumes "storage_frame st0 st" and "k = TOKEN_KEY \<or> k = LATEST_ORDER_KEY \<or> k = USER_KEY"
  shows "storage_frame st0 (st(k := v))"
  using assms by (auto simp: storage_frame_def)

subsection \<open>Properties of the client\<close>

text \<open>C25: in every reachable state, every navigation the client has asked the router for
  is /login, /user-profile or /orders/:id.\<close>

theorem app_routes_ok:
  assumes "app_reach ts base st0 s"
  shows "list_all route_ok (navigations (app_router s))"
  using assms
proof induction
  case (boot now)
  then show ?case by (simp add: app_boot_def)
next
  case (step s e)
  then show ?case
  proof (cases e)
    case (HeaderClick index)
    then show ?thesis
      using step handle_item_click_router [of ts "app_orders s" index "app_header s" "app_browser s"]
      by (auto simp: app_browser_def case_prod_unfold)
  next
    case (GuardCheck now)
    then show ?thesis using step can_activate_router [of ts "app_storage s" now "app_router s"] by auto
  qed (auto simp: app_boot_def case_prod_unfold)
qed

theorem app_routes_ok_witness:
  "list_all route_ok (navigations (app_router (app_step
     \<lparr>has_local_storage = True, jwt_helper = \<lparr>url_base64_decode = Inr, json_parse = (\<lambda>_. Inr Null)\<rparr>\<rparr>
     ''http://api'' (GuardCheck 0) (app_boot ''http://api'' Map.empty 0))))"
  by (rule app_routes_ok [OF app_reach.step [OF app_reach.boot]])

text \<open>C26: in every reachable state, every storage key other than the three the client
  writes (access-token through \<open>TokenService\<close>, latestOrderId through \<open>OrderService\<close>,
  user through the login flow's save and the header's logout) holds the value it had at
  the first page load: no handler writes a key of its own.\<close>

theorem app_storage_frame:
  assumes "app_reach ts base st0 s"
  shows "storage_frame st0 (app_storage s)"
  using assms
proof induction
  case (boot now)
  then show ?case by (simp add: app_boot_def storage_frame_def)
next
  case (step s e)
  then show ?case
  proof (cases e)
    case (Login token)
    then show ?thesis using step by (simp add: set_token_def storage_frame_upd)
  next
    case (UserLoaded user_json)
    then show ?thesis
      using step storage_frame_upd [of st0 "app_storage s" USER_KEY "Some user_json"]
      by (simp add: save_user_response_to_local_storage_def fun_upd_def)
  next
    case (PlaceOrderResponse res)
    have "storage_frame st0 (snd (snd (place_order_next res (app_orders s, app_storage s))))"
      using place_order_next_storage [of res "app_orders s" "app_storage s"] step(2)
      by (metis storage_frame_upd)
    then show ?thesis using PlaceOrderResponse by (simp add: case_prod_unfold)
  next
    case (HeaderClick index)
    show ?thesis
    proof (cases "index = 2")
      case True
      have "storage_frame st0 (remove_token ts (remove_user_from_local_storage (app_storage s)))"
        using step by (simp add: remove_token_def remove_user_from_local_storage_def storage_frame_upd)
      then show ?thesis
        using HeaderClick True handle_item_click_logout_storage [of ts "app_orders s" "app_header s" "app_browser s"]
        by (simp add: app_browser_def case_prod_unfold)
    next
      case False
      then show ?thesis
        using HeaderClick step handle_item_click_storage [of index ts "app_orders s" "app_header s" "app_browser s"]
        by (simp add: app_browser_def case_prod_unfold)
    qed
  qed (use step in \<open>simp_all add: app_boot_def case_prod_unfold\<close>)
qed

theorem app_storage_frame_witness:
  "storage_frame [''theme'' \<mapsto> ''dark''] (app_storage (app_step
     \<lparr>has_local_storage = True, jwt_helper = \<lparr>url_base64_decode = Inr, json_parse = (\<lambda>_. Inr Null)\<rparr>\<rparr>
     ''http://api'' (HeaderClick 2) (app_boot ''http://api'' [''theme'' \<mapsto> ''dark''] 0)))"
  by (rule app_storage_frame [OF app_reach.step [OF app_reach.boot]])

text \<open>C24: events that are neither a login nor a logout (order placement and detail
  responses, page loads, the other header actions, guard runs) never change the guard's
  verdict, in any order and number.\<close>

theorem guard_unaffected_by_other_events:
  assumes "list_all (\<lambda>e. \<not> session_event e) es"
  shows "can_activate ts (app_storage (app_run ts base es s)) now r = can_activate ts (app_storage s) now r"
  using assms
proof (induction es arbitrary: s)
  case Nil
  then show ?case by simp
next
  case (Cons e es)
  have "TOKEN_KEY \<noteq> LATEST_ORDER_KEY" by (simp add: TOKEN_KEY_def LATEST_ORDER_KEY_def)
  with Cons.prems have "can_activate ts (app_storage (app_step ts base e s)) now r =
      can_activate ts (app_storage s) now r"
    by (intro session_token_key app_step_token_key) simp_all
  with Cons show ?case by simp
qed

theorem guard_unaffected_by_other_events_witness:
  "can_activate \<lparr>has_local_storage = True, jwt_helper = \<lparr>url_base64_decode = Inr, json_parse = (\<lambda>_. Inr Null)\<rparr>\<rparr>
     (app_storage (app_run \<lparr>has_local_storage = True, jwt_helper = \<lparr>url_base64_decode = Inr, json_parse = (\<lambda>_. Inr Null)\<rparr>\<rparr>
        ''http://api'' [PlaceOrderResponse (Obj [(''id'', Number (IntV 5))]), HeaderClick 1, Reload 0]
        (app_boot ''http://api'' Map.empty 0))) 0 \<lparr>navigations = []\<rparr> =
   can_activate \<lparr>has_local_storage = True, jwt_helper = \<lparr>url_base64_decode = Inr, json_parse = (\<lambda>_. Inr Null)\<rparr>\<rparr>
     (app_storage (app_boot ''http://api'' Map.empty 0)) 0 \<lparr>navigations = []\<rparr>"
  by (rule guard_unaffected_by_other_events) simp

text \<open>C27: the latest order survives a page load: after the response to placeOrder
  carries an integer id n other than 0 and the page is reloaded, "my latest order"
  asks the router for exactly /orders/n.\<close>

theorem my_order_survives_reload:
  assumes "get_prop res ''id'' = Inr (Number (IntV n))" and "n \<noteq> 0"
  shows "navigations (app_router (app_run ts base [PlaceOrderResponse res, Reload now, HeaderClick 1] s)) =
    [[''/orders'', show_int n]]"
proof -
  let ?st = "(app_storage s)(LATEST_ORDER_KEY \<mapsto> show_int n)"
  have p: "place_order_next res (app_orders s, app_storage s) =
      (Ok (), (app_orders s)\<lparr>latest_order_id := Number (IntV n)\<rparr>, ?st)"
    by (rule place_order_next_id [OF assms(1)]) simp
  have "string_to_number (show_int n) = IntV n" by (rule string_to_number_show_int)
  then have "latest_order_id (order_service_init base ?st) = Number (IntV n)"
    by (simp add: order_service_init_saved show_int_def)
  then show ?thesis using assms(2)
    by (simp add: p app_boot_def app_browser_def handle_item_click_def navigate_def)
qed

theorem my_order_survives_reload_witness:
  "navigations (app_router (app_run
     \<lparr>has_local_storage = True, jwt_helper = \<lparr>url_base64_decode = Inr, json_parse = (\<lambda>_. Inr Null)\<rparr>\<rparr>
     ''http://api'' [PlaceOrderResponse (Obj [(''id'', Number (IntV 42))]), Reload 0, HeaderClick 1]
     (app_boot ''http://api'' Map.empty 0))) = [[''/orders'', show_int 42]]"
  by (rule my_order_survives_reload) simp_all

text \<open>In every reachable state, the order and shipping dates the detail view holds
  are Invalid Dates or integers below 2^53 in magnitude (safe_time): the view never holds
  a time value that a double could not represent exactly.\<close>

theorem app_dates_safe_integers:
  assumes "app_reach ts base st0 s"
  shows "safe_time (order_date (app_detail s)) \<and> safe_time (shipping_date (app_detail s))"
proof -
  have "in_time_range (order_date (app_detail s)) \<and> in_time_range (shipping_date (app_detail s))"
    using assms
  proof induction
    case (boot now)
    then show ?case by (simp add: app_boot_def order_response_init_def time_clip_in_range)
  next
    case (step s e)
    then show ?case
    proof (cases e)
      case (OrderDetailResult result)
      then show ?thesis
        using step detail_next_dates_in_range [of "app_detail s"]
        by (cases result) (auto simp: case_prod_unfold)
    qed (auto simp: app_boot_def order_detail_open_def order_response_init_def time_clip_in_range
        case_prod_unfold)
  qed
  then show ?thesis by (simp add: in_time_range_safe)
qed

theorem app_dates_safe_integers_witness:
  "safe_time (order_date (app_detail (app_step
       \<lparr>has_local_storage = True, jwt_helper = \<lparr>url_base64_decode = Inr, json_parse = (\<lambda>_. Inr Null)\<rparr>\<rparr>
       ''http://api'' (OrderDetailResult (Response (Obj [(''id'', Number (IntV 7)),
         (''order_date'', Arr [Number (IntV 2023), Number (IntV 11), Number (IntV 5)])])))
       (app_boot ''http://api'' Map.empty 0)))) \<and>
   safe_time (shipping_date (app_detail (app_step
       \<lparr>has_local_storage = True, jwt_helper = \<lparr>url_base64_decode = Inr, json_parse = (\<lambda>_. Inr Null)\<rparr>\<rparr>
       ''http://api'' (OrderDetailResult (Response (Obj [(''id'', Number (IntV 7)),
         (''order_date'', Arr [Number (IntV 2023), Number (IntV 11), Number (IntV 5)])])))
       (app_boot ''http://api'' Map.empty 0))))"
  by (rule app_dates_safe_integers [OF app_reach.step [OF app_reach.boot]])

text \<open>C28: the header's "my latest order" link opens the right order: with an integer
  id n other than 0 recorded, item 1 navigates to ['/orders', s], and the detail view
  opened with the route parameter id = s requests GET /orders/n.\<close>

theorem my_order_opens_detail:
  assumes "latest_order_id (app_orders s) = Number (IntV n)" and "n \<noteq> 0"
  shows "\<exists>seg. navigations (app_router (app_step ts base (HeaderClick 1) s)) =
      navigations (app_router s) @ [[''/orders'', seg]] \<and>
    app_requests (app_run ts base [HeaderClick 1, OpenOrderDetail [''id'' \<mapsto> seg] now] s) =
      app_requests s @ [get_order_by_id_request (app_orders s) (IntV n)]"
proof -
  have "navigations (app_router (app_step ts base (HeaderClick 1) s)) =
      navigations (app_router s) @ [[''/orders'', show_int n]]"
    using assms by (simp add: app_browser_def handle_item_click_def navigate_def)
  moreover have "app_requests (app_run ts base [HeaderClick 1, OpenOrderDetail [''id'' \<mapsto> show_int n] now] s) =
      app_requests s @ [get_order_by_id_request (app_orders s) (IntV n)]"
    by (simp add: case_prod_unfold order_detail_open_def get_order_details_def route_order_id_def
        string_to_number_show_int)
  ultimately show ?thesis by blast
qed

theorem my_order_opens_detail_witness:
  "\<exists>seg. navigations (app_router (app_step
      \<lparr>has_local_storage = True, jwt_helper = \<lparr>url_base64_decode = Inr, json_parse = (\<lambda>_. Inr Null)\<rparr>\<rparr>
      ''http://api'' (HeaderClick 1)
      ((app_boot ''http://api'' Map.empty 0)\<lparr>app_orders := \<lparr>api_base_url = ''http://api'', latest_order_id = Number (IntV 42)\<rparr>\<rparr>))) =
      [] @ [[''/orders'', seg]] \<and>
    app_requests (app_run
      \<lparr>has_local_storage = True, jwt_helper = \<lparr>url_base64_decode = Inr, json_parse = (\<lambda>_. Inr Null)\<rparr>\<rparr>
      ''http://api'' [HeaderClick 1, OpenOrderDetail [''id'' \<mapsto> seg] 0]
      ((app_boot ''http://api'' Map.empty 0)\<lparr>app_orders := \<lparr>api_base_url = ''http://api'', latest_order_id = Number (IntV 42)\<rparr>\<rparr>)) =
      [] @ [get_order_by_id_request \<lparr>api_base_url = ''http://api'', latest_order_id = Number (IntV 42)\<rparr> (IntV 42)]"
  using my_order_opens_detail [where s = "(app_boot ''http://api'' Map.empty 0)\<lparr>app_orders :=
      \<lparr>api_base_url = ''http://api'', latest_order_id = Number (IntV 42)\<rparr>\<rparr>" and n = 42
      and ts = "\<lparr>has_local_storage = True, jwt_helper = \<lparr>url_base64_decode = Inr, json_parse = (\<lambda>_. Inr Null)\<rparr>\<rparr>"
      and base = "''http://api''" and now = 0]
  by (simp add: app_boot_def)

end
