(* ===== verification/OrderRef.thy ===== *)
theory OrderRef
  imports App
begin

text \<open>
  The contract of \<open>OrderRefStore\<close> (specification, section 4.4) as an abstract machine,
  and its refinement by the client.  The abstract state is the optional latest order id
  held in memory (\<open>current()\<close>) and the one persisted in the durable area.
  \<open>initialize\<close> reads the persisted value; \<open>recordFromPlacedOrder\<close> sets both;
  \<open>recordFromFetch\<close> sets the in-memory value only (persisting it is optional, and the
  code does not).  The refinement mapping reads the service's \<open>latestOrderId\<close> and the
  \<open>latestOrderId\<close> storage key the way the constructor does.  It holds on runs whose order
  responses carry integer ids; an id of another type is stored as it comes.
\<close>

record order_ref =
  ref_current :: "int option"
  ref_persisted :: "int option"

definition ref_initialize :: "int option \<Rightarrow> order_ref" where
  "ref_initialize p = \<lparr>ref_current = p, ref_persisted = p\<rparr>"

definition ref_record_placed :: "int \<Rightarrow> order_ref \<Rightarrow> order_ref" where
  "ref_record_placed n r = \<lparr>ref_current = Some n, ref_persisted = Some n\<rparr>"

definition ref_record_fetch :: "int \<Rightarrow> order_ref \<Rightarrow> order_ref" where
  "ref_record_fetch n r = r\<lparr>ref_current := Some n\<rparr>"

text \<open>The integer id of an order response, if it has one.\<close>

definition response_order_id :: "jsval \<Rightarrow> int option" where
  "response_order_id v = (case get_prop v ''id'' of Inr (Number (IntV n)) \<Rightarrow> Some n | _ \<Rightarrow> None)"

text \<open>The abstract machine's reaction to the client's events: a page load runs
  \<open>initialize\<close>, a placement or detail response with an integer id records it, every
  other event leaves the reference alone.\<close>

fun ref_step :: "app_event \<Rightarrow> order_ref \<Rightarrow> order_ref" where
  "ref_step (Reload now) r = ref_initialize (ref_persisted r)"
| "ref_step (PlaceOrderResponse res) r =
     (case response_order_id res of Some n \<Rightarrow> ref_record_placed n r | None \<Rightarrow> r)"
| "ref_step (OrderDetailResult (Response v)) r =
     (case response_order_id v of Some n \<Rightarrow> ref_record_fetch n r | None \<Rightarrow> r)"
| "ref_step _ r = r"

definition ref_run :: "app_event list \<Rightarrow> order_ref \<Rightarrow> order_ref" where
  "ref_run es r = fold ref_step es r"

fun numeric_event :: "app_event \<Rightarrow> bool" where
  "numeric_event (PlaceOrderResponse res) = (response_order_id res \<noteq> None)"
| "numeric_event (OrderDetailResult (Response v)) = (response_order_id v \<noteq> None)"
| "numeric_event _ = True"

text \<open>The refinement mapping.\<close>

definition abs_current :: "order_service \<Rightarrow> int option" where
  "abs_current svc = (case latest_order_id svc of Number (IntV n) \<Rightarrow> Some n | _ \<Rightarrow> None)"

definition abs_persisted :: "storage \<Rightarrow> int option" where
  "abs_persisted st =
     (case st LATEST_ORDER_KEY of
        Some saved \<Rightarrow>
          if truthy (Str saved) then (case string_to_number saved of IntV n \<Rightarrow> Some n | NaN \<Rightarrow> None)
          else None
      | None \<Rightarrow> None)"

definition abs_app :: "app_state \<Rightarrow> order_ref" where
  "abs_app s = \<lparr>ref_current = abs_current (app_orders s), ref_persisted = abs_persisted (app_storage s)\<rparr>"

text \<open>The declared type of \<open>latestOrderId\<close>: \<open>number | null\<close>.\<close>

fun number_or_null :: "jsval \<Rightarrow> bool" where
  "number_or_null Null = True"
| "number_or_null (Number _) = True"
| "number_or_null _ = False"

subsection \<open>Simulation\<close>

lemma abs_persisted_other:
  "k \<noteq> LATEST_ORDER_KEY \<Longrightarrow> abs_persisted (st(k := v)) = abs_persisted st"
  by (simp add: abs_persisted_def)

lemma abs_persisted_show_int:
  "abs_persisted (st(LATEST_ORDER_KEY \<mapsto> show_int n)) = Some n"
proof -
  have "show_int n \<noteq> []" by (simp add: show_int_def)
  then show ?thesis by (simp add: abs_persisted_def string_to_number_show_int)
qed

lemma abs_current_init: "abs_current (order_service_init base st) = abs_persisted st"
  by (auto simp: abs_current_def abs_persisted_def order_service_init_def
      split: option.splits jsnum.splits)

lemma response_order_id_Some:
  "response_order_id v = Some n \<longleftrightarrow> get_prop v ''id'' = Inr (Number (IntV n))"
  by (auto simp: response_order_id_def split: sum.splits jsval.splits jsnum.splits)

lemma token_keys_distinct [simp]: "TOKEN_KEY \<noteq> LATEST_ORDER_KEY"
  by (simp add: TOKEN_KEY_def LATEST_ORDER_KEY_def)

text \<open>The simulation square: one event of the client, mapped, is one step of the
  abstract machine.\<close>

lemma app_step_refines:
  assumes "numeric_event e" and keys: "TOKEN_KEY \<noteq> LATEST_ORDER_KEY"
  shows "abs_app (app_step ts base e s) = ref_step e (abs_app s)"
proof (cases e)
  case (Reload now)
  then show ?thesis by (simp add: abs_app_def app_boot_def abs_current_init ref_initialize_def)
next
  case (Login token)
  then show ?thesis using keys by (simp add: abs_app_def set_token_def abs_persisted_other)
next
  case (UserLoaded user_json)
  then show ?thesis by (simp add: abs_app_def save_user_response_to_local_storage_def abs_persisted_other)
next
  case (PlaceOrderResponse res)
  with assms(1) obtain n where n: "get_prop res ''id'' = Inr (Number (IntV n))"
    by (auto simp: response_order_id_Some)
  have "place_order_next res (app_orders s, app_storage s) =
      (Ok (), (app_orders s)\<lparr>latest_order_id := Number (IntV n)\<rparr>,
       (app_storage s)(LATEST_ORDER_KEY \<mapsto> show_int n))"
    by (rule place_order_next_id [OF n]) simp
  moreover have "response_order_id res = Some n" using n by (simp add: response_order_id_Some)
  ultimately show ?thesis using PlaceOrderResponse
    by (simp add: abs_app_def abs_current_def abs_persisted_show_int ref_record_placed_def)
next
  case (OrderDetailResult result)
  show ?thesis
  proof (cases result)
    case (Response v)
    with assms(1) OrderDetailResult obtain n where n: "get_prop v ''id'' = Inr (Number (IntV n))"
      by (auto simp: response_order_id_Some)
    then have "response_order_id v = Some n" by (simp add: response_order_id_Some)
    with n OrderDetailResult Response show ?thesis
      using detail_next_service [OF n, of base "app_detail s" "app_orders s"]
      by (simp add: abs_app_def abs_current_def ref_record_fetch_def case_prod_unfold)
  next
    case (Failure err)
    with OrderDetailResult show ?thesis by (simp add: abs_app_def)
  qed
next
  case (HeaderClick index)
  have "app_storage (app_step ts base e s) LATEST_ORDER_KEY = app_storage s LATEST_ORDER_KEY"
  proof (cases "index = 2")
    case True
    then show ?thesis
      using HeaderClick keys handle_item_click_logout_storage [of ts "app_orders s" "app_header s" "app_browser s"]
      by (simp add: app_browser_def case_prod_unfold remove_token_def remove_user_from_local_storage_def
          keys [symmetric] user_key_distinct [symmetric])
  next
    case False
    then show ?thesis
      using HeaderClick handle_item_click_storage [of index ts "app_orders s" "app_header s" "app_browser s"]
      by (simp add: app_browser_def case_prod_unfold)
  qed
  then have "abs_persisted (app_storage (app_step ts base e s)) = abs_persisted (app_storage s)"
    by (simp add: abs_persisted_def)
  then show ?thesis using HeaderClick by (simp add: abs_app_def case_prod_unfold)
qed (simp_all add: abs_app_def case_prod_unfold)

lemma app_step_number_or_null:
  assumes "numeric_event e" and "number_or_null (latest_order_id (app_orders s))"
  shows "number_or_null (latest_order_id (app_orders (app_step ts base e s)))"
proof (cases e)
  case (Reload now)
  then show ?thesis by (simp add: app_boot_def order_service_init_def split: option.splits)
next
  case (PlaceOrderResponse res)
  with assms(1) obtain n where n: "get_prop res ''id'' = Inr (Number (IntV n))"
    by (auto simp: response_order_id_Some)
  have "place_order_next res (app_orders s, app_storage s) =
      (Ok (), (app_orders s)\<lparr>latest_order_id := Number (IntV n)\<rparr>,
       (app_storage s)(LATEST_ORDER_KEY \<mapsto> show_int n))"
    by (rule place_order_next_id [OF n]) simp
  then show ?thesis using PlaceOrderResponse by simp
next
  case (OrderDetailResult result)
  then show ?thesis
  proof (cases result)
    case (Response v)
    with assms(1) OrderDetailResult obtain n where n: "get_prop v ''id'' = Inr (Number (IntV n))"
      by (auto simp: response_order_id_Some)
    with OrderDetailResult Response show ?thesis
      using detail_next_service [OF n, of base "app_detail s" "app_orders s"]
      by (simp add: case_prod_unfold)
  qed (use assms(2) in simp)
next
  case (HeaderClick index)
  then show ?thesis using assms(2) by (simp add: case_prod_unfold)
qed (use assms(2) in \<open>simp_all add: case_prod_unfold\<close>)

subsection \<open>Properties of the order reference\<close>

text \<open>C20: the client refines the OrderRefStore contract: on every run whose order
  responses carry integer ids, the latest order id in memory and in storage, read
  through the refinement mapping, is the one the abstract machine computes for the same
  events (initialize on page load, recordFromPlacedOrder, recordFromFetch).\<close>

theorem app_refines_order_ref:
  assumes "list_all numeric_event es"
  shows "abs_app (app_run ts base es s) = ref_run es (abs_app s)"
  using assms
proof (induction es arbitrary: s)
  case Nil
  then show ?case by (simp add: ref_run_def)
next
  case (Cons e es)
  have "TOKEN_KEY \<noteq> LATEST_ORDER_KEY" by (simp add: TOKEN_KEY_def LATEST_ORDER_KEY_def)
  with Cons.prems have "abs_app (app_step ts base e s) = ref_step e (abs_app s)"
    by (intro app_step_refines) simp_all
  with Cons show ?case by (simp add: ref_run_def)
qed

theorem app_refines_order_ref_witness:
  "abs_app (app_run \<lparr>has_local_storage = True, jwt_helper = \<lparr>url_base64_decode = Inr, json_parse = (\<lambda>_. Inr Null)\<rparr>\<rparr>
     ''http://api'' [PlaceOrderResponse (Obj [(''id'', Number (IntV 42))]), Login ''t'',
       OrderDetailResult (Response (Obj [(''id'', Number (IntV 7))])), Reload 0]
     (app_boot ''http://api'' Map.empty 0)) =
   ref_run [PlaceOrderResponse (Obj [(''id'', Number (IntV 42))]), Login ''t'',
       OrderDetailResult (Response (Obj [(''id'', Number (IntV 7))])), Reload 0]
     (abs_app (app_boot ''http://api'' Map.empty 0))"
  by (rule app_refines_order_ref) (simp add: response_order_id_def)

text \<open>C21: on every run from a page load whose order responses carry integer ids,
  latestOrderId keeps its declared type number | null.\<close>

theorem latest_order_id_typed:
  assumes "list_all numeric_event es"
  shows "number_or_null (latest_order_id (app_orders (app_run ts base es (app_boot base st now))))"
proof -
  have "number_or_null (latest_order_id (app_orders (app_run ts base es s)))"
    if "number_or_null (latest_order_id (app_orders s))" for s
    using assms that
    by (induction es arbitrary: s) (simp_all add: app_step_number_or_null)
  moreover have "number_or_null (latest_order_id (app_orders (app_boot base st now)))"
    by (simp add: app_boot_def order_service_init_def split: option.splits)
  ultimately show ?thesis .
qed

theorem latest_order_id_typed_witness:
  "number_or_null (latest_order_id (app_orders (app_run
     \<lparr>has_local_storage = True, jwt_helper = \<lparr>url_base64_decode = Inr, json_parse = (\<lambda>_. Inr Null)\<rparr>\<rparr>
     ''http://api'' [PlaceOrderResponse (Obj [(''id'', Number (IntV 42))]), HeaderClick 2, Reload 0]
     (app_boot ''http://api'' [LATEST_ORDER_KEY \<mapsto> ''abc''] 0))))"
  by (rule latest_order_id_typed) (simp add: response_order_id_def)

end
