(* ===== verification/JsonParse.thy ===== *)
theory JsonParse
  imports JsValue
begin

text \<open>\<open>JSON.parse\<close> (ECMA-262 25.5.1, grammar of ECMA-404), which angular-jwt's
  \<open>decodeToken\<close> applies to the decoded payload.  Strings are byte strings (the
  UTF-8 encoding of the JavaScript string, WTF-8 for a lone surrogate), so a \<open>u\<close>-escape
  (backslash, \<open>u\<close>, four hex digits) yields the bytes of its code point and an escaped surrogate pair yields one
  four-byte sequence.  Numbers are exact integers: a literal with a fraction or an
  exponent is read exactly and is \<open>NaN\<close> when its value is not an integer (the
  model's number type has integers only).  The recursive descent carries a fuel
  argument; \<open>json_fuel\<close> is proved enough for every input, and more fuel gives the
  same result.  \<open>json_text\<close> is the JSON text of a value, as an encoder writes it; the
  round-trip lemma reads it back.\<close>

definition json_ws :: "char \<Rightarrow> bool" where
  "json_ws c \<longleftrightarrow> c \<in> set [CHR '' '', CHR 0x09, CHR 0x0A, CHR 0x0D]"

abbreviation skip_ws :: "string \<Rightarrow> string" where
  "skip_ws \<equiv> dropWhile json_ws"

abbreviation is_digit :: "char \<Rightarrow> bool" where
  "is_digit \<equiv> is_radix_digit 10"

definition quote_char :: char where "quote_char = CHR 0x22"
definition backslash :: char where "backslash = CHR 0x5C"

definition json_syntax_error :: js_error where
  "json_syntax_error = SyntaxError ''Unexpected token in JSON''"

subsection \<open>Code points and WTF-8\<close>

definition utf8_encode :: "nat \<Rightarrow> string" where
  "utf8_encode cp =
     (if cp < 0x80 then [char_of cp]
      else if cp < 0x800 then [char_of (0xC0 + cp div 64), char_of (0x80 + cp mod 64)]
      else if cp < 0x10000 then
        [char_of (0xE0 + cp div 4096), char_of (0x80 + (cp div 64) mod 64), char_of (0x80 + cp mod 64)]
      else [char_of (0xF0 + cp div 262144), char_of (0x80 + (cp div 4096) mod 64),
            char_of (0x80 + (cp div 64) mod 64), char_of (0x80 + cp mod 64)])"

definition hex4 :: "string \<Rightarrow> (nat \<times> string) option" where
  "hex4 s =
     (if 4 \<le> length s \<and> list_all (is_radix_digit 16) (take 4 s)
      then Some (read_radix 16 (take 4 s), drop 4 s) else None)"

definition json_escape_char :: "char \<Rightarrow> char option" where
  "json_escape_char e =
     (if e = quote_char then Some quote_char
      else if e = backslash then Some backslash
      else if e = CHR ''/'' then Some CHR ''/''
      else if e = CHR ''b'' then Some (CHR 0x08)
      else if e = CHR ''f'' then Some (CHR 0x0C)
      else if e = CHR ''n'' then Some (CHR 0x0A)
      else if e = CHR ''r'' then Some (CHR 0x0D)
      else if e = CHR ''t'' then Some (CHR 0x09)
      else None)"

text \<open>The text after a backslash in a string: a one-character escape, or
  \<open>u\<close> and four hex digits, where a high surrogate followed by an escaped low surrogate makes one
  code point and any other surrogate stands alone (its WTF-8 bytes).\<close>

definition json_escape :: "string \<Rightarrow> (string \<times> string) option" where
  "json_escape s =
     (case s of
        [] \<Rightarrow> None
      | e # r \<Rightarrow>
          if e = CHR ''u'' then
            (case hex4 r of
               None \<Rightarrow> None
             | Some (u, r1) \<Rightarrow>
                 if 0xD800 \<le> u \<and> u < 0xDC00 \<and> take 2 r1 = [backslash, CHR ''u''] then
                   (case hex4 (drop 2 r1) of
                      Some (u2, r3) \<Rightarrow>
                        if 0xDC00 \<le> u2 \<and> u2 < 0xE000 then
                          Some (utf8_encode (0x10000 + (u - 0xD800) * 0x400 + (u2 - 0xDC00)), r3)
                        else Some (utf8_encode u, r1)
                    | None \<Rightarrow> Some (utf8_encode u, r1))
                 else Some (utf8_encode u, r1))
          else
            (case json_escape_char e of
               None \<Rightarrow> None
             | Some x \<Rightarrow> Some ([x], r)))"

function json_string :: "string \<Rightarrow> (string \<times> string) option" where
  "json_string [] = None"
| "json_string (c # cs) =
     (if c = quote_char then Some ([], cs)
      else if c = backslash then
        (case json_escape cs of
           None \<Rightarrow> None
         | Some (x, r) \<Rightarrow> map_option (\<lambda>(s, rest). (x @ s, rest)) (json_string r))
      else if of_char c < (32::nat) then None
      else map_option (\<lambda>(s, rest). (c # s, rest)) (json_string cs))"
  by pat_completeness auto
termination
  by (relation "measure length")
    (auto simp: json_escape_def hex4_def split: list.splits option.splits if_splits)

subsection \<open>Numbers\<close>

definition json_int_part :: "string \<Rightarrow> (string \<times> string) option" where
  "json_int_part s =
     (case s of
        [] \<Rightarrow> None
      | c # r \<Rightarrow>
          if c = CHR ''0'' then Some (''0'', r)
          else if is_digit c then Some (c # takeWhile is_digit r, dropWhile is_digit r)
          else None)"

definition json_frac :: "string \<Rightarrow> (string \<times> string) option" where
  "json_frac s =
     (case s of
        c # r \<Rightarrow>
          if c = CHR ''.'' then
            (if takeWhile is_digit r = [] then None
             else Some (takeWhile is_digit r, dropWhile is_digit r))
          else Some ([], s)
      | [] \<Rightarrow> Some ([], s))"

definition json_exp :: "string \<Rightarrow> (int \<times> string) option" where
  "json_exp s =
     (case s of
        c # r \<Rightarrow>
          if c = CHR ''e'' \<or> c = CHR ''E'' then
            (let (neg, t) = (case r of
                               d # t \<Rightarrow> if d = CHR ''-'' then (True, t)
                                        else if d = CHR ''+'' then (False, t) else (False, r)
                             | [] \<Rightarrow> (False, r)) in
             if takeWhile is_digit t = [] then None
             else Some ((if neg then - 1 else 1) * int (read_radix 10 (takeWhile is_digit t)),
                        dropWhile is_digit t))
          else Some (0, s)
      | [] \<Rightarrow> Some (0, s))"

definition json_mag :: "nat \<Rightarrow> int \<Rightarrow> jsnum" where
  "json_mag m e =
     (if 0 \<le> e then IntV (int m * 10 ^ nat e)
      else if int m mod 10 ^ nat (- e) = 0 then IntV (int m div 10 ^ nat (- e))
      else NaN)"

definition json_number :: "string \<Rightarrow> (jsnum \<times> string) option" where
  "json_number s =
     (let (neg, s1) = (case s of c # r \<Rightarrow> if c = CHR ''-'' then (True, r) else (False, s)
                                | [] \<Rightarrow> (False, s)) in
      case json_int_part s1 of
        None \<Rightarrow> None
      | Some (ip, s2) \<Rightarrow>
          (case json_frac s2 of
             None \<Rightarrow> None
           | Some (fp, s3) \<Rightarrow>
               (case json_exp s3 of
                  None \<Rightarrow> None
                | Some (e, s4) \<Rightarrow>
                    let n = json_mag (read_radix 10 (ip @ fp)) (e - int (length fp)) in
                    Some (if neg then (case n of IntV i \<Rightarrow> IntV (- i) | NaN \<Rightarrow> NaN) else n, s4))))"

subsection \<open>Values\<close>

definition starts_with :: "string \<Rightarrow> string \<Rightarrow> bool" where
  "starts_with p s \<longleftrightarrow> take (length p) s = p"

text \<open>A string, a literal or a number: the values with no nested value.\<close>

definition json_scalar :: "string \<Rightarrow> (jsval \<times> string) option" where
  "json_scalar s =
     (case s of
        [] \<Rightarrow> None
      | c # r \<Rightarrow>
          if c = quote_char then map_option (\<lambda>(str, r'). (Str str, r')) (json_string r)
          else if starts_with ''true'' s then Some (Bool True, drop 4 s)
          else if starts_with ''false'' s then Some (Bool False, drop 5 s)
          else if starts_with ''null'' s then Some (Null, drop 4 s)
          else map_option (\<lambda>(n, r'). (Number n, r')) (json_number s))"

fun json_value :: "nat \<Rightarrow> string \<Rightarrow> (js_error + jsval \<times> string) option"
and json_array :: "nat \<Rightarrow> jsval list \<Rightarrow> string \<Rightarrow> (js_error + jsval \<times> string) option"
and json_object :: "nat \<Rightarrow> (string \<times> jsval) list \<Rightarrow> string \<Rightarrow> (js_error + jsval \<times> string) option"
where
  "json_value 0 s = None"
| "json_value (Suc f) s =
     (case skip_ws s of
        [] \<Rightarrow> Some (Inl json_syntax_error)
      | c # r \<Rightarrow>
          if c = CHR ''['' then
            (case skip_ws r of
               d # r' \<Rightarrow> if d = CHR '']'' then Some (Inr (Arr [], r')) else json_array f [] r
             | [] \<Rightarrow> json_array f [] r)
          else if c = CHR ''{'' then
            (case skip_ws r of
               d # r' \<Rightarrow> if d = CHR ''}'' then Some (Inr (Obj [], r')) else json_object f [] r
             | [] \<Rightarrow> json_object f [] r)
          else
            Some (case json_scalar (c # r) of
                    Some (v, r') \<Rightarrow> Inr (v, r')
                  | None \<Rightarrow> Inl json_syntax_error))"
| "json_array 0 acc s = None"
| "json_array (Suc f) acc s =
     (case json_value f s of
        None \<Rightarrow> None
      | Some (Inl e) \<Rightarrow> Some (Inl e)
      | Some (Inr (v, r)) \<Rightarrow>
          (case skip_ws r of
             c # r' \<Rightarrow>
               if c = CHR '','' then json_array f (acc @ [v]) r'
               else if c = CHR '']'' then Some (Inr (Arr (acc @ [v]), r'))
               else Some (Inl json_syntax_error)
           | [] \<Rightarrow> Some (Inl json_syntax_error)))"
| "json_object 0 acc s = None"
| "json_object (Suc f) acc s =
     (case skip_ws s of
        c # r \<Rightarrow>
          if c = quote_char then
            (case json_string r of
               None \<Rightarrow> Some (Inl json_syntax_error)
             | Some (k, r1) \<Rightarrow>
                 (case skip_ws r1 of
                    d # r2 \<Rightarrow>
                      if d = CHR '':'' then
                        (case json_value f r2 of
                           None \<Rightarrow> None
                         | Some (Inl e) \<Rightarrow> Some (Inl e)
                         | Some (Inr (v, r3)) \<Rightarrow>
                             (case skip_ws r3 of
                                x # r4 \<Rightarrow>
                                  if x = CHR '','' then json_object f (acc @ [(k, v)]) r4
                                  else if x = CHR ''}'' then Some (Inr (Obj (acc @ [(k, v)]), r4))
                                  else Some (Inl json_syntax_error)
                              | [] \<Rightarrow> Some (Inl json_syntax_error)))
                      else Some (Inl json_syntax_error)
                  | [] \<Rightarrow> Some (Inl json_syntax_error)))
          else Some (Inl json_syntax_error)
      | [] \<Rightarrow> Some (Inl json_syntax_error))"

definition json_fuel :: "string \<Rightarrow> nat" where
  "json_fuel s = 2 * length s + 1"

definition JSON_parse :: "string \<Rightarrow> js_error + jsval" where
  "JSON_parse s =
     (case json_value (json_fuel s) s of
        None \<Rightarrow> Inl (Error ''JSON nesting exceeds the parser's fuel'')
      | Some (Inl e) \<Rightarrow> Inl e
      | Some (Inr (v, r)) \<Rightarrow>
          if skip_ws r = [] then Inr v
          else Inl (SyntaxError ''Unexpected non-whitespace character after JSON''))"


subsection \<open>JSON text of a value\<close>

text \<open>The text a JSON encoder writes for a value (used for the payloads the
  round-trip lemmas build): strings with quotes, backslashes and control characters escaped,
  integers in decimal, arrays and objects with their elements in order.\<close>

definition hex_digit :: "nat \<Rightarrow> char" where
  "hex_digit d = (if d < 10 then digit_char d else char_of (87 + d))"

definition json_escape_out :: "char \<Rightarrow> string" where
  "json_escape_out c =
     (if c = quote_char then [backslash, quote_char]
      else if c = backslash then [backslash, backslash]
      else if of_char c < (32::nat) then
        [backslash, CHR ''u'', CHR ''0'', CHR ''0'',
         hex_digit (of_char c div 16), hex_digit (of_char c mod 16)]
      else [c])"

definition json_quote :: "string \<Rightarrow> string" where
  "json_quote s = quote_char # concat (map json_escape_out s) @ [quote_char]"

fun json_text :: "jsval \<Rightarrow> string" where
  "json_text Undefined = ''null''"
| "json_text Null = ''null''"
| "json_text (Bool b) = (if b then ''true'' else ''false'')"
| "json_text (Number (IntV i)) = show_int i"
| "json_text (Number NaN) = ''null''"
| "json_text (Str s) = json_quote s"
| "json_text (Arr vs) = CHR ''['' # join_with '','' (map json_text vs) @ '']''"
| "json_text (Obj kvs) =
     CHR ''{'' # join_with '','' (map (\<lambda>kv. json_quote (fst kv) @ CHR '':'' # json_text (snd kv)) kvs)
     @ ''}''"

abbreviation json_member_text :: "string \<times> jsval \<Rightarrow> string" where
  "json_member_text kv \<equiv> json_quote (fst kv) @ CHR '':'' # json_text (snd kv)"

text \<open>What may follow a value inside a JSON text.\<close>

fun json_delim :: "string \<Rightarrow> bool" where
  "json_delim [] = True"
| "json_delim (c # r) = (c = CHR '','' \<or> c = CHR '']'' \<or> c = CHR ''}'')"

text \<open>The values a JSON text denotes: no \<open>undefined\<close> and no \<open>NaN\<close>.\<close>

fun json_ok :: "jsval \<Rightarrow> bool" where
  "json_ok Undefined = False"
| "json_ok (Number NaN) = False"
| "json_ok (Arr vs) = list_all json_ok vs"
| "json_ok (Obj kvs) = list_all (\<lambda>kv. json_ok (snd kv)) kvs"
| "json_ok _ = True"

subsection \<open>Every parse consumes input\<close>

lemma hex4_length: "hex4 s = Some (u, r) \<Longrightarrow> length r < length s"
  by (auto simp: hex4_def split: if_splits)

lemma json_escape_length: "json_escape s = Some (x, r) \<Longrightarrow> length r < length s"
  unfolding json_escape_def
  by (auto split: list.splits option.splits if_splits dest!: hex4_length)

lemma skip_ws_length [simp]: "length (skip_ws s) \<le> length s"
  by (simp add: length_dropWhile_le)

lemma map_option_prepend_Some [simp]:
  "map_option (\<lambda>(s, rest). (p s, rest)) m = Some (x, r) \<longleftrightarrow> (\<exists>y. m = Some (y, r) \<and> x = p y)"
  by (cases m) auto

lemma json_string_length: "json_string s = Some (x, r) \<Longrightarrow> length r < length s"
  by (induction s arbitrary: x rule: json_string.induct)
    (fastforce split: if_splits option.splits dest: json_escape_length)+
lemma json_int_part_length: "json_int_part s = Some (p, r) \<Longrightarrow> length r < length s"
  unfolding json_int_part_def
  by (auto split: list.splits if_splits simp: length_dropWhile_le le_imp_less_Suc)

lemma json_frac_length: "json_frac s = Some (p, r) \<Longrightarrow> length r \<le> length s"
  unfolding json_frac_def
  by (auto split: list.splits if_splits simp: length_dropWhile_le le_SucI)

lemma json_exp_length: "json_exp s = Some (e, r) \<Longrightarrow> length r \<le> length s"
  unfolding json_exp_def
  by (auto split: list.splits if_splits prod.splits simp: Let_def length_dropWhile_le le_SucI
      intro: order.trans [OF length_dropWhile_le])

lemma json_number_length: "json_number s = Some (n, r) \<Longrightarrow> length r < length s"
  unfolding json_number_def
  by (fastforce split: list.splits if_splits option.splits prod.splits
      dest!: json_int_part_length json_frac_length json_exp_length)

lemma skip_ws_Cons: "skip_ws s = c # r \<Longrightarrow> length r < length s"
  using length_dropWhile_le [of json_ws s] by simp

lemma json_scalar_length: "json_scalar s = Some (v, r) \<Longrightarrow> length r < length s"
  unfolding json_scalar_def starts_with_def
  by (auto split: list.splits if_splits dest!: json_string_length json_number_length)

lemma open_bracket_length:
  assumes "(case skip_ws r0 of [] \<Rightarrow> g | d # r' \<Rightarrow> if d = x then Some (Inr (w, r')) else g)
           = Some (Inr (v, r))"
    and "g = Some (Inr (v, r)) \<Longrightarrow> length r < length r0"
  shows "length r < length r0"
  using assms by (cases "skip_ws r0") (auto split: if_splits dest: skip_ws_Cons)

lemma json_value_Suc_length:
  assumes IH: "(\<forall>acc s v r. json_array f acc s = Some (Inr (v, r)) \<longrightarrow> length r < length s) \<and>
     (\<forall>kvs s v r. json_object f kvs s = Some (Inr (v, r)) \<longrightarrow> length r < length s)"
    and run: "json_value (Suc f) s = Some (Inr (v, r))"
  shows "length r < length s"
proof -
  have IHa: "\<And>acc s v r. json_array f acc s = Some (Inr (v, r)) \<Longrightarrow> length r < length s"
    and IHo: "\<And>kvs s v r. json_object f kvs s = Some (Inr (v, r)) \<Longrightarrow> length r < length s"
    using IH by blast+
  obtain c r0 where sk: "skip_ws s = c # r0"
    using run by (cases "skip_ws s") simp_all
  have l0: "length r0 < length s" using sk by (rule skip_ws_Cons)
  consider "c = CHR ''[''" | "c = CHR ''{''" | "c \<noteq> CHR ''[''" "c \<noteq> CHR ''{''" by blast
  then show ?thesis
  proof cases
    case 1
    with run have "(case skip_ws r0 of [] \<Rightarrow> json_array f [] r0 | d # r' \<Rightarrow>
        if d = CHR '']'' then Some (Inr (Arr [], r')) else json_array f [] r0) = Some (Inr (v, r))"
      by (simp only: json_value.simps sk list.case simp_thms if_True)
    then show ?thesis using l0 IHa open_bracket_length by fastforce
  next
    case 2
    with run have "(case skip_ws r0 of [] \<Rightarrow> json_object f [] r0 | d # r' \<Rightarrow>
        if d = CHR ''}'' then Some (Inr (Obj [], r')) else json_object f [] r0) = Some (Inr (v, r))"
      by (simp only: json_value.simps sk list.case simp_thms if_True if_False) simp
    then show ?thesis using l0 IHo open_bracket_length by fastforce
  next
    case 3
    with run have "Some (case json_scalar (c # r0) of
        None \<Rightarrow> Inl json_syntax_error | Some (v, r') \<Rightarrow> Inr (v, r')) = Some (Inr (v, r))"
      by (simp only: json_value.simps sk list.case simp_thms if_False)
    then have "json_scalar (c # r0) = Some (v, r)"
      by (auto split: option.splits)
    with l0 show ?thesis by (auto dest!: json_scalar_length)
  qed
qed

lemma json_array_Suc_length:
  assumes IH: "(\<forall>s v r. json_value f s = Some (Inr (v, r)) \<longrightarrow> length r < length s) \<and>
     (\<forall>acc s v r. json_array f acc s = Some (Inr (v, r)) \<longrightarrow> length r < length s)"
    and run: "json_array (Suc f) acc s = Some (Inr (v, r))"
  shows "length r < length s"
proof -
  have IHv: "\<And>s v r. json_value f s = Some (Inr (v, r)) \<Longrightarrow> length r < length s"
    and IHa: "\<And>acc s v r. json_array f acc s = Some (Inr (v, r)) \<Longrightarrow> length r < length s"
    using IH by blast+
  show ?thesis using run
  by (fastforce split: option.split_asm sum.split_asm list.split_asm if_split_asm
      dest!: IHv IHa skip_ws_Cons)
qed

lemma json_object_Suc_length:
  assumes IH: "(\<forall>s v r. json_value f s = Some (Inr (v, r)) \<longrightarrow> length r < length s) \<and>
     (\<forall>kvs s v r. json_object f kvs s = Some (Inr (v, r)) \<longrightarrow> length r < length s)"
    and run: "json_object (Suc f) kvs s = Some (Inr (v, r))"
  shows "length r < length s"
proof -
  have IHv: "\<And>s v r. json_value f s = Some (Inr (v, r)) \<Longrightarrow> length r < length s"
    and IHo: "\<And>kvs s v r. json_object f kvs s = Some (Inr (v, r)) \<Longrightarrow> length r < length s"
    using IH by blast+
  show ?thesis using run
  by (fastforce split: option.split_asm sum.split_asm list.split_asm if_split_asm
      dest!: IHv IHo skip_ws_Cons json_string_length)
qed

lemma json_parse_length:
  "(\<forall>s v r. json_value f s = Some (Inr (v, r)) \<longrightarrow> length r < length s) \<and>
   (\<forall>acc s v r. json_array f acc s = Some (Inr (v, r)) \<longrightarrow> length r < length s) \<and>
   (\<forall>kvs s v r. json_object f kvs s = Some (Inr (v, r)) \<longrightarrow> length r < length s)"
proof (induction f)
  case 0
  show ?case by simp
next
  case (Suc f)
  show ?case
  proof (intro conjI allI impI)
    fix s v r
    assume "json_value (Suc f) s = Some (Inr (v, r))"
    with Suc.IH show "length r < length s" using json_value_Suc_length [of f s v r] by blast
  next
    fix acc s v r
    assume "json_array (Suc f) acc s = Some (Inr (v, r))"
    with Suc.IH show "length r < length s" using json_array_Suc_length [of f acc s v r] by blast
  next
    fix kvs s v r
    assume "json_object (Suc f) kvs s = Some (Inr (v, r))"
    with Suc.IH show "length r < length s" using json_object_Suc_length [of f kvs s v r] by blast
  qed
qed

subsection \<open>The fuel is enough, and more fuel changes nothing\<close>

declare dropWhile_eq_Nil_conv [simp del] dropWhile_eq_Cons_conv [simp del]

lemma json_value_progress: "json_value f s = Some (Inr (v, r)) \<Longrightarrow> length r < length s"
  using json_parse_length by blast

lemma open_bracket_fuel:
  assumes "g \<noteq> None"
  shows "(case skip_ws r0 of [] \<Rightarrow> g | d # r' \<Rightarrow> if d = x then Some (Inr (w, r')) else g) \<noteq> None"
  using assms by (auto split: list.split)

lemma json_value_Suc_fuel:
  assumes IH: "(\<forall>acc s. 2 * length s + 1 < f \<longrightarrow> json_array f acc s \<noteq> None) \<and>
     (\<forall>kvs s. 2 * length s + 1 < f \<longrightarrow> json_object f kvs s \<noteq> None)"
    and fuel: "2 * length s < Suc f"
  shows "json_value (Suc f) s \<noteq> None"
proof (cases "skip_ws s")
  case Nil
  show ?thesis unfolding json_value.simps Nil by simp
next
  case (Cons c r0)
  then have "length r0 < length s" by (rule skip_ws_Cons)
  with fuel IH have a: "json_array f [] r0 \<noteq> None" and o: "json_object f [] r0 \<noteq> None"
    by auto
  show ?thesis
    using open_bracket_fuel [OF a] open_bracket_fuel [OF o]
    unfolding json_value.simps Cons by (simp split: option.split)
qed

lemma json_array_Suc_fuel:
  assumes IH: "(\<forall>s. 2 * length s < f \<longrightarrow> json_value f s \<noteq> None) \<and>
     (\<forall>acc s. 2 * length s + 1 < f \<longrightarrow> json_array f acc s \<noteq> None)"
    and fuel: "2 * length s + 1 < Suc f"
  shows "json_array (Suc f) acc s \<noteq> None"
proof -
  from IH fuel obtain x where x: "json_value f s = Some x" by fastforce
  show ?thesis
  proof (cases x)
    case (Inl e)
    then show ?thesis by (simp add: x)
  next
    case (Inr p)
    obtain v r where p: "p = (v, r)" by fastforce
    have "length r < length s" using x Inr p json_value_progress by blast
    then have "2 * length r' + 1 < f" if "skip_ws r = c # r'" for c r'
      using skip_ws_Cons [OF that] fuel by linarith
    with IH show ?thesis
      by (auto simp: x Inr p split: list.split)
  qed
qed

lemma json_object_Suc_fuel:
  assumes IH: "(\<forall>s. 2 * length s < f \<longrightarrow> json_value f s \<noteq> None) \<and>
     (\<forall>kvs s. 2 * length s + 1 < f \<longrightarrow> json_object f kvs s \<noteq> None)"
    and fuel: "2 * length s + 1 < Suc f"
  shows "json_object (Suc f) kvs s \<noteq> None"
proof -
  have hv: "json_value f r2 \<noteq> None"
    if "skip_ws s = c # r" "json_string r = Some (k, r1)" "skip_ws r1 = d # r2" for c r k r1 d r2
    using skip_ws_Cons [OF that(1)] json_string_length [OF that(2)] skip_ws_Cons [OF that(3)]
      fuel IH by auto
  have ho: "json_object f kvs' r4 \<noteq> None"
    if "skip_ws s = c # r" "json_string r = Some (k, r1)" "skip_ws r1 = d # r2"
      "json_value f r2 = Some (Inr (v, r3))" "skip_ws r3 = x # r4" for c r k r1 d r2 v r3 x r4 kvs'
    using skip_ws_Cons [OF that(1)] json_string_length [OF that(2)] skip_ws_Cons [OF that(3)]
      json_value_progress [OF that(4)] skip_ws_Cons [OF that(5)] fuel IH by auto
  show ?thesis
    unfolding json_object.simps
    by (auto split: list.split option.split sum.split dest: hv ho)
qed

lemma json_parse_fuel:
  "(\<forall>s. 2 * length s < f \<longrightarrow> json_value f s \<noteq> None) \<and>
   (\<forall>acc s. 2 * length s + 1 < f \<longrightarrow> json_array f acc s \<noteq> None) \<and>
   (\<forall>kvs s. 2 * length s + 1 < f \<longrightarrow> json_object f kvs s \<noteq> None)"
proof (induction f)
  case 0
  show ?case by simp
next
  case (Suc f)
  show ?case
  proof (intro conjI allI impI)
    fix s :: string
    assume "2 * length s < Suc f"
    with Suc.IH show "json_value (Suc f) s \<noteq> None" using json_value_Suc_fuel [of f s] by blast
  next
    fix acc and s :: string
    assume "2 * length s + 1 < Suc f"
    with Suc.IH show "json_array (Suc f) acc s \<noteq> None" using json_array_Suc_fuel [of f s acc] by blast
  next
    fix kvs and s :: string
    assume "2 * length s + 1 < Suc f"
    with Suc.IH show "json_object (Suc f) kvs s \<noteq> None" using json_object_Suc_fuel [of f s kvs] by blast
  qed
qed

lemma json_object_Suc_cong:
  assumes run: "json_object (Suc f) kvs s \<noteq> None"
    and v: "\<And>r. json_value f r \<noteq> None \<Longrightarrow> json_value g r = json_value f r"
    and o: "\<And>kvs r. json_object f kvs r \<noteq> None \<Longrightarrow> json_object g kvs r = json_object f kvs r"
  shows "json_object (Suc g) kvs s = json_object (Suc f) kvs s"
proof -
  have tail: "(case json_value g r2 of None \<Rightarrow> None | Some (Inl e) \<Rightarrow> Some (Inl e)
        | Some (Inr (v, r3)) \<Rightarrow> B g v r3) =
      (case json_value f r2 of None \<Rightarrow> None | Some (Inl e) \<Rightarrow> Some (Inl e)
        | Some (Inr (v, r3)) \<Rightarrow> B f v r3)"
    if "(case json_value f r2 of None \<Rightarrow> None | Some (Inl e) \<Rightarrow> Some (Inl e)
        | Some (Inr (v, r3)) \<Rightarrow> B f v r3) \<noteq> None"
      "\<And>v r3. B f v r3 \<noteq> None \<Longrightarrow> B g v r3 = B f v r3"
    for r2 and B :: "nat \<Rightarrow> jsval \<Rightarrow> string \<Rightarrow> (js_error + jsval \<times> string) option"
    using that v [of r2] by (cases "json_value f r2") (auto split: sum.split)
  have rest: "(case skip_ws r3 of x # r4 \<Rightarrow>
        if x = CHR '','' then json_object g (acc @ [(k, w)]) r4
        else if x = CHR ''}'' then Some (Inr (Obj (acc @ [(k, w)]), r4))
        else Some (Inl json_syntax_error)
      | [] \<Rightarrow> Some (Inl json_syntax_error)) =
      (case skip_ws r3 of x # r4 \<Rightarrow>
        if x = CHR '','' then json_object f (acc @ [(k, w)]) r4
        else if x = CHR ''}'' then Some (Inr (Obj (acc @ [(k, w)]), r4))
        else Some (Inl json_syntax_error)
      | [] \<Rightarrow> Some (Inl json_syntax_error))"
    if "(case skip_ws r3 of x # r4 \<Rightarrow>
        if x = CHR '','' then json_object f (acc @ [(k, w)]) r4
        else if x = CHR ''}'' then Some (Inr (Obj (acc @ [(k, w)]), r4))
        else Some (Inl json_syntax_error)
      | [] \<Rightarrow> Some (Inl json_syntax_error)) \<noteq> None" for r3 acc k w
    using that o by (cases "skip_ws r3") auto
  show ?thesis
    using run unfolding json_object.simps
    by (auto split: list.split_asm option.split_asm if_split_asm sum.split_asm simp: v rest)
qed

lemma json_parse_mono:
  "(\<forall>s g. json_value f s \<noteq> None \<longrightarrow> f \<le> g \<longrightarrow> json_value g s = json_value f s) \<and>
   (\<forall>acc s g. json_array f acc s \<noteq> None \<longrightarrow> f \<le> g \<longrightarrow> json_array g acc s = json_array f acc s) \<and>
   (\<forall>kvs s g. json_object f kvs s \<noteq> None \<longrightarrow> f \<le> g \<longrightarrow> json_object g kvs s = json_object f kvs s)"
proof (induction f)
  case 0
  show ?case by simp
next
  case (Suc f)
  have v: "json_value g s = json_value f s" if "json_value f s \<noteq> None" "f \<le> g" for s g
    using Suc.IH that by blast
  have a: "json_array g acc s = json_array f acc s" if "json_array f acc s \<noteq> None" "f \<le> g" for acc s g
    using Suc.IH that by blast
  have o: "json_object g kvs s = json_object f kvs s" if "json_object f kvs s \<noteq> None" "f \<le> g" for kvs s g
    using Suc.IH that by blast
  show ?case
  proof (intro conjI allI impI)
    fix s :: string and g
    assume "json_value (Suc f) s \<noteq> None" "Suc f \<le> g"
    then obtain g' where "g = Suc g'" "f \<le> g'" by (cases g) auto
    with \<open>json_value (Suc f) s \<noteq> None\<close> show "json_value g s = json_value (Suc f) s"
      by (auto split: list.split if_split simp del: dropWhile_eq_Nil_conv intro!: a o)
  next
    fix acc and s :: string and g
    assume "json_array (Suc f) acc s \<noteq> None" "Suc f \<le> g"
    then obtain g' where "g = Suc g'" "f \<le> g'" by (cases g) auto
    with \<open>json_array (Suc f) acc s \<noteq> None\<close> show "json_array g acc s = json_array (Suc f) acc s"
      by (auto split: list.split_asm option.split_asm if_split_asm sum.split_asm simp: v a)
  next
    fix kvs and s :: string and g
    assume "json_object (Suc f) kvs s \<noteq> None" "Suc f \<le> g"
    then obtain g' where "g = Suc g'" "f \<le> g'" by (cases g) auto
    with \<open>json_object (Suc f) kvs s \<noteq> None\<close> show "json_object g kvs s = json_object (Suc f) kvs s"
      using json_object_Suc_cong [of f kvs s g'] v o by blast
  qed
qed

subsection \<open>Reading back the JSON text of a value\<close>

lemma json_special_chars [simp]:
  "quote_char \<noteq> backslash" "backslash \<noteq> quote_char"
  "CHR ''u'' \<noteq> quote_char" "CHR ''u'' \<noteq> backslash"
  "quote_char \<noteq> CHR ''u''" "backslash \<noteq> CHR ''u''"
  "of_char quote_char = (34::nat)" "of_char backslash = (92::nat)"
  by (simp_all add: quote_char_def backslash_def)

lemma hex_digit_value: "d < 16 \<Longrightarrow> digit_value (hex_digit d) = Some d"
  by (auto simp: hex_digit_def digit_char_def digit_value_def)

lemma digit_value_zero [simp]: "digit_value CHR ''0'' = Some 0"
  by (simp add: digit_value_def)

lemma read_radix_hex2:
  assumes "n < (256::nat)"
  shows "read_radix 16 [CHR ''0'', CHR ''0'', hex_digit (n div 16), hex_digit (n mod 16)] = n"
  using assms by (simp add: read_radix_def digit_of_def hex_digit_value)

lemma hex4_escape:
  assumes "n < (256::nat)"
  shows "hex4 (CHR ''0'' # CHR ''0'' # hex_digit (n div 16) # hex_digit (n mod 16) # r) = Some (n, r)"
  using assms read_radix_hex2 [OF assms]
  by (simp add: hex4_def is_radix_digit_def hex_digit_value less_mult_imp_div_less)

lemma json_escape_out_read:
  "json_escape (tl (json_escape_out c) @ r) = Some ([c], r)" if "json_escape_out c \<noteq> [c]"
proof -
  have lt: "of_char c < (256::nat)" by simp
  consider "c = quote_char" | "c = backslash" | "c \<noteq> quote_char" "c \<noteq> backslash" "of_char c < (32::nat)"
    | "c \<noteq> quote_char" "c \<noteq> backslash" "\<not> of_char c < (32::nat)" by blast
  then show ?thesis
  proof cases
    case 1 then show ?thesis
      by (simp add: json_escape_out_def json_escape_def json_escape_char_def)
  next
    case 2 then show ?thesis
      by (simp add: json_escape_out_def json_escape_def json_escape_char_def)
  next
    case 3
    then have "tl (json_escape_out c) @ r = CHR ''u'' # CHR ''0'' # CHR ''0'' #
        hex_digit (of_char c div 16) # hex_digit (of_char c mod 16) # r"
      by (simp add: json_escape_out_def)
    then have "json_escape (tl (json_escape_out c) @ r) = Some (utf8_encode (of_char c), r)"
      using 3 by (simp add: json_escape_def hex4_escape [OF lt])
    with 3 show ?thesis by (simp add: utf8_encode_def)
  next
    case 4 with that show ?thesis using 4 by (simp add: json_escape_out_def)
  qed
qed

lemma json_escape_out_head:
  "json_escape_out c \<noteq> [c] \<Longrightarrow> \<exists>t. json_escape_out c = backslash # t"
  by (simp add: json_escape_out_def split: if_splits)

lemma json_string_escaped:
  "json_string (concat (map json_escape_out s) @ quote_char # rest) = Some (s, rest)"
proof (induction s)
  case Nil
  show ?case by simp
next
  case (Cons c s)
  show ?case
  proof (cases "json_escape_out c = [c]")
    case True
    then have "c \<noteq> quote_char" "c \<noteq> backslash" "\<not> of_char c < (32::nat)"
      by (auto simp: json_escape_out_def split: if_splits)
    with True Cons.IH show ?thesis by simp
  next
    case False
    then obtain t where t: "json_escape_out c = backslash # t"
      using json_escape_out_head by blast
    from json_escape_out_read [OF False, of "concat (map json_escape_out s) @ quote_char # rest"]
    have "json_escape (t @ concat (map json_escape_out s) @ quote_char # rest) =
        Some ([c], concat (map json_escape_out s) @ quote_char # rest)"
      by (simp add: t)
    with Cons.IH show ?thesis by (simp add: t)
  qed
qed
lemma show_nat_zero: "show_nat 0 = ''0''"
  by (subst show_nat_unfold) (simp add: digit_char_def char_of_eq_iff)

lemma show_nat_Cons: "\<exists>c cs. show_nat m = c # cs"
  using show_nat_not_Nil [of m] by (cases "show_nat m") auto

lemma show_nat_hd_zero: "show_nat m = CHR ''0'' # cs \<Longrightarrow> m = 0"
proof (induction m arbitrary: cs rule: show_nat.induct)
  case (1 m)
  show ?case
  proof (cases "m < 10")
    case True
    with "1.prems" show ?thesis
      by (subst (asm) show_nat_unfold) (auto simp: digit_char_def char_of_eq_iff take_bit_eq_mod)
  next
    case False
    obtain c' cs' where c: "show_nat (m div 10) = c' # cs'" using show_nat_Cons by blast
    with False "1.prems" have "c' = CHR ''0''" by (subst (asm) show_nat_unfold) simp
    with "1.IH" [OF False] c have "m div 10 = 0" by blast
    with False show ?thesis by simp
  qed
qed

lemma delim_not_digit:
  "json_delim rest \<Longrightarrow> takeWhile is_digit rest = [] \<and> dropWhile is_digit rest = rest"
  by (cases rest) (auto simp: is_radix_digit_def digit_value_def)

lemma takeWhile_digits:
  assumes "list_all is_digit ds" "json_delim rest"
  shows "takeWhile is_digit (ds @ rest) = ds" "dropWhile is_digit (ds @ rest) = rest"
  using assms delim_not_digit [OF assms(2)]
  by (simp_all add: list_all_iff takeWhile_append2 dropWhile_append2)

lemma json_int_part_show_nat:
  assumes "json_delim rest"
  shows "json_int_part (show_nat m @ rest) = Some (show_nat m, rest)"
proof -
  obtain c cs where c: "show_nat m = c # cs" using show_nat_Cons by blast
  have digits: "is_digit c" "list_all is_digit cs"
    using show_nat_digits [of m] c by simp_all
  show ?thesis
  proof (cases "c = CHR ''0''")
    case True
    with c show_nat_hd_zero have "m = 0" by blast
    then show ?thesis by (simp add: json_int_part_def show_nat_zero)
  next
    case False
    then show ?thesis
      using digits takeWhile_digits [OF digits(2) assms] by (simp add: json_int_part_def c)
  qed
qed

lemma json_delim_frac_exp:
  assumes "json_delim rest"
  shows "json_frac rest = Some ([], rest)" "json_exp rest = Some (0, rest)"
  using assms by (cases rest; auto simp: json_frac_def json_exp_def)+

lemma json_number_digits:
  assumes "json_delim rest"
  shows "json_number (show_nat m @ rest) = Some (IntV (int m), rest)"
    and "json_number (CHR ''-'' # show_nat m @ rest) = Some (IntV (- int m), rest)"
proof -
  obtain c cs where c: "show_nat m = c # cs" using show_nat_Cons by blast
  have "c \<noteq> CHR ''-''"
    using show_nat_digits [of m] c by (auto simp: is_radix_digit_def digit_value_def)
  then show "json_number (show_nat m @ rest) = Some (IntV (int m), rest)"
    "json_number (CHR ''-'' # show_nat m @ rest) = Some (IntV (- int m), rest)"
    using json_int_part_show_nat [OF assms, of m] json_delim_frac_exp [OF assms]
      read_radix_show_nat [of m, unfolded c]
    by (simp_all add: json_number_def json_mag_def read_radix_show_nat c)
qed

lemma json_number_show_int:
  assumes "json_delim rest"
  shows "json_number (show_int n @ rest) = Some (IntV n, rest)"
  using json_number_digits [OF assms, of "nat (- n)"] json_number_digits [OF assms, of "nat n"]
  by (simp add: show_int_def)

lemma show_int_Cons: "\<exists>c t. show_int n = c # t \<and> (c = CHR ''-'' \<or> is_digit c)"
proof -
  obtain c t where "show_nat (nat n) = c # t" using show_nat_Cons by blast
  moreover have "is_digit c" if "show_nat m = c # t" for m c t
    using show_nat_digits [of m] that by simp
  ultimately show ?thesis by (auto simp: show_int_def)
qed

lemma show_int_hd: "hd (show_int n) = CHR ''['' \<or> hd (show_int n) = CHR ''{'' \<Longrightarrow> False"
  using show_int_Cons [of n] by (auto simp: is_radix_digit_def digit_value_def)

lemma json_text_Cons:
  "\<exists>c t. json_text v = c # t \<and> \<not> json_ws c \<and> c \<noteq> CHR '']'' \<and> c \<noteq> CHR ''}''"
proof (cases v rule: json_text.cases)
  case (4 i)
  then show ?thesis using show_int_Cons [of i]
    by (auto simp: json_ws_def is_radix_digit_def digit_value_def)
qed (auto simp: json_ws_def json_quote_def quote_char_def)

lemma skip_ws_text: "skip_ws (json_text v @ r) = json_text v @ r"
  using json_text_Cons [of v] by auto

lemma json_scalar_number: "json_delim rest \<Longrightarrow> json_scalar (show_int n @ rest) = Some (Number (IntV n), rest)"
  using show_int_Cons [of n] json_number_show_int [of rest n]
  by (auto simp: json_scalar_def starts_with_def quote_char_def is_radix_digit_def digit_value_def)

lemma json_scalar_string: "json_scalar (json_quote s @ rest) = Some (Str s, rest)"
  by (simp add: json_scalar_def json_quote_def json_string_escaped)

lemma json_scalar_literals:
  "json_scalar (''null'' @ rest) = Some (Null, rest)"
  "json_scalar (''true'' @ rest) = Some (Bool True, rest)"
  "json_scalar (''false'' @ rest) = Some (Bool False, rest)"
  by (simp_all add: json_scalar_def starts_with_def quote_char_def)

lemma json_delim_sep [simp]:
  "json_delim (CHR '','' # r)" "json_delim (CHR '']'' # r)" "json_delim (CHR ''}'' # r)"
  by simp_all

lemma json_ws_sep [simp]:
  "\<not> json_ws CHR '',''" "\<not> json_ws CHR '']''" "\<not> json_ws CHR ''}''" "\<not> json_ws CHR '':''"
  "\<not> json_ws CHR ''[''" "\<not> json_ws CHR ''{''" "\<not> json_ws quote_char"
  by (simp_all add: json_ws_def quote_char_def)

lemma skip_ws_sep [simp]:
  "skip_ws (CHR '','' # r) = CHR '','' # r" "skip_ws (CHR '']'' # r) = CHR '']'' # r"
  "skip_ws (CHR ''}'' # r) = CHR ''}'' # r" "skip_ws (CHR '':'' # r) = CHR '':'' # r"
  by (simp_all add: json_ws_def)

lemma json_array_text:
  assumes IH: "\<And>v f rest. v \<in> set vs \<Longrightarrow> json_ok v \<Longrightarrow> json_delim rest \<Longrightarrow>
      2 * length (json_text v @ rest) < f \<Longrightarrow> json_value f (json_text v @ rest) = Some (Inr (v, rest))"
    and "vs \<noteq> []" "list_all json_ok vs"
    and "2 * length (join_with '','' (map json_text vs) @ CHR '']'' # rest) + 1 < f"
  shows "json_array f acc (join_with '','' (map json_text vs) @ CHR '']'' # rest) = Some (Inr (Arr (acc @ vs), rest))"
  using assms
proof (induction vs arbitrary: acc f)
  case Nil
  then show ?case by simp
next
  case (Cons v vs)
  obtain f' where f: "f = Suc f'" using Cons.prems(4) by (cases f) auto
  have IHv: "json_value g (json_text x @ r0) = Some (Inr (x, r0))"
    if "x \<in> set (v # vs)" "json_delim r0" "2 * length (json_text x @ r0) < g" for x g r0
    using Cons.prems(1) [OF that(1) _ that(2,3)] Cons.prems(3) that(1) by (auto simp: list_all_iff)
  show ?case
  proof (cases vs)
    case Nil
    have "json_value f' (json_text v @ CHR '']'' # rest) = Some (Inr (v, CHR '']'' # rest))"
      using IHv [of v "CHR '']'' # rest" f'] Cons.prems(4) f Nil by simp
    then show ?thesis by (simp add: f Nil)
  next
    case (Cons w ws)
    let ?tl = "join_with '','' (map json_text vs) @ CHR '']'' # rest"
    have "json_value f' (json_text v @ CHR '','' # ?tl) = Some (Inr (v, CHR '','' # ?tl))"
      using IHv [of v "CHR '','' # ?tl" f'] Cons.prems(4) f Cons by simp
    moreover have "json_array f' (acc @ [v]) ?tl = Some (Inr (Arr (acc @ [v] @ vs), rest))"
      using Cons.IH [where acc = "acc @ [v]" and f = f'] Cons.prems f Cons by simp
    ultimately show ?thesis by (simp add: f Cons)
  qed
qed

lemma json_object_member:
  "json_object (Suc f) acc (json_quote k @ CHR '':'' # r) =
   (case json_value f r of
      None \<Rightarrow> None
    | Some (Inl e) \<Rightarrow> Some (Inl e)
    | Some (Inr (v, r3)) \<Rightarrow>
        (case skip_ws r3 of
           x # r4 \<Rightarrow>
             if x = CHR '','' then json_object f (acc @ [(k, v)]) r4
             else if x = CHR ''}'' then Some (Inr (Obj (acc @ [(k, v)]), r4))
             else Some (Inl json_syntax_error)
         | [] \<Rightarrow> Some (Inl json_syntax_error)))"
  by (simp add: json_quote_def json_string_escaped)

lemma json_object_text:
  assumes IH: "\<And>kv f rest. kv \<in> set kvs \<Longrightarrow> json_ok (snd kv) \<Longrightarrow> json_delim rest \<Longrightarrow>
      2 * length (json_text (snd kv) @ rest) < f \<Longrightarrow>
      json_value f (json_text (snd kv) @ rest) = Some (Inr (snd kv, rest))"
    and "kvs \<noteq> []" "list_all (\<lambda>kv. json_ok (snd kv)) kvs"
    and "2 * length (join_with '','' (map json_member_text kvs) @ CHR ''}'' # rest) + 1 < f"
  shows "json_object f acc (join_with '','' (map json_member_text kvs) @ CHR ''}'' # rest) =
    Some (Inr (Obj (acc @ kvs), rest))"
  using assms
proof (induction kvs arbitrary: acc f)
  case Nil
  then show ?case by simp
next
  case (Cons kv kvs)
  obtain f' where f: "f = Suc f'" using Cons.prems(4) by (cases f) auto
  obtain k v where kv: "kv = (k, v)" by fastforce
  have IHv: "json_value g (json_text v @ r0) = Some (Inr (v, r0))"
    if "json_delim r0" "2 * length (json_text v @ r0) < g" for g r0
  proof -
    have "json_value g (json_text (snd kv) @ r0) = Some (Inr (snd kv, r0))"
      by (rule Cons.prems(1)) (use that Cons.prems(3) kv in simp_all)
    then show ?thesis by (simp add: kv)
  qed
  show ?case
  proof (cases kvs)
    case Nil
    have "json_value f' (json_text v @ CHR ''}'' # rest) = Some (Inr (v, CHR ''}'' # rest))"
      using IHv [of "CHR ''}'' # rest" f'] Cons.prems(4) f Nil kv by simp
    then show ?thesis by (simp add: f Nil kv json_object_member del: json_object.simps)
  next
    case (Cons w ws)
    let ?tl = "join_with '','' (map json_member_text kvs) @ CHR ''}'' # rest"
    have "json_value f' (json_text v @ CHR '','' # ?tl) = Some (Inr (v, CHR '','' # ?tl))"
      using IHv [of "CHR '','' # ?tl" f'] Cons.prems(4) f Cons kv by simp
    moreover have "json_object f' (acc @ [(k, v)]) ?tl = Some (Inr (Obj (acc @ [(k, v)] @ kvs), rest))"
      using Cons.IH [where acc = "acc @ [(k, v)]" and f = f'] Cons.prems f Cons by simp
    ultimately show ?thesis by (simp add: f Cons kv json_object_member del: json_object.simps)
  qed
qed

lemma join_with_Cons_append: "\<exists>t. join_with sep (x # xs) = x @ t"
  by (cases xs) auto

lemma json_value_nonbracket:
  assumes "hd (json_text v) \<noteq> CHR ''[''" "hd (json_text v) \<noteq> CHR ''{''" "0 < f"
  shows "json_value f (json_text v @ rest) =
    Some (case json_scalar (json_text v @ rest) of
            Some (v', r') \<Rightarrow> Inr (v', r')
          | None \<Rightarrow> Inl json_syntax_error)"
proof -
  obtain c t where c: "json_text v = c # t" using json_text_Cons [of v] by blast
  obtain f' where "f = Suc f'" using assms(3) by (cases f) auto
  then show ?thesis using assms(1,2) skip_ws_text [of v rest] by (simp add: c)
qed

lemma json_value_text:
  "json_ok v \<Longrightarrow> json_delim rest \<Longrightarrow> 2 * length (json_text v @ rest) < f \<Longrightarrow>
   json_value f (json_text v @ rest) = Some (Inr (v, rest))"
proof (induction v arbitrary: f rest rule: json_text.induct)
  case (7 vs)
  obtain f' where f: "f = Suc f'" using "7.prems"(3) by (cases f) auto
  show ?case
  proof (cases vs)
    case Nil
    then show ?thesis by (simp add: f)
  next
    case (Cons v ws)
    obtain t where t: "join_with '','' (map json_text vs) = json_text v @ t"
      using join_with_Cons_append [where x = "json_text v" and xs = "map json_text ws" and sep = "'',''"] Cons by auto
    obtain c u where c: "json_text v = c # u" "\<not> json_ws c" "c \<noteq> CHR '']''"
      using json_text_Cons [of v] by blast
    have "json_array f' [] (join_with '','' (map json_text vs) @ CHR '']'' # rest) =
        Some (Inr (Arr ([] @ vs), rest))"
      by (rule json_array_text) (use "7.IH" "7.prems" f Cons in auto)
    with c t show ?thesis by (simp add: f)
  qed
next
  case (8 kvs)
  obtain f' where f: "f = Suc f'" using "8.prems"(3) by (cases f) auto
  show ?case
  proof (cases kvs)
    case Nil
    then show ?thesis by (simp add: f)
  next
    case (Cons kv ws)
    obtain t where t: "join_with '','' (map json_member_text kvs) = json_quote (fst kv) @ t"
      using join_with_Cons_append [where x = "json_member_text kv" and xs = "map json_member_text ws" and sep = "'',''"] Cons
      by auto
    have "json_object f' [] (join_with '','' (map json_member_text kvs) @ CHR ''}'' # rest) =
        Some (Inr (Obj ([] @ kvs), rest))"
      by (rule json_object_text) (use "8.IH" "8.prems" f Cons in auto)
    moreover have "quote_char \<noteq> CHR ''}''" by (simp add: quote_char_def)
    ultimately show ?thesis using t by (simp add: f json_quote_def)
  qed
next
  case 2
  then show ?case using json_value_nonbracket [of Null f rest] json_scalar_literals(1) by simp
next
  case (3 b)
  then show ?case using json_value_nonbracket [of "Bool b" f rest] json_scalar_literals(2,3)
    by simp
next
  case (4 i)
  then show ?case using json_value_nonbracket [of "Number (IntV i)" f rest] show_int_hd [of i]
      json_scalar_number [of rest i] show_int_Cons [of i]
    by auto
next
  case (6 str)
  then show ?case using json_value_nonbracket [of "Str str" f rest] json_scalar_string [of str rest]
    by (simp add: json_quote_def quote_char_def)
qed simp_all

subsection \<open>Properties of \<open>JSON.parse\<close>\<close>

text \<open>The parser's fuel \<open>json_fuel s\<close> is always enough, so its result is never the
  out-of-fuel value, and any larger fuel gives the same result.\<close>

lemma JSON_parse_terminates:
  "\<exists>r. json_value (json_fuel s) s = Some r \<and> (\<forall>g. json_fuel s \<le> g \<longrightarrow> json_value g s = Some r)"
proof -
  have "json_value (json_fuel s) s \<noteq> None"
    using json_parse_fuel [of "json_fuel s"] by (simp add: json_fuel_def)
  then obtain r where r: "json_value (json_fuel s) s = Some r" by blast
  have "json_value g s = Some r" if "json_fuel s \<le> g" for g
    using json_parse_mono [of "json_fuel s"] r that by simp
  with r show ?thesis by blast
qed

text \<open>\<open>JSON.parse\<close> reads back the JSON text of every value without \<open>undefined\<close> or
  \<open>NaN\<close>.\<close>

lemma JSON_parse_roundtrip:
  assumes "json_ok v"
  shows "JSON_parse (json_text v) = Inr v"
proof -
  have "json_value (json_fuel (json_text v)) (json_text v @ []) = Some (Inr (v, []))"
    by (rule json_value_text) (use assms in \<open>simp_all add: json_fuel_def\<close>)
  then show ?thesis by (simp add: JSON_parse_def)
qed

end
