(* ===== verification/JwtDecode.thy ===== *)
theory JwtDecode
  imports Jwt JsonParse "HOL-Library.Code_Target_Numeral"
begin

text \<open>The decoder of angular-jwt's \<open>JwtHelperService\<close> (\<open>urlBase64Decode\<close>,
  \<open>b64decode\<close>, \<open>b64DecodeUnicode\<close>), modelled from the library's source, with the
  ECMAScript operations it calls (\<open>String.prototype.indexOf\<close>, the bit operators of
  its decoding loop, \<open>decodeURIComponent\<close>).  \<open>angular_jwt\<close> is the \<open>jwt_codec\<close> of
  \<open>new JwtHelperService()\<close>, combining it with \<open>JSON_parse\<close>.  The lemmas show that
  the bit-buffer loop inverts the base64url encoding of every byte string, that the
  \<open>%XX\<close> detour through \<open>decodeURIComponent\<close> accepts exactly the well-formed UTF-8
  strings, and so that \<open>urlBase64Decode\<close> inverts the encoding of a UTF-8 payload and
  throws \<open>URIError\<close> on any other.  \<open>Code_Target_Numeral\<close> only makes the
  definitions evaluate fast on real tokens.\<close>

unbundle bit_operations_syntax

subsection \<open>\<open>b64decode\<close>\<close>

definition b64_chars :: string where
  "b64_chars = ''ABCDEFGHIJKLMNOPQRSTUVWXYZabcdefghijklmnopqrstuvwxyz0123456789+/=''"

text \<open>\<open>String.prototype.indexOf\<close> with a one-character argument.\<close>

fun index_of :: "string \<Rightarrow> char \<Rightarrow> int" where
  "index_of [] c = -1"
| "index_of (x # xs) c = (if x = c then 0 else (let i = index_of xs c in if i = -1 then -1 else i + 1))"

text \<open>The \<open>for\<close> loop of \<open>b64decode\<close>: \<open>bc\<close> counts the characters found in the table,
  \<open>bs\<close> is the bit storage; a character not in the table (\<open>~buffer\<close> is \<open>0\<close>) changes
  nothing, and every character but the first of each four emits the byte
  \<open>255 & (bs >> ((-2 * bc) & 6))\<close>, with \<open>bc\<close> already incremented.\<close>

fun b64_loop :: "nat \<Rightarrow> int \<Rightarrow> string \<Rightarrow> string" where
  "b64_loop bc bs [] = []"
| "b64_loop bc bs (ch # str) =
     (let buffer = index_of b64_chars ch in
      if NOT buffer = 0 then b64_loop bc bs str
      else
        (let bs' = (if bc mod 4 \<noteq> 0 then bs * 64 + buffer else buffer) in
         if bc mod 4 \<noteq> 0
         then char_of (255 AND drop_bit (nat ((- 2 * int (bc + 1)) AND 6)) bs') # b64_loop (bc + 1) bs' str
         else b64_loop (bc + 1) bs' str))"

definition b64decode :: "string \<Rightarrow> js_error + string" where
  "b64decode str0 =
     (let str = rev (dropWhile (\<lambda>c. c = CHR ''='') (rev str0)) in
      if length str mod 4 = 1
      then Inl (Error ''atob failed: The string to be decoded is not correctly encoded.'')
      else Inr (b64_loop 0 0 str))"

subsection \<open>\<open>decodeURIComponent\<close>\<close>

text \<open>\<open>Number.prototype.toString(16)\<close> of a natural number.\<close>

fun show_hex :: "nat \<Rightarrow> string" where
  "show_hex n = (if n < 16 then [hex_digit n] else show_hex (n div 16) @ [hex_digit (n mod 16)])"

text \<open>The callback of \<open>b64DecodeUnicode\<close>'s map:
  \<open>'%' + ('00' + c.charCodeAt(0).toString(16)).slice(-2)\<close>.\<close>

definition percent_byte :: "char \<Rightarrow> string" where
  "percent_byte c = CHR ''%'' # (let x = ''00'' @ show_hex (of_char c) in drop (length x - 2) x)"

abbreviation percent_encode :: "string \<Rightarrow> string" where
  "percent_encode s \<equiv> concat (map percent_byte s)"

definition uri_error :: js_error where
  "uri_error = URIError ''URI malformed''"

text \<open>A \<open>%XX\<close> escape at the start of a string.\<close>

definition pct_byte :: "string \<Rightarrow> (nat \<times> string) option" where
  "pct_byte s =
     (if 3 \<le> length s \<and> s ! 0 = CHR ''%'' \<and> is_radix_digit 16 (s ! 1) \<and> is_radix_digit 16 (s ! 2)
      then Some (16 * digit_of (s ! 1) + digit_of (s ! 2), drop 3 s) else None)"

text \<open>The number of leading one bits of a byte; 5 stands for any number above 4.\<close>

definition leading_ones :: "nat \<Rightarrow> nat" where
  "leading_ones b =
     (if b < 0x80 then 0 else if b < 0xC0 then 1 else if b < 0xE0 then 2
      else if b < 0xF0 then 3 else if b < 0xF8 then 4 else 5)"

definition utf8_cont :: "nat \<Rightarrow> bool" where
  "utf8_cont b \<longleftrightarrow> 0x80 \<le> b \<and> b \<le> 0xBF"

text \<open>Octets that are the UTF-8 encoding of one code point (Unicode, Table 3-7: no
  overlong form, no surrogate, nothing above U+10FFFF).\<close>

definition utf8_code_point_ok :: "nat list \<Rightarrow> bool" where
  "utf8_code_point_ok os =
     (case os of
        [b0] \<Rightarrow> b0 < 0x80
      | [b0, b1] \<Rightarrow> 0xC2 \<le> b0 \<and> b0 \<le> 0xDF \<and> utf8_cont b1
      | [b0, b1, b2] \<Rightarrow>
          ((b0 = 0xE0 \<and> 0xA0 \<le> b1 \<and> b1 \<le> 0xBF)
           \<or> ((0xE1 \<le> b0 \<and> b0 \<le> 0xEC \<or> 0xEE \<le> b0 \<and> b0 \<le> 0xEF) \<and> utf8_cont b1)
           \<or> (b0 = 0xED \<and> 0x80 \<le> b1 \<and> b1 \<le> 0x9F)) \<and> utf8_cont b2
      | [b0, b1, b2, b3] \<Rightarrow>
          ((b0 = 0xF0 \<and> 0x90 \<le> b1 \<and> b1 \<le> 0xBF)
           \<or> (0xF1 \<le> b0 \<and> b0 \<le> 0xF3 \<and> utf8_cont b1)
           \<or> (b0 = 0xF4 \<and> 0x80 \<le> b1 \<and> b1 \<le> 0x8F)) \<and> utf8_cont b2 \<and> utf8_cont b3
      | _ \<Rightarrow> False)"

fun read_octets :: "nat \<Rightarrow> string \<Rightarrow> (nat list \<times> string) option" where
  "read_octets 0 s = Some ([], s)"
| "read_octets (Suc n) s =
     (case pct_byte s of
        None \<Rightarrow> None
      | Some (b, r) \<Rightarrow> map_option (\<lambda>(os, r'). (b # os, r')) (read_octets n r))"

text \<open>The Decode operation of ECMA-262 with an empty reserved set: a character other
  than \<open>%\<close> is kept; \<open>%XX\<close> below 0x80 is that character; a lead byte with \<open>n\<close> leading
  ones takes \<open>n - 1\<close> more escapes, and the \<open>n\<close> octets must encode one code point
  (they are kept as the string's bytes); anything else throws \<open>URIError\<close>.\<close>

function decodeURIComponent :: "string \<Rightarrow> js_error + string" where
  "decodeURIComponent [] = Inr []"
| "decodeURIComponent (c # s) =
     (if c \<noteq> CHR ''%'' then sum_bind (decodeURIComponent s) (\<lambda>t. Inr (c # t))
      else
        (case pct_byte (c # s) of
           None \<Rightarrow> Inl uri_error
         | Some (b, r) \<Rightarrow>
             if b < 0x80 then sum_bind (decodeURIComponent r) (\<lambda>t. Inr (char_of b # t))
             else
               (let n = leading_ones b in
                if n = 1 \<or> 4 < n then Inl uri_error
                else
                  (case read_octets (n - 1) r of
                     None \<Rightarrow> Inl uri_error
                   | Some (os, r') \<Rightarrow>
                       if utf8_code_point_ok (b # os)
                       then sum_bind (decodeURIComponent r') (\<lambda>t. Inr (map char_of (b # os) @ t))
                       else Inl uri_error))))"
  by pat_completeness auto
termination
proof -
  have ro: "length r \<le> length s" if "read_octets n s = Some (os, r)" for n s os r
    using that
  proof (induction n arbitrary: s os)
    case 0
    then show ?case by simp
  next
    case (Suc n)
    then show ?case
      by (fastforce simp: pct_byte_def split: if_splits option.splits)
  qed
  show ?thesis
    by (relation "measure length") (fastforce simp: pct_byte_def split: if_splits dest: ro)+
qed


subsection \<open>\<open>b64DecodeUnicode\<close>, \<open>urlBase64Decode\<close> and the decoder of \<open>decodeToken\<close>\<close>

definition b64DecodeUnicode :: "string \<Rightarrow> js_error + string" where
  "b64DecodeUnicode str =
     sum_bind (b64decode str) (\<lambda>bytes. decodeURIComponent (concat (map percent_byte bytes)))"

text \<open>\<open>str.replace(/-/g, '+').replace(/_/g, '/')\<close>, character by character.\<close>

definition url_to_std :: "char \<Rightarrow> char" where
  "url_to_std c = (if c = CHR ''-'' then CHR ''+'' else if c = CHR ''_'' then CHR ''/'' else c)"

definition urlBase64Decode :: "string \<Rightarrow> js_error + string" where
  "urlBase64Decode str =
     (let output = map url_to_std str in
      if length output mod 4 = 0 then b64DecodeUnicode output
      else if length output mod 4 = 2 then b64DecodeUnicode (output @ ''=='')
      else if length output mod 4 = 3 then b64DecodeUnicode (output @ ''='')
      else Inl (Error ''Illegal base64url string!''))"

text \<open>\<open>new JwtHelperService()\<close>: the decoder \<open>decodeToken\<close> uses.\<close>

definition angular_jwt :: jwt_codec where
  "angular_jwt = \<lparr>url_base64_decode = urlBase64Decode, json_parse = JSON_parse\<rparr>"

subsection \<open>Encoding a payload\<close>

text \<open>The base64url encoding without padding (RFC 4648, section 5), as a token issuer
  writes the payload, and well-formed UTF-8.\<close>

definition b64url_chars :: string where
  "b64url_chars = ''ABCDEFGHIJKLMNOPQRSTUVWXYZabcdefghijklmnopqrstuvwxyz0123456789-_''"

definition b64url_char :: "nat \<Rightarrow> char" where
  "b64url_char i = b64url_chars ! i"

fun b64url_encode :: "string \<Rightarrow> string" where
  "b64url_encode (a # b # c # r) =
     (let x = of_char a; y = of_char b; z = of_char c in
      [b64url_char (x div 4), b64url_char (x mod 4 * 16 + y div 16),
       b64url_char (y mod 16 * 4 + z div 64), b64url_char (z mod 64)] @ b64url_encode r)"
| "b64url_encode [a, b] =
     (let x = of_char a; y = of_char b in
      [b64url_char (x div 4), b64url_char (x mod 4 * 16 + y div 16), b64url_char (y mod 16 * 4)])"
| "b64url_encode [a] = (let x = of_char a in [b64url_char (x div 4), b64url_char (x mod 4 * 16)])"
| "b64url_encode [] = []"

function utf8_valid :: "string \<Rightarrow> bool" where
  "utf8_valid [] = True"
| "utf8_valid (c # s) =
     (let b = of_char c; n = leading_ones b in
      if n = 0 then utf8_valid s
      else n \<noteq> 1 \<and> n \<le> 4 \<and> n - 1 \<le> length s \<and>
           utf8_code_point_ok (b # map of_char (take (n - 1) s)) \<and> utf8_valid (drop (n - 1) s))"
  by pat_completeness auto
termination
  by (relation "measure length") auto

subsection \<open>Bits of the decoding loop\<close>

lemma and_255: "255 AND (k::int) = k mod 256"
proof -
  have m: "mask 8 = (255::int)" by (simp add: mask_eq_exp_minus_1)
  show ?thesis
    using take_bit_eq_mask [of 8 k] by (simp add: m and.commute [of 255] take_bit_eq_mod)
qed

lemma and_6_take_bit: "(x::int) AND 6 = take_bit 3 x AND 6"
proof -
  have "take_bit 3 (x AND 6) = take_bit 3 x AND 6"
    by (simp add: take_bit_and)
  moreover have "take_bit 3 (x AND 6) = x AND 6"
  proof (rule take_bit_int_eq_self)
    show "0 \<le> x AND 6" by simp
    show "x AND 6 < 2 ^ 3" using AND_upper2 [of 6 x] by simp
  qed
  ultimately show ?thesis by simp
qed

lemma b64_shift: "(- 2 * int k) AND 6 = 2 * int ((4 - k mod 4) mod 4)"
proof -
  have "take_bit 3 (- 2 * int k) = (- 2 * int k) mod 8" by (simp add: take_bit_eq_mod)
  also have "\<dots> = (- 2 * int (k mod 4)) mod 8"
  proof -
    have "int k = 4 * int (k div 4) + int (k mod 4)" using div_mult_mod_eq [of k 4] by linarith
    then have "- 2 * int k = - 2 * int (k mod 4) + 8 * (- int (k div 4))" by linarith
    then show ?thesis using mod_mult_self2 [of "- 2 * int (k mod 4)" 8 "- int (k div 4)"] by simp
  qed
  finally have e: "(- 2 * int k) AND 6 = ((- 2 * int (k mod 4)) mod 8) AND 6"
    using and_6_take_bit [of "- 2 * int k"] by simp
  have "k mod 4 < 4" by simp
  then consider "k mod 4 = 0" | "k mod 4 = 1" | "k mod 4 = 2" | "k mod 4 = 3" by linarith
  then show ?thesis
    unfolding e by cases simp_all
qed

lemma b64_group_arith:
  fixes x y z :: nat
  assumes "x < 256" "y < 256" "z < 256"
  shows "(x div 4 * 64 + (x mod 4 * 16 + y div 16)) div 16 mod 256 = x"
    and "((x div 4 * 64 + (x mod 4 * 16 + y div 16)) * 64 + (y mod 16 * 4 + z div 64)) div 4 mod 256 = y"
    and "(((x div 4 * 64 + (x mod 4 * 16 + y div 16)) * 64 + (y mod 16 * 4 + z div 64)) * 64 + z mod 64)
         mod 256 = z"
proof -
  have x: "x = 4 * (x div 4) + x mod 4" and y: "y = 16 * (y div 16) + y mod 16"
    and z: "z = 64 * (z div 64) + z mod 64" by simp_all
  have s2: "x div 4 * 64 + (x mod 4 * 16 + y div 16) = 16 * x + y div 16" using x by linarith
  have y4: "64 * (y div 16) + 4 * (y mod 16) = 4 * y" using y by linarith
  have s3: "(16 * x + y div 16) * 64 + (y mod 16 * 4 + z div 64) = 4 * (256 * x + y) + z div 64"
    using y4 by (simp add: algebra_simps)
  have z4: "64 * (z div 64) + z mod 64 = z" using z by linarith
  have s4: "(4 * (256 * x + y) + z div 64) * 64 + z mod 64 = 256 * (256 * x + y) + z"
    using z4 by (simp add: algebra_simps)
  have "y div 16 < 16" "z div 64 < 4" using assms by simp_all
  then have d2: "(16 * x + y div 16) div 16 = x"
    and d3: "(4 * (256 * x + y) + z div 64) div 4 = 256 * x + y"
    by (simp_all only: div_mult_self3 [symmetric] add.commute [of "16 * x"]
        add.commute [of "4 * _"] div_mult_self2 mult.commute div_less)
  have d4: "(256 * x + y) mod 256 = y" and d5: "(256 * (256 * x + y) + z) mod 256 = z"
    using assms by (simp_all only: add.commute [of "256 * _"] mod_mult_self2 mod_less)
  show "(x div 4 * 64 + (x mod 4 * 16 + y div 16)) div 16 mod 256 = x"
    "((x div 4 * 64 + (x mod 4 * 16 + y div 16)) * 64 + (y mod 16 * 4 + z div 64)) div 4 mod 256 = y"
    "(((x div 4 * 64 + (x mod 4 * 16 + y div 16)) * 64 + (y mod 16 * 4 + z div 64)) * 64 + z mod 64)
         mod 256 = z"
    unfolding s2 s3 s4 d2 d3 d4 d5 using assms by simp_all
qed

subsection \<open>The loop inverts the encoding\<close>

lemma index_of_nth: "distinct xs \<Longrightarrow> i < length xs \<Longrightarrow> index_of xs (xs ! i) = int i"
proof (induction xs arbitrary: i)
  case Nil
  then show ?case by simp
next
  case (Cons x xs)
  show ?case
  proof (cases i)
    case 0
    then show ?thesis by simp
  next
    case (Suc j)
    with Cons have "xs ! j \<noteq> x" "index_of xs (xs ! j) = int j"
      by (auto simp: nth_mem)
    with Suc show ?thesis by (simp add: Let_def)
  qed
qed

lemma b64_chars_facts: "distinct b64_chars" "length b64_chars = 65"
  "map url_to_std b64url_chars = take 64 b64_chars" "length b64url_chars = 64"
  by (simp_all add: b64_chars_def b64url_chars_def url_to_std_def)

lemma url_to_std_char: "i < 64 \<Longrightarrow> url_to_std (b64url_char i) = b64_chars ! i"
  using b64_chars_facts(3,4) nth_map [of i b64url_chars url_to_std]
  by (simp add: b64url_char_def)

lemma index_of_b64: "i < 64 \<Longrightarrow> index_of b64_chars (url_to_std (b64url_char i)) = int i"
  using index_of_nth [OF b64_chars_facts(1), of i] b64_chars_facts(2) by (simp add: url_to_std_char)

lemma b64_loop_step:
  assumes "index_of b64_chars ch = int i"
  shows "b64_loop bc bs (ch # str) =
    (if bc mod 4 \<noteq> 0
     then char_of ((bs * 64 + int i) div 2 ^ (2 * ((4 - Suc bc mod 4) mod 4)) mod 256) #
          b64_loop (Suc bc) (bs * 64 + int i) str
     else b64_loop (Suc bc) (int i) str)"
proof -
  have "NOT (int i) \<noteq> 0" by (simp add: not_int_def)
  moreover have "(- 2 - 2 * int bc) AND 6 = 2 * int ((4 - Suc bc mod 4) mod 4)"
    using b64_shift [of "Suc bc"] by simp
  moreover have "nat (2 * int n) = 2 * n" for n by simp
  ultimately show ?thesis
    using assms by (simp add: Let_def and_255 drop_bit_eq_div)
qed

lemma char_of_int_div_mod:
  "char_of ((int m) div 2 ^ k mod 256) = char_of (m div 2 ^ k mod 256)"
proof -
  have "(int m) div 2 ^ k mod 256 = int (m div 2 ^ k mod 256)"
    by (simp add: zdiv_int zmod_int)
  then show ?thesis by simp
qed

lemma b64_loop_enc_step:
  assumes "i < 64"
  shows "b64_loop bc (int m) (url_to_std (b64url_char i) # str) =
    (if bc mod 4 \<noteq> 0
     then char_of ((m * 64 + i) div 2 ^ (2 * ((4 - Suc bc mod 4) mod 4)) mod 256) #
          b64_loop (Suc bc) (int (m * 64 + i)) str
     else b64_loop (Suc bc) (int i) str)"
proof -
  have "int m * 64 + int i = int (m * 64 + i)" by simp
  then show ?thesis
    using b64_loop_step [OF index_of_b64 [OF assms], of bc "int m" str]
    by (simp only: char_of_int_div_mod)
qed

lemma mod4_Suc: "Suc (4 * k) mod 4 = 1" "Suc (Suc (4 * k)) mod 4 = 2"
  "Suc (Suc (Suc (4 * k))) mod 4 = 3" "Suc (Suc (Suc (Suc (4 * k)))) = 4 * Suc k"
  by presburger+

lemma b64_loop_sextets:
  fixes x y z :: nat
  assumes lt: "x < 256" "y < 256" "z < 256"
  defines "i1 \<equiv> x div 4" and "i2 \<equiv> x mod 4 * 16 + y div 16"
    and "i3 \<equiv> y mod 16 * 4 + z div 64" and "i4 \<equiv> z mod 64"
  shows "b64_loop (4 * k) (int m) (url_to_std (b64url_char i1) # url_to_std (b64url_char i2) # rest) =
      char_of x # b64_loop (Suc (Suc (4 * k))) (int (i1 * 64 + i2)) rest"
    and "b64_loop (Suc (Suc (4 * k))) (int (i1 * 64 + i2)) (url_to_std (b64url_char i3) # rest) =
      char_of y # b64_loop (Suc (Suc (Suc (4 * k)))) (int ((i1 * 64 + i2) * 64 + i3)) rest"
    and "b64_loop (Suc (Suc (Suc (4 * k)))) (int ((i1 * 64 + i2) * 64 + i3)) (url_to_std (b64url_char i4) # rest) =
      char_of z # b64_loop (4 * Suc k) (int (((i1 * 64 + i2) * 64 + i3) * 64 + i4)) rest"
proof -
  have i: "i1 < 64" "i2 < 64" "i3 < 64" "i4 < 64"
    using lt by (auto simp: i1_def i2_def i3_def i4_def)
  have "(i1 * 64 + i2) div 16 mod 256 = x" "((i1 * 64 + i2) * 64 + i3) div 4 mod 256 = y"
    "(((i1 * 64 + i2) * 64 + i3) * 64 + i4) mod 256 = z"
    unfolding i1_def i2_def i3_def i4_def by (rule b64_group_arith [OF lt])+
  then show "b64_loop (4 * k) (int m) (url_to_std (b64url_char i1) # url_to_std (b64url_char i2) # rest) =
      char_of x # b64_loop (Suc (Suc (4 * k))) (int (i1 * 64 + i2)) rest"
    and "b64_loop (Suc (Suc (4 * k))) (int (i1 * 64 + i2)) (url_to_std (b64url_char i3) # rest) =
      char_of y # b64_loop (Suc (Suc (Suc (4 * k)))) (int ((i1 * 64 + i2) * 64 + i3)) rest"
    and "b64_loop (Suc (Suc (Suc (4 * k)))) (int ((i1 * 64 + i2) * 64 + i3)) (url_to_std (b64url_char i4) # rest) =
      char_of z # b64_loop (4 * Suc k) (int (((i1 * 64 + i2) * 64 + i3) * 64 + i4)) rest"
    by (simp_all only: b64_loop_enc_step [OF i(1)] b64_loop_enc_step [OF i(2)] b64_loop_enc_step [OF i(3)]
        b64_loop_enc_step [OF i(4)] mod4_Suc) simp_all
qed

lemma b64_loop_encode: "b64_loop (4 * k) (int m) (map url_to_std (b64url_encode s)) = s"
proof (induction s arbitrary: k m rule: b64url_encode.induct)
  case (1 a b c r)
  let ?x = "of_char a :: nat" and ?y = "of_char b :: nat" and ?z = "of_char c :: nat"
  have "map url_to_std (b64url_encode (a # b # c # r)) =
      url_to_std (b64url_char (?x div 4)) # url_to_std (b64url_char (?x mod 4 * 16 + ?y div 16)) #
      url_to_std (b64url_char (?y mod 16 * 4 + ?z div 64)) # url_to_std (b64url_char (?z mod 64)) #
      map url_to_std (b64url_encode r)"
    by (simp add: Let_def)
    moreover have lt: "?x < 256" "?y < 256" "?z < 256" by simp_all
  ultimately show ?case by (simp only: b64_loop_sextets [OF lt] "1.IH" char_of_char)
next
  case (2 a b)
  let ?x = "of_char a :: nat" and ?y = "of_char b :: nat"
  have "map url_to_std (b64url_encode [a, b]) =
      [url_to_std (b64url_char (?x div 4)), url_to_std (b64url_char (?x mod 4 * 16 + ?y div 16)),
       url_to_std (b64url_char (?y mod 16 * 4 + 0 div 64))]"
    by (simp add: Let_def)
  moreover have lt: "?x < 256" "?y < 256" "0 < (256::nat)" by simp_all
  ultimately show ?case by (simp only: b64_loop_sextets [OF lt] b64_loop.simps(1)) simp
next
  case (3 a)
  let ?x = "of_char a :: nat"
  have "map url_to_std (b64url_encode [a]) =
      [url_to_std (b64url_char (?x div 4)), url_to_std (b64url_char (?x mod 4 * 16 + 0 div 16))]"
    by (simp add: Let_def)
  moreover have lt: "?x < 256" "0 < (256::nat)" "0 < (256::nat)" by simp_all
  ultimately show ?case by (simp only: b64_loop_sextets [OF lt] b64_loop.simps(1)) simp
qed simp

subsection \<open>Padding\<close>

lemma b64url_encode_length:
  "length (b64url_encode s) = 4 * (length s div 3) + (if length s mod 3 = 0 then 0 else length s mod 3 + 1)"
  by (induction s rule: b64url_encode.induct) (simp_all add: Let_def div_add_self1 mod_add_self1)

lemma b64_index_bounds:
  fixes x y :: nat
  assumes "x < 256" "y < 256"
  shows "x div 4 < 64" "x mod 4 * 16 + y div 16 < 64" "x mod 16 * 4 + y div 64 < 64" "x mod 64 < 64"
  using assms by auto

lemma b64url_char_mem: "i < 64 \<Longrightarrow> b64url_char i \<in> set b64url_chars"
  using b64_chars_facts(4) by (simp add: b64url_char_def)

lemma b64url_encode_chars: "set (b64url_encode s) \<subseteq> set b64url_chars"
proof (induction s rule: b64url_encode.induct)
  case (1 a b c r)
  then show ?case
    using b64_index_bounds [of "of_char a" "of_char b"] b64_index_bounds [of "of_char b" "of_char c"]
      b64_index_bounds [of "of_char c" "of_char c"]
    by (auto simp: Let_def intro!: b64url_char_mem)
next
  case (2 a b)
  then show ?case
    using b64_index_bounds [of "of_char a" "of_char b"] b64_index_bounds [of "of_char b" 0]
    by (auto simp: Let_def intro!: b64url_char_mem)
next
  case (3 a)
  then show ?case
    using b64_index_bounds [of "of_char a" 0]
    by (auto simp: Let_def intro!: b64url_char_mem)
qed simp

lemma b64url_encode_no_pad: "CHR ''='' \<notin> set (b64url_encode s)"
proof -
  have "CHR ''='' \<notin> set b64url_chars" by (simp add: b64url_chars_def)
  then show ?thesis using b64url_encode_chars [of s] by blast
qed

lemma strip_pad:
  assumes "CHR ''='' \<notin> set xs" "set p \<subseteq> {CHR ''=''}"
  shows "rev (dropWhile (\<lambda>c. c = CHR ''='') (rev (xs @ p))) = xs"
proof -
  have "dropWhile (\<lambda>c. c = CHR ''='') (rev p @ rev xs) = dropWhile (\<lambda>c. c = CHR ''='') (rev xs)"
    using assms(2) by (intro dropWhile_append2) auto
  also have "\<dots> = rev xs"
    using assms(1) by (cases "rev xs") (auto dest: arg_cong [of _ _ set])
  finally have "dropWhile (\<lambda>c. c = CHR ''='') (rev p @ rev xs) = rev xs" .
  then show ?thesis by simp
qed

lemma b64decode_unpadded:
  assumes "CHR ''='' \<notin> set xs" "set p \<subseteq> {CHR ''=''}" "length xs mod 4 \<noteq> 1"
  shows "b64decode (xs @ p) = Inr (b64_loop 0 0 xs)"
  using assms unfolding b64decode_def Let_def strip_pad [OF assms(1,2)] by simp

text \<open>A string without \<open>=\<close> whose length is not 1 modulo 4 is decoded by the loop
  alone: the padding \<open>urlBase64Decode\<close> adds is stripped again by \<open>b64decode\<close>.\<close>

lemma urlBase64Decode_loop:
  assumes "CHR ''='' \<notin> set str" "length str mod 4 \<noteq> 1"
  shows "urlBase64Decode str = decodeURIComponent (percent_encode (b64_loop 0 0 (map url_to_std str)))"
proof -
  have "CHR ''='' \<notin> set (map url_to_std str)" using assms(1) by (auto simp: url_to_std_def)
  then show ?thesis
    using assms(2) b64decode_unpadded [of "map url_to_std str" "[]"]
      b64decode_unpadded [of "map url_to_std str" "''=''"] b64decode_unpadded [of "map url_to_std str" "''==''"]
    by (auto simp: urlBase64Decode_def b64DecodeUnicode_def Let_def sum_bind_def)
qed

lemma urlBase64Decode_encode:
  "urlBase64Decode (b64url_encode s) = decodeURIComponent (percent_encode s)"
proof -
  have "length (b64url_encode s) mod 4 \<noteq> 1"
    using b64url_encode_length [of s] by (auto simp: mod_Suc)
  then show ?thesis
    using urlBase64Decode_loop [OF b64url_encode_no_pad] b64_loop_encode [of 0 0 s] by simp
qed

subsection \<open>Characters outside the alphabet\<close>

lemma index_of_notin: "c \<notin> set xs \<Longrightarrow> index_of xs c = -1"
  by (induction xs) auto

text \<open>The loop skips every character that is not in its table.\<close>

lemma b64_loop_filter:
  "b64_loop bc bs (filter (\<lambda>c. c \<in> set b64_chars) s) = b64_loop bc bs s"
proof (induction s arbitrary: bc bs)
  case Nil
  then show ?case by simp
next
  case (Cons c s)
  then show ?case
    by (cases "c \<in> set b64_chars") (simp_all add: Let_def index_of_notin)
qed

lemma urlBase64Decode_junk:
  assumes "\<forall>c \<in> set j. url_to_std c \<notin> set b64_chars" "CHR ''='' \<notin> set (xs @ ys)"
    "length (xs @ j @ ys) mod 4 \<noteq> 1" "length (xs @ ys) mod 4 \<noteq> 1"
  shows "urlBase64Decode (xs @ j @ ys) = urlBase64Decode (xs @ ys)"
proof -
  have "CHR ''='' \<in> set b64_chars" by (simp add: b64_chars_def)
  then have "CHR ''='' \<notin> set j" using assms(1) by (fastforce simp: url_to_std_def)
  then have "CHR ''='' \<notin> set (xs @ j @ ys)" using assms(2) by simp
  moreover have "filter (\<lambda>c. c \<in> set b64_chars) (map url_to_std (xs @ j @ ys)) =
      filter (\<lambda>c. c \<in> set b64_chars) (map url_to_std (xs @ ys))"
    using assms(1) by (simp add: filter_empty_conv)
  ultimately show ?thesis
    using assms(2-4) urlBase64Decode_loop [of "xs @ j @ ys"] urlBase64Decode_loop [of "xs @ ys"]
      b64_loop_filter [of 0 0 "map url_to_std (xs @ j @ ys)"] b64_loop_filter [of 0 0 "map url_to_std (xs @ ys)"]
    by metis
qed

subsection \<open>decodeURIComponent of the percent-encoded bytes\<close>

lemma hex_digit_zero: "hex_digit 0 = CHR ''0''"
  by (simp add: hex_digit_def digit_char_def char_of_eq_iff)

lemma percent_byte_hex:
  "percent_byte c = [CHR ''%'', hex_digit (of_char c div 16), hex_digit (of_char c mod 16)]"
proof -
  have lt: "of_char c < (256::nat)" by simp
  show ?thesis
  proof (cases "of_char c < (16::nat)")
    case True
    then show ?thesis by (simp add: percent_byte_def hex_digit_zero)
  next
    case False
    moreover have "of_char c div 16 < (16::nat)" using lt by (intro less_mult_imp_div_less) simp
    ultimately have "show_hex (of_char c) = [hex_digit (of_char c div 16), hex_digit (of_char c mod 16)]"
      by (subst show_hex.simps) simp
    then show ?thesis by (simp add: percent_byte_def)
  qed
qed

lemma pct_byte_percent: "pct_byte (percent_byte c @ r) = Some (of_char c, r)"
proof -
  have "of_char c div 16 < (16::nat)" by (intro less_mult_imp_div_less) simp
  moreover have "of_char c mod 16 < (16::nat)" by simp
  ultimately show ?thesis
    by (simp add: percent_byte_hex pct_byte_def is_radix_digit_def digit_of_def hex_digit_value)
qed

lemma pct_byte_Nil: "pct_byte [] = None"
  by (simp add: pct_byte_def)

lemma read_octets_percent:
  "read_octets k (percent_encode s) =
     (if k \<le> length s then Some (map of_char (take k s), percent_encode (drop k s)) else None)"
proof (induction k arbitrary: s)
  case 0
  then show ?case by simp
next
  case (Suc k)
  then show ?case
    by (cases s) (simp_all add: pct_byte_percent pct_byte_Nil)
qed

lemma decode_percent_Cons:
  "decodeURIComponent (percent_byte c @ percent_encode s) =
     (let b = of_char c in
      if b < 0x80 then sum_bind (decodeURIComponent (percent_encode s)) (\<lambda>t. Inr (char_of b # t))
      else
        (let n = leading_ones b in
         if n = 1 \<or> 4 < n then Inl uri_error
         else
           (case read_octets (n - 1) (percent_encode s) of
              None \<Rightarrow> Inl uri_error
            | Some (os, r') \<Rightarrow>
                if utf8_code_point_ok (b # os)
                then sum_bind (decodeURIComponent r') (\<lambda>t. Inr (map char_of (b # os) @ t))
                else Inl uri_error)))"
proof -
  obtain t where t: "percent_byte c @ percent_encode s = CHR ''%'' # t"
    by (simp add: percent_byte_hex)
  have "pct_byte (CHR ''%'' # t) = Some (of_char c, percent_encode s)"
    using pct_byte_percent [of c "percent_encode s"] t by simp
  then show ?thesis
    by (simp only: t decodeURIComponent.simps) (simp add: Let_def)
qed

lemma leading_ones_zero: "leading_ones b = 0 \<longleftrightarrow> b < 0x80"
  by (simp add: leading_ones_def)

lemma decode_percent:
  "decodeURIComponent (percent_encode s) = (if utf8_valid s then Inr s else Inl uri_error)"
proof (induction s rule: utf8_valid.induct)
  case 1
  then show ?case by simp
next
  case (2 c s)
  define b where "b = (of_char c :: nat)"
  define n where "n = leading_ones b"
  have cb: "char_of b = c" by (simp add: b_def)
  show ?case
  proof (cases "b < 0x80")
    case True
    then have "n = 0" by (simp add: n_def leading_ones_zero)
    with True "2.IH"(1) [OF b_def n_def] show ?thesis
      by (simp add: decode_percent_Cons b_def [symmetric] n_def [symmetric] sum_bind_def cb)
  next
    case False
    then have n0: "n \<noteq> 0" by (simp add: n_def leading_ones_zero)
    show ?thesis
    proof (cases "n = 1 \<or> 4 < n")
      case True
      with False n0 show ?thesis
        by (auto simp: decode_percent_Cons b_def [symmetric] n_def [symmetric] Let_def)
    next
      case bad: False
      show ?thesis
      proof (cases "n - 1 \<le> length s")
        case False
        with bad n0 \<open>\<not> b < 0x80\<close> show ?thesis
          by (simp add: decode_percent_Cons b_def [symmetric] n_def [symmetric] Let_def
              read_octets_percent)
      next
        case True
        have "map char_of (b # map of_char (take (n - 1) s)) = c # take (n - 1) s"
          by (simp add: b_def comp_def)
        moreover have "c # take (n - 1) s @ drop (n - 1) s = c # s" by simp
        ultimately show ?thesis
          using True bad n0 \<open>\<not> b < 0x80\<close> "2.IH"(2) [OF b_def n_def n0]
          by (auto simp: decode_percent_Cons b_def [symmetric] n_def [symmetric] Let_def
              read_octets_percent sum_bind_def)
      qed
    qed
  qed
qed

subsection \<open>Properties of urlBase64Decode\<close>

text \<open>C22: the base64url decoder of \<open>new JwtHelperService()\<close> inverts the base64url
  encoding of a payload: for every byte string it returns the bytes when they are
  well-formed UTF-8, and throws \<open>URIError\<close> (from \<open>decodeURIComponent\<close>) otherwise.\<close>

theorem urlBase64Decode_roundtrip:
  "url_base64_decode angular_jwt (b64url_encode s) =
     (if utf8_valid s then Inr s else Inl (URIError ''URI malformed''))"
  using urlBase64Decode_encode [of s] decode_percent [of s] by (simp add: angular_jwt_def uri_error_def)

text \<open>C23: the \<open>JSON.parse\<close> of \<open>new JwtHelperService()\<close> reads back the JSON text of
  every value without \<open>undefined\<close> or \<open>NaN\<close>: strings with any bytes (quotes,
  backslashes and control characters escaped), integers of any sign and size, arrays and
  objects nested to any depth, object members in order.\<close>

theorem decoder_json_parse_roundtrip:
  assumes "json_ok v"
  shows "json_parse angular_jwt (json_text v) = Inr v"
  using JSON_parse_roundtrip [OF assms] by (simp add: angular_jwt_def)

theorem decoder_json_parse_roundtrip_witness:
  "json_ok (Obj [(''userId'', Number (IntV 42)), (''exp'', Number (IntV 1700000000))]) \<and>
   json_parse angular_jwt (json_text (Obj [(''userId'', Number (IntV 42)), (''exp'', Number (IntV 1700000000))])) =
   Inr (Obj [(''userId'', Number (IntV 42)), (''exp'', Number (IntV 1700000000))])"
  using decoder_json_parse_roundtrip [of "Obj [(''userId'', Number (IntV 42)), (''exp'', Number (IntV 1700000000))]"]
  by simp

text \<open>The \<open>JSON.parse\<close> of \<open>new JwtHelperService()\<close> terminates on every input: the
  parser's fuel \<open>json_fuel s\<close> (twice the length plus one) is always enough, any larger
  fuel gives the same result, so the decoder returns the parser's own answer (a value,
  or the \<open>SyntaxError\<close> it throws) and never the out-of-fuel error.\<close>

theorem decoder_json_parse_terminates:
  "\<exists>r. json_value (json_fuel s) s = Some r \<and> (\<forall>g. json_fuel s \<le> g \<longrightarrow> json_value g s = Some r) \<and>
     json_parse angular_jwt s =
       (case r of
          Inl e \<Rightarrow> Inl e
        | Inr (v, rest) \<Rightarrow>
            if skip_ws rest = [] then Inr v
            else Inl (SyntaxError ''Unexpected non-whitespace character after JSON''))"
proof -
  obtain r where r: "json_value (json_fuel s) s = Some r"
    and mono: "\<forall>g. json_fuel s \<le> g \<longrightarrow> json_value g s = Some r"
    using JSON_parse_terminates [of s] by blast
  then show ?thesis by (auto simp: angular_jwt_def JSON_parse_def)
qed

theorem decoder_json_parse_terminates_witness:
  "json_fuel ''[1]'' \<le> (10::nat) \<and> json_value 10 ''[1]'' = json_value (json_fuel ''[1]'') ''[1]'' \<and>
   json_value (json_fuel ''[1]'') ''[1]'' \<noteq> None \<and> json_parse angular_jwt ''[1]'' = Inr (Arr [Number (IntV 1)])"
proof -
  obtain r where "json_value (json_fuel ''[1]'') ''[1]'' = Some r"
    "\<forall>g. json_fuel ''[1]'' \<le> g \<longrightarrow> json_value g ''[1]'' = Some r"
    "json_parse angular_jwt ''[1]'' =
       (case r of Inl e \<Rightarrow> Inl e | Inr (v, rest) \<Rightarrow> if skip_ws rest = [] then Inr v
          else Inl (SyntaxError ''Unexpected non-whitespace character after JSON''))"
    using decoder_json_parse_terminates [of "''[1]''"] by blast
  moreover have "json_value (json_fuel ''[1]'') ''[1]'' = Some (Inr (Arr [Number (IntV 1)], []))"
    by code_simp
  moreover have "json_fuel ''[1]'' \<le> (10::nat)" by (simp add: json_fuel_def)
  ultimately show ?thesis by clarsimp
qed

end
