(* ===== verification/Session.thy ===== *)
theory Session
  imports App JwtDecode
begin

text \<open>The session as the running client sees it: \<open>TokenService\<close> and \<open>AuthGuard\<close> with
  the decoder of \<open>new JwtHelperService()\<close> (\<open>angular_jwt\<close>) on tokens as an issuer
  writes them (\<open>jwt_token\<close>: header, base64url of the JSON text of the payload,
  signature, joined by dots).\<close>

definition jwt_token :: "string \<Rightarrow> jsval \<Rightarrow> string \<Rightarrow> string" where
  "jwt_token h payload sg = h @ CHR ''.'' # b64url_encode (json_text payload) @ CHR ''.'' # sg"

text \<open>A payload whose JSON text is ASCII: its strings have no byte above 0x7F.\<close>

definition ascii :: "string \<Rightarrow> bool" where
  "ascii s \<longleftrightarrow> (\<forall>c \<in> set s. of_char c < (128::nat))"

subsection \<open>Decoding an issued token\<close>

lemma b64url_encode_no_dot: "CHR ''.'' \<notin> set (b64url_encode s)"
proof -
  have "CHR ''.'' \<notin> set b64url_chars" by (simp add: b64url_chars_def)
  then show ?thesis using b64url_encode_chars [of s] by blast
qed

text \<open>The decoding of an issued token, given what \<open>urlBase64Decode\<close> returns on its
  payload.\<close>

lemma decode_jwt_token:
  assumes "CHR ''.'' \<notin> set h" "CHR ''.'' \<notin> set sg" "json_ok v"
    "urlBase64Decode (b64url_encode (json_text v)) = Inr (json_text v)"
  shows "decode_token angular_jwt (jwt_token h v sg) = Inr v"
proof -
  have "json_text v \<noteq> []" using json_text_Cons [of v] by auto
  then show ?thesis
    using assms JSON_parse_roundtrip [OF assms(3)]
    by (simp add: jwt_token_def decode_token_three_parts b64url_encode_no_dot angular_jwt_def
        sum_bind_def)
qed

lemma decode_jwt_token_malformed:
  assumes "CHR ''.'' \<notin> set h" "CHR ''.'' \<notin> set sg"
    "urlBase64Decode (b64url_encode p) = Inl (URIError ''URI malformed'')"
  shows "decode_token angular_jwt (h @ CHR ''.'' # b64url_encode p @ CHR ''.'' # sg) =
    Inl (URIError ''URI malformed'')"
  using assms
  by (simp add: decode_token_three_parts b64url_encode_no_dot angular_jwt_def sum_bind_def)

lemma utf8_valid_ascii: "ascii s \<Longrightarrow> utf8_valid s"
  by (induction s) (simp_all add: ascii_def leading_ones_def)

lemma jwt_token_not_Nil: "jwt_token h v sg \<noteq> []"
  by (simp add: jwt_token_def)

lemma ascii_append [simp]: "ascii (xs @ ys) \<longleftrightarrow> ascii xs \<and> ascii ys"
  by (auto simp: ascii_def)

lemma ascii_show_int: "ascii (show_int n)"
proof -
  have "of_char c < (128::nat)" if "is_radix_digit 10 c" for c
    using that by (auto simp: is_radix_digit_def digit_value_def Let_def split: if_splits)
  then show ?thesis
    using show_nat_digits [of "nat \<bar>n\<bar>"]
    by (auto simp: ascii_def show_int_def list_all_iff)
qed

lemma ascii_user_payload:
  "ascii (json_text (Obj [(''userId'', Number (IntV u)), (''exp'', Number (IntV e))]))"
  using ascii_show_int [of u] ascii_show_int [of e]
  by (simp add: json_quote_def json_escape_out_def ascii_def quote_char_def ball_Un)

lemma can_activate_same_decoding:
  assumes "has_local_storage ts" "t \<noteq> []" "t' \<noteq> []"
    "decode_token (jwt_helper ts) t = decode_token (jwt_helper ts) t'"
  shows "can_activate ts (st(TOKEN_KEY \<mapsto> t)) now r = can_activate ts (st'(TOKEN_KEY \<mapsto> t')) now r"
proof -
  have tok: "get_token ts (st(TOKEN_KEY \<mapsto> t)) = Some t" "get_token ts (st'(TOKEN_KEY \<mapsto> t')) = Some t'"
    using assms(1) by (simp_all add: get_token_def)
  have "get_user_id ts (st(TOKEN_KEY \<mapsto> t)) = get_user_id ts (st'(TOKEN_KEY \<mapsto> t'))"
    unfolding get_user_id_def tok using assms(2-4) by simp
  moreover have "is_token_expired ts (st(TOKEN_KEY \<mapsto> t)) now = is_token_expired ts (st'(TOKEN_KEY \<mapsto> t')) now"
    unfolding is_token_expired_def tok jwt_is_token_expired_def get_token_expiration_date_def
    using assms(2-4) by simp
  ultimately show ?thesis by (simp only: can_activate_def)
qed

lemma decode_token_same_payload:
  assumes "CHR ''.'' \<notin> set h" "CHR ''.'' \<notin> set p" "CHR ''.'' \<notin> set p'" "CHR ''.'' \<notin> set sg"
    "url_base64_decode codec p = url_base64_decode codec p'"
  shows "decode_token codec (h @ CHR ''.'' # p @ CHR ''.'' # sg) = decode_token codec (h @ CHR ''.'' # p' @ CHR ''.'' # sg)"
  using decode_token_three_parts [where h = h and p = p and sg = sg and codec = codec]
    decode_token_three_parts [where h = h and p = p' and sg = sg and codec = codec] assms
  by simp

subsection \<open>Properties of the session\<close>

text \<open>C6: with the browser's storage and the decoder of \<open>new JwtHelperService()\<close>, a
  stored token that an issuer wrote for an object payload (any JSON object whose text is
  UTF-8) makes getUserId return parseInt of its userId claim, 0 without one, and
  isTokenExpired compare its exp claim, in seconds, with the clock (false without one).\<close>

theorem session_of_encoded_token:
  assumes "has_local_storage ts" and "jwt_helper ts = angular_jwt"
    and "st TOKEN_KEY = Some (jwt_token h (Obj kvs) sg)"
    and "CHR ''.'' \<notin> set h" and "CHR ''.'' \<notin> set sg"
    and "json_ok (Obj kvs)" and "utf8_valid (json_text (Obj kvs))"
  shows "get_user_id ts st =
      Inr (case map_of (rev kvs) ''userId'' of Some v \<Rightarrow> parse_int (js_to_string v) | None \<Rightarrow> IntV 0) \<and>
    is_token_expired ts st now =
      Inr (case map_of (rev kvs) ''exp'' of
             None \<Rightarrow> False
           | Some exp \<Rightarrow> \<not> num_gt (seconds_to_time (to_number exp)) (IntV now))"
proof -
  have tok: "get_token ts st = Some (jwt_token h (Obj kvs) sg)"
    using assms(1,3) by (simp add: get_token_def)
  have "urlBase64Decode (b64url_encode (json_text (Obj kvs))) = Inr (json_text (Obj kvs))"
    using urlBase64Decode_encode decode_percent assms(7) by simp
  then have dec: "decode_token (jwt_helper ts) (jwt_token h (Obj kvs) sg) = Inr (Obj kvs)"
    using decode_jwt_token [OF assms(4-6)] assms(2) by simp
  show ?thesis
    unfolding get_user_id_decoded [OF tok jwt_token_not_Nil dec]
      is_token_expired_decoded [OF tok jwt_token_not_Nil dec]
      js_in_Obj_map_of has_own_property_Obj_map_of
    by (cases "map_of (rev kvs) ''userId''"; cases "map_of (rev kvs) ''exp''") simp_all
qed

theorem session_of_encoded_token_witness:
  "get_user_id \<lparr>has_local_storage = True, jwt_helper = angular_jwt\<rparr>
     [TOKEN_KEY \<mapsto> jwt_token ''h'' (Obj [(''userId'', Number (IntV 42)), (''exp'', Number (IntV 100))]) ''s''] =
     Inr (IntV 42) \<and>
   is_token_expired \<lparr>has_local_storage = True, jwt_helper = angular_jwt\<rparr>
     [TOKEN_KEY \<mapsto> jwt_token ''h'' (Obj [(''userId'', Number (IntV 42)), (''exp'', Number (IntV 100))]) ''s''] 0 =
     Inr False"
proof -
  have "utf8_valid (json_text (Obj [(''userId'', Number (IntV 42)), (''exp'', Number (IntV 100))]))"
    by (rule utf8_valid_ascii [OF ascii_user_payload])
  moreover have "parse_int (js_to_string (Number (IntV 42))) = IntV 42"
    by (simp add: parse_int_show_int)
  moreover have "num_gt (seconds_to_time (IntV 100)) (IntV 0)"
    by (simp add: max_time_def)
  ultimately show ?thesis
    using session_of_encoded_token [of "\<lparr>has_local_storage = True, jwt_helper = angular_jwt\<rparr>"
        "[TOKEN_KEY \<mapsto> jwt_token ''h'' (Obj [(''userId'', Number (IntV 42)), (''exp'', Number (IntV 100))]) ''s'']"
        "''h''" "[(''userId'', Number (IntV 42)), (''exp'', Number (IntV 100))]" "''s''" 0]
    by simp
qed

text \<open>C8: from every state of the client, logging in with the token an issuer writes
  for a positive user id u and an exp e after the clock admits the user: getUserId is u,
  isTokenExpired is false, canActivate answers true with no redirect, and a guard run
  after the login leaves the router as it was.\<close>

theorem login_admits_user:
  assumes "has_local_storage ts" and "jwt_helper ts = angular_jwt"
    and "CHR ''.'' \<notin> set h" and "CHR ''.'' \<notin> set sg"
    and "0 < u" and "\<bar>e * 1000\<bar> \<le> max_time" and "now < e * 1000"
  shows "get_user_id ts (app_storage (app_run ts base
        [Login (jwt_token h (Obj [(''userId'', Number (IntV u)), (''exp'', Number (IntV e))]) sg)] s)) =
      Inr (IntV u) \<and>
    is_token_expired ts (app_storage (app_run ts base
        [Login (jwt_token h (Obj [(''userId'', Number (IntV u)), (''exp'', Number (IntV e))]) sg)] s)) now =
      Inr False \<and>
    can_activate ts (app_storage (app_run ts base
        [Login (jwt_token h (Obj [(''userId'', Number (IntV u)), (''exp'', Number (IntV e))]) sg)] s)) now r =
      (Ok True, r) \<and>
    app_router (app_run ts base
        [Login (jwt_token h (Obj [(''userId'', Number (IntV u)), (''exp'', Number (IntV e))]) sg), GuardCheck now] s) =
      app_router s"
proof -
  let ?kvs = "[(''userId'', Number (IntV u)), (''exp'', Number (IntV e))]"
  let ?token = "jwt_token h (Obj ?kvs) sg"
  let ?st = "app_storage (app_run ts base [Login ?token] s)"
  have "urlBase64Decode (b64url_encode (json_text (Obj ?kvs))) = Inr (json_text (Obj ?kvs))"
    using urlBase64Decode_encode decode_percent utf8_valid_ascii [OF ascii_user_payload [of u e]] by simp
  then have dec: "decode_token (jwt_helper ts) ?token = Inr (Obj ?kvs)"
    using decode_jwt_token [OF assms(3,4)] assms(2) by simp
  have tok: "get_token ts ?st = Some ?token"
    using assms(1) by (simp add: get_token_def set_token_def)
  have uid: "get_user_id ts ?st = Inr (IntV u)"
    unfolding get_user_id_decoded [OF tok jwt_token_not_Nil dec] js_in_Obj_map_of
    by (simp add: parse_int_show_int)
  have exp: "is_token_expired ts ?st now = Inr False"
    using tok assms(7) jwt_is_token_expired_exp [OF jwt_token_not_Nil dec _ assms(6), of now]
    by (simp add: is_token_expired_def jwt_token_not_Nil)
  have "can_activate ts ?st now r = (Ok True, r)" for r
    using uid exp assms(5) by (simp add: can_activate_def)
  with uid exp show ?thesis by simp
qed

theorem login_admits_user_witness:
  "get_user_id \<lparr>has_local_storage = True, jwt_helper = angular_jwt\<rparr>
     (app_storage (app_run \<lparr>has_local_storage = True, jwt_helper = angular_jwt\<rparr> ''http://api''
       [Login (jwt_token ''h'' (Obj [(''userId'', Number (IntV 5)), (''exp'', Number (IntV 100))]) ''s'')]
       (app_boot ''http://api'' Map.empty 0))) = Inr (IntV 5) \<and>
   can_activate \<lparr>has_local_storage = True, jwt_helper = angular_jwt\<rparr>
     (app_storage (app_run \<lparr>has_local_storage = True, jwt_helper = angular_jwt\<rparr> ''http://api''
       [Login (jwt_token ''h'' (Obj [(''userId'', Number (IntV 5)), (''exp'', Number (IntV 100))]) ''s'')]
       (app_boot ''http://api'' Map.empty 0))) 0 \<lparr>navigations = []\<rparr> = (Ok True, \<lparr>navigations = []\<rparr>)"
  using login_admits_user [where ts = "\<lparr>has_local_storage = True, jwt_helper = angular_jwt\<rparr>"
      and h = "''h''" and sg = "''s''" and u = 5 and e = 100 and now = 0 and base = "''http://api''"
      and s = "app_boot ''http://api'' Map.empty 0" and r = "\<lparr>navigations = []\<rparr>"]
  by (simp add: max_time_def)
text \<open>C7: a token whose payload bytes are not well-formed UTF-8 (for instance a
  byte 0xFF) makes the route guard throw the \<open>URIError\<close> of \<open>decodeURIComponent\<close>
  instead of answering, and the router is left unchanged.\<close>

theorem malformed_payload_guard_throws:
  assumes "has_local_storage ts" and "jwt_helper ts = angular_jwt"
    and "st TOKEN_KEY = Some (h @ CHR ''.'' # b64url_encode p @ CHR ''.'' # sg)"
    and "CHR ''.'' \<notin> set h" and "CHR ''.'' \<notin> set sg" and "\<not> utf8_valid p"
  shows "can_activate ts st now r = (Thrown (URIError ''URI malformed''), r)"
proof -
  have "urlBase64Decode (b64url_encode p) = Inl (URIError ''URI malformed'')"
    using urlBase64Decode_encode decode_percent assms(6) by (simp add: uri_error_def)
  then have "is_token_expired ts st now = Inl (URIError ''URI malformed'')"
    using assms decode_jwt_token_malformed [OF assms(4,5)]
    by (simp add: is_token_expired_def get_token_def jwt_is_token_expired_def
        get_token_expiration_date_def sum_bind_def)
  then show ?thesis by (simp add: can_activate_def)
qed

theorem malformed_payload_guard_throws_witness:
  "can_activate \<lparr>has_local_storage = True, jwt_helper = angular_jwt\<rparr>
     [TOKEN_KEY \<mapsto> ''h'' @ CHR ''.'' # b64url_encode [CHR 0xFF] @ CHR ''.'' # ''s''] 0
     \<lparr>navigations = []\<rparr> =
   (Thrown (URIError ''URI malformed''), \<lparr>navigations = []\<rparr>)"
  by (rule malformed_payload_guard_throws [where h = "''h''" and p = "[CHR 0xFF]" and sg = "''s''"])
    (simp_all add: leading_ones_def)


text \<open>C9: the decoder of \<open>new JwtHelperService()\<close> skips every character of the payload
  that is not in its base64 table (such as \<open>!\<close>, \<open>*\<close> or a space), so a token whose
  payload has such characters inserted is not reported as malformed: as long as the
  length is not 1 modulo 4, the route guard gives the same answer as for the token
  without them.\<close>

theorem junk_in_payload_ignored:
  assumes "has_local_storage ts" and "jwt_helper ts = angular_jwt"
    and "\<forall>c \<in> set j. url_to_std c \<notin> set b64_chars \<and> c \<noteq> CHR ''.''"
    and "CHR ''.'' \<notin> set (h @ xs @ ys @ sg)" and "CHR ''='' \<notin> set (xs @ ys)"
    and "length (xs @ j @ ys) mod 4 \<noteq> 1" and "length (xs @ ys) mod 4 \<noteq> 1"
  shows "can_activate ts (st(TOKEN_KEY \<mapsto> h @ CHR ''.'' # (xs @ j @ ys) @ CHR ''.'' # sg)) now r =
    can_activate ts (st(TOKEN_KEY \<mapsto> h @ CHR ''.'' # (xs @ ys) @ CHR ''.'' # sg)) now r"
proof -
  have junk: "\<forall>c \<in> set j. url_to_std c \<notin> set b64_chars" and dots: "CHR ''.'' \<notin> set j"
    using assms(3) by auto
  have "url_base64_decode (jwt_helper ts) (xs @ j @ ys) = url_base64_decode (jwt_helper ts) (xs @ ys)"
    using urlBase64Decode_junk [OF junk assms(5-7)] assms(2) by (simp add: angular_jwt_def)
  then have dec: "decode_token (jwt_helper ts) (h @ CHR ''.'' # (xs @ j @ ys) @ CHR ''.'' # sg) =
      decode_token (jwt_helper ts) (h @ CHR ''.'' # (xs @ ys) @ CHR ''.'' # sg)"
    by (rule decode_token_same_payload [rotated 4]) (use assms(4) dots in simp_all)
  show ?thesis by (rule can_activate_same_decoding [OF assms(1) _ _ dec]) simp_all
qed

theorem junk_in_payload_ignored_witness:
  "can_activate \<lparr>has_local_storage = True, jwt_helper = angular_jwt\<rparr>
     [TOKEN_KEY \<mapsto> ''h.e3!!!!0.s''] 0 \<lparr>navigations = []\<rparr> =
   can_activate \<lparr>has_local_storage = True, jwt_helper = angular_jwt\<rparr>
     [TOKEN_KEY \<mapsto> ''h.e30.s''] 0 \<lparr>navigations = []\<rparr>"
  using junk_in_payload_ignored [where ts = "\<lparr>has_local_storage = True, jwt_helper = angular_jwt\<rparr>"
      and h = "''h''" and xs = "''e3''" and j = "''!!!!''" and ys = "''0''" and sg = "''s''"
      and st = Map.empty and now = 0 and r = "\<lparr>navigations = []\<rparr>"]
  by (simp add: b64_chars_def url_to_std_def)

end
