(* ===== verification/Spec2Isabelle.thy ===== *)
theory Spec2Isabelle
  imports OrderRef Session
begin

text \<open>
  \<^bold>\<open>A verification model of the OnlineShoppingPlatform Angular client: session, route
  guard, latest-order state and the order-detail view.\<close>

  \<^bold>\<open>The program.\<close>  The client keeps a JWT in the browser's \<open>localStorage\<close> under
  \<open>access-token\<close> (\<open>TokenService\<close>, \<open>src/frontend/src/app/services/token.service.ts\<close>),
  decodes it without network access through the \<open>JwtHelperService\<close> of
  \<open>@auth0/angular-jwt\<close> to read the \<open>userId\<close> and \<open>exp\<close> claims, and gates protected
  routes with \<open>AuthGuard.canActivate\<close> (\<open>src/frontend/src/app/guards/auth.guard.ts\<close>),
  which allows a navigation when the token is not expired and the user id is positive and
  otherwise redirects to \<open>/login\<close>.  \<open>OrderService\<close>
  (\<open>src/src/app/services/order.service.ts\<close>) keeps the id of the latest order in memory,
  mirrors it under \<open>latestOrderId\<close> in \<open>localStorage\<close> when an order is placed and
  restores it on construction; the header (\<open>src/src/app/components/header/header.component.ts\<close>)
  navigates to that order or logs out; the order-detail view
  (\<open>src/frontend/src/app/components/detail-order/order.detail.component.ts\<close>) fetches an
  order, records its id as the latest, rebuilds its dates from \<open>[y, m, d]\<close> arrays and
  prefixes product thumbnails with the image base URL.  The components share the
  storage, the router and the \<open>OrderService\<close> instance.

  \<^bold>\<open>The library.\<close>
  \<^item> \<open>Prelude\<close>: errors (\<open>js_error\<close>), the \<open>outcome\<close> of code that may throw, the
    storage type, \<open>sum_bind\<close> sequencing computations that may throw, \<open>sum_map_list\<close>
    (\<open>Array.prototype.map\<close> with a throwing callback), \<open>run_stmts\<close> (a handler body
    as a list of statements, a throw keeping the state reached), the router.
  \<^item> \<open>JsValue\<close>: run-time values (\<open>jsval\<close>, numbers \<open>jsnum\<close> = integers and \<open>NaN\<close>) and
    the ECMAScript operations the sources rely on: \<open>ToString\<close>, \<open>ToNumber\<close>,
    \<open>parseInt\<close>, truthiness, property reads, \<open>in\<close>, \<open>hasOwnProperty\<close>; the decimal
    round trips \<open>string_to_number (show_int i) = IntV i\<close> and
    \<open>parse_int (show_int i) = IntV i\<close>.
  \<^item> \<open>JsDate\<close>: \<open>new Date(y, m, d)\<close> (\<open>MakeDay\<close>, the two-digit-year rule,
    \<open>TimeClip\<close>) and the getters (\<open>date_fields\<close>: \<open>YearFromTime\<close>,
    \<open>MonthFromTime\<close>, \<open>DateFromTime\<close>), with the calendar arithmetic behind the
    round trip.
  \<^item> \<open>Jwt\<close>: the JWT helper (a library, modelled from its source):
    \<open>decode_token\<close>, \<open>get_token_expiration_date\<close>, \<open>jwt_is_token_expired\<close>, over a
    \<open>jwt_codec\<close> record holding the payload's base64url decoder and JSON parser, so
    that the service lemmas hold for every codec; the split/join round trip of token
    parts.
  \<^item> \<open>JsonParse\<close>: \<open>JSON.parse\<close> (\<open>JSON_parse\<close>) as a recursive-descent parser:
    strings with every escape (surrogate pairs joined, strings held as their UTF-8
    bytes), numbers, literals, and the mutually recursive \<open>json_value\<close>,
    \<open>json_array\<close>, \<open>json_object\<close> (a later duplicate key wins), which carry fuel;
    the encoder \<open>json_text\<close> the round trip is stated with; that the fuel is always
    enough and that more fuel changes nothing.
  \<^item> \<open>JwtDecode\<close>: the codec of \<open>new JwtHelperService()\<close> (\<open>angular_jwt\<close>, the
    \<open>jwtHelperService\<close> field of \<open>TokenService\<close>): \<open>urlBase64Decode\<close>,
    \<open>b64DecodeUnicode\<close> and the bit-buffer loop of \<open>b64decode\<close> (\<open>b64_loop\<close>, with
    the library's \<open>&\<close> and \<open>>>\<close> on integers), \<open>decodeURIComponent\<close> (ECMA-262's Decode,
    with the UTF-8 checks of Unicode's Table 3-7, \<open>utf8_code_point_ok\<close>); the
    unpadded base64url encoder \<open>b64url_encode\<close> and the reference predicate
    \<open>utf8_valid\<close> the round trips are stated with.
  \<^item> \<open>Session\<close>: the token an issuer writes (\<open>jwt_token\<close>: header, base64url of the
    payload's JSON text, signature) read by \<open>TokenService\<close> and \<open>AuthGuard\<close> through
    \<open>angular_jwt\<close>, and the client's liveness: a login always lets the user in.
  \<^item> \<open>TokenService\<close>: the record \<open>token_service\<close> (whether the window's storage exists,
    the JWT helper) and \<open>get_token\<close>, \<open>set_token\<close>, \<open>remove_token\<close>, \<open>get_user_id\<close>,
    \<open>is_token_expired\<close> over an explicit storage map.
  \<^item> \<open>AuthGuard\<close>: \<open>can_activate\<close>, returning the verdict (or the exception) beside the
    router, whose state is the list of requested navigations.
  \<^item> \<open>OrderService\<close>: the record \<open>order_service\<close>, \<open>order_service_init\<close> (the
    constructor), \<open>place_order_next\<close> (the \<open>tap\<close> of \<open>placeOrder\<close>) and the HTTP
    requests of every method as \<open>http_request\<close> values.
  \<^item> \<open>Header\<close>: the records \<open>header\<close> (the component's fields) and \<open>browser\<close>
    (storage, router, console), \<open>ng_on_init\<close>, \<open>toggle_popover\<close>,
    \<open>set_active_nav_item\<close> and \<open>handle_item_click\<close>.
  \<^item> \<open>OrderDetail\<close>: the record \<open>order_response\<close>, the route id, \<open>set_prop\<close>,
    \<open>rewrite_thumbnail\<close>, \<open>array_map\<close>, \<open>date_from_array\<close> and the \<open>next\<close>
    callback \<open>get_order_details_next\<close> as the statement list \<open>detail_stmts\<close>.
  \<^item> \<open>OrderRef\<close>: the \<open>OrderRefStore\<close> contract of the specification as an abstract
    machine (\<open>order_ref\<close>, \<open>ref_step\<close>: initialize, recordFromPlacedOrder,
    recordFromFetch), the refinement mapping \<open>abs_app\<close> from client states, and the
    simulation of the client by the abstract machine.
  \<^item> \<open>App\<close>: the whole client as a state machine: the record \<open>app_state\<close> (storage,
    router, console, the shared \<open>OrderService\<close>, the header's and the detail view's
    state), the events \<open>app_event\<close> (page load; the login flow, which is not among
    the sources, as its two storage writes: \<open>Login\<close> stores the token and
    \<open>UserLoaded\<close> the user fetched afterwards; the responses to the order requests,
    the header's actions, a guard run), the step function \<open>app_step\<close> that
    runs the component handlers above, runs of event lists (\<open>app_run\<close>), and the
    reachable states \<open>app_reach\<close> (an inductive predicate) with invariants proved by
    rule induction.
  This theory holds the properties that span two or three components.

  \<^bold>\<open>What is proved.\<close>  The guard allows exactly when the token service reports
  "not expired" and a positive user id (and then leaves the router alone); it allows only
  when a non-empty stored token decodes to a payload with a positive \<open>userId\<close> that the
  helper does not report expired; it denies and redirects when there is no token or the
  session is invalid; a token that cannot be decoded makes it throw without redirecting.
  The latest order survives a reload once placed; the header navigates to it when it is
  truthy and otherwise only logs; logout removes token and user but keeps
  \<open>latestOrderId\<close>, and after it the guard denies.  The detail view records the id it
  shows (before anything else, so also when it later throws), which the header then
  links to when it is a non-zero integer (for 0 it only logs), and the link's route
  parameter requests the same order; that id is not
  persisted, so a reload restores the placed order instead.  A valid \<open>[y, m, d]\<close> date
  array reads back as (y, m - 1, d); a two-digit year becomes 19yy; an overflowing day
  rolls into the next month; a short array gives an Invalid Date without error; a
  missing \<open>order_date\<close> throws after latestOrderId, the id and the contact fields were
  assigned, every other field keeping its value; thumbnails are rewritten as specified;
  \<open>shipping_address\<close> is never copied.  Over the whole client (\<open>App\<close>): every
  reachable state has asked the router only for \<open>/login\<close>, \<open>/user-profile\<close> and
  \<open>/orders/:id\<close>; every storage key other than the token, \<open>latestOrderId\<close> and the user
  keeps its first value; no sequence of events other than login
  and logout changes the guard's verdict; a placed order is still "my latest order"
  after a reload; from every state a login with an issuer's token for a positive user id
  and a future \<open>exp\<close> yields that user id, a token not expired, and a guard that
  answers true without a redirect (\<open>Session\<close>); the header's link opens a detail view
  that requests the same order.  The client refines the \<open>OrderRefStore\<close> contract on runs whose order
  responses carry integer ids, and on those runs \<open>latestOrderId\<close> keeps its declared
  type \<open>number | null\<close>.  \<open>getFullYear\<close> agrees with the specification's
  \<open>YearFromTime\<close> on every time value.  The validators' results on every kind of
  payload, the store's set/get round trip, idempotent removal and the behaviour without
  a window are proved in \<open>TokenService\<close>.  With the library's own decoder
  (\<open>JwtDecode\<close>, \<open>Session\<close>): \<open>urlBase64Decode\<close> inverts the base64url encoding of
  every well-formed UTF-8 byte string and throws \<open>URIError\<close> on every other one;
  \<open>JSON.parse\<close> reads back the JSON text of every value without \<open>undefined\<close> and
  \<open>NaN\<close> (and the model's fuel is always enough); so a stored token written for an object payload
  yields \<open>parseInt\<close> of its \<open>userId\<close> and the comparison of its \<open>exp\<close> with the
  clock, a payload that is not UTF-8 makes the guard throw; and
  characters outside the base64 table inserted into a payload are skipped by
  \<open>b64decode\<close>, so the guard answers for such a corrupted token as for the original.

  \<^bold>\<open>Modelling decisions.\<close>  The clock is a parameter \<open>now\<close> (milliseconds), as
  \<open>new Date().valueOf()\<close> reads it.  Numbers are integers or \<open>NaN\<close>: literal forms for
  fractions, exponents and infinities are read as \<open>NaN\<close>, and integer results are exact
  (no rounding to doubles; the dates involved are far below 2^53 ms).  Characters are
  bytes: a JavaScript string is held as its UTF-8 encoding (WTF-8 for a lone
  surrogate), which is what \<open>b64DecodeUnicode\<close>'s \<open>%XX\<close> escapes and
  \<open>decodeURIComponent\<close> produce, so \<open>atob\<close>'s byte string and the decoded text share
  one type.  Object prototypes are not modelled: the keys the code reads (\<open>userId\<close>,
  \<open>exp\<close>, \<open>id\<close>, ...) are not prototype properties.  The local time zone is UTC,
  so \<open>new Date(y, m, d)\<close> has no offset.  Exceptions are values: an operation returns
  \<open>js_error + 'a\<close>, or an \<open>outcome\<close> together with the state as the exception left it.
  A date round trip needs a year within 100000 of year 0, which keeps the time value
  inside \<open>TimeClip\<close>'s range (\<open>day_from_year_range\<close>).  No loop of the sources is
  unbounded: every function of the model is total, defined by structural recursion or
  (\<open>json_string\<close>, \<open>decodeURIComponent\<close>, \<open>utf8_valid\<close>) by a measure on the
  length of the input.  The JSON parser's mutual recursion carries fuel
  \<open>json_fuel s = 2 * length s + 1\<close>: every call either consumes a character or is the
  single value call of an array or object element, which is followed by a consumed
  delimiter, so each character pays for at most two calls; \<open>json_parse_fuel\<close> proves
  the parser never runs out of it and \<open>json_parse_mono\<close> that more fuel gives the same
  result, so the out-of-fuel error of \<open>JSON_parse\<close> is never returned.

  \<^bold>\<open>Not modelled.\<close>  Non-integer numbers of a payload (\<open>JSON.parse\<close> reads a
  fraction that is not an integer as \<open>NaN\<close>; the number model has no doubles).  Templates, styling, the HTTP transport itself
  (requests are descriptions, responses are inputs), \<open>UserService\<close> beyond the
  storage key it reads, clears and saves, the login component beyond its two storage
  writes, and the other components and services of the repository (catalogue, cart),
  which the specification excludes.
\<close>

subsection \<open>Properties across components\<close>

text \<open>Logging out from the header (item 2) removes the token, so the guard then
  refuses every protected route and redirects to /login.\<close>

theorem logout_then_guard_denies:
  "can_activate ts (local_storage (snd (handle_item_click ts svc 2 (h, b)))) now rt =
   (Ok False, navigate [''/login''] rt)"
proof -
  have "get_token ts (local_storage (snd (handle_item_click ts svc 2 (h, b)))) = None"
    by (simp add: handle_item_click_logout_storage)
  then have "get_user_id ts (local_storage (snd (handle_item_click ts svc 2 (h, b)))) = Inr (IntV 0) \<and>
      is_token_expired ts (local_storage (snd (handle_item_click ts svc 2 (h, b)))) now = Inr False"
    by (intro no_token_session) simp
  then show ?thesis by (simp add: can_activate_def)
qed

text \<open>C14: viewing an order in the detail view makes it the header's "my latest order":
  after the handler has run on a response whose id is an integer n (whether the rest of
  the handler completes or throws), item 1 of the header navigates to ['/orders', n] when
  n is not 0, and for n = 0 (a falsy id) requests no navigation and logs the error
  message instead; storage is untouched in both cases.\<close>

theorem viewed_order_is_my_order:
  assumes "get_prop response ''id'' = Inr (Number (IntV n))"
  shows "snd (handle_item_click ts (snd (snd (get_order_details_next base response (r, svc)))) 1 (h, b)) =
    (if n \<noteq> 0 then b\<lparr>router_state := navigate [''/orders'', show_int n] (router_state b)\<rparr>
     else b\<lparr>console_errors := console_errors b @ [NO_ORDER_MESSAGE]\<rparr>)"
  using detail_next_service [OF assms(1)] by (simp add: handle_item_click_def)

theorem viewed_order_is_my_order_witness:
  "snd (handle_item_click
      \<lparr>has_local_storage = True, jwt_helper = \<lparr>url_base64_decode = Inr, json_parse = (\<lambda>_. Inr Null)\<rparr>\<rparr>
      (snd (snd (get_order_details_next ''http://api'' (Obj [(''id'', Number (IntV 42))])
        (order_response_init 0, \<lparr>api_base_url = ''http://api'', latest_order_id = Null\<rparr>)))) 1
      (header_init, \<lparr>local_storage = Map.empty, router_state = \<lparr>navigations = []\<rparr>, console_errors = []\<rparr>)) =
   \<lparr>local_storage = Map.empty, router_state = \<lparr>navigations = [[''/orders'', show_int 42]]\<rparr>, console_errors = []\<rparr>"
  using viewed_order_is_my_order [where response = "Obj [(''id'', Number (IntV 42))]" and n = 42
      and base = "''http://api''" and r = "order_response_init 0"
      and svc = "\<lparr>api_base_url = ''http://api'', latest_order_id = Null\<rparr>"
      and ts = "\<lparr>has_local_storage = True, jwt_helper = \<lparr>url_base64_decode = Inr, json_parse = (\<lambda>_. Inr Null)\<rparr>\<rparr>"
      and h = header_init
      and b = "\<lparr>local_storage = Map.empty, router_state = \<lparr>navigations = []\<rparr>, console_errors = []\<rparr>"]
  by (simp add: navigate_def)

text \<open>The latest order viewed is not persisted: after an order with id a has been
  placed and an order with id b viewed, the running service holds b, but a service
  constructed on reload from the same storage restores a.\<close>

theorem reload_restores_placed_order:
  assumes "get_prop res ''id'' = Inr (Number (IntV a))"
    and "get_prop response ''id'' = Inr (Number (IntV b))"
  shows "latest_order_id (snd (snd (get_order_details_next base response
      (r, fst (snd (place_order_next res (svc, st))))))) = Number (IntV b) \<and>
    latest_order_id (order_service_init base' (snd (snd (place_order_next res (svc, st))))) =
      Number (IntV a)"
proof -
  have p: "place_order_next res (svc, st) =
      (Ok (), svc\<lparr>latest_order_id := Number (IntV a)\<rparr>, st(LATEST_ORDER_KEY \<mapsto> show_int a))"
    by (rule place_order_next_id [OF assms(1)]) simp
  have "string_to_number (show_int a) = IntV a" by (rule string_to_number_show_int)
  then have "latest_order_id (order_service_init base' (st(LATEST_ORDER_KEY \<mapsto> show_int a))) =
      Number (IntV a)"
    by (simp add: order_service_init_saved show_int_def)
  with p show ?thesis using detail_next_service [OF assms(2)] by simp
qed

theorem reload_restores_placed_order_witness:
  "latest_order_id (snd (snd (get_order_details_next ''http://api'' (Obj [(''id'', Number (IntV 9))])
      (order_response_init 0, fst (snd (place_order_next (Obj [(''id'', Number (IntV 5))])
        (\<lparr>api_base_url = ''http://api'', latest_order_id = Null\<rparr>, Map.empty))))))) = Number (IntV 9) \<and>
    latest_order_id (order_service_init ''http://api'' (snd (snd (place_order_next (Obj [(''id'', Number (IntV 5))])
        (\<lparr>api_base_url = ''http://api'', latest_order_id = Null\<rparr>, Map.empty))))) = Number (IntV 5)"
  using reload_restores_placed_order [of "Obj [(''id'', Number (IntV 5))]" 5 "Obj [(''id'', Number (IntV 9))]" 9
      "''http://api''" "order_response_init 0" "\<lparr>api_base_url = ''http://api'', latest_order_id = Null\<rparr>"
      Map.empty "''http://api''"]
  by simp

end
